(* ===== verification/Upk_Prelude.thy ===== *)
theory Upk_Prelude
  imports Main "HOL-Library.Word"
begin

text \<open>
  Shared vocabulary of the development: the machine integers of the C sources, the ways a C
  function can go wrong (memory faults, failed assertions, calls through a null pointer), the sum
  type that carries them, and the few C library functions on character arrays that several
  components use.  The generic lemmas on words, byte lists and the error type live here too, so
  that the component theories only state facts about the program.
\<close>

unbundle bit_operations_syntax

section \<open>Machine integers and byte strings\<close>

type_synonym u8 = "8 word"
type_synonym u16 = "16 word"
type_synonym u32 = "32 word"
type_synonym u64 = "64 word"
type_synonym bytes = "u8 list"

text \<open>Collections the component proofs draw on.\<close>

named_theorems wire_simps \<open>field by field laws of the wire format\<close>
named_theorems cres_simps \<open>evaluation of the C result type\<close>
named_theorems ulist_defs \<open>the list macros, unfolded\<close>
named_theorems buddy_defs \<open>the operations of the buddy, unfolded\<close>

section \<open>Results of C code\<close>

text \<open>
  The outcomes of a C function that are not a return value.  The first three are reads or writes
  outside an object and a dereference of the null pointer, \<open>Null_call\<close> a call through a null
  function pointer, \<open>Abort\<close> a failed \<open>assert\<close>, \<open>Type_confusion\<close> an object used through a pointer
  to another structure, \<open>Use_after_free\<close> and \<open>Double_free\<close> the use of a freed object and a second \<open>free\<close>
  of it, and \<open>Exit_failure\<close> the end of the process after a fatal message.
\<close>

datatype fault =
    Oob_read | Oob_write | Null_deref | Null_call | Abort | Type_confusion
  | Use_after_free | Double_free | Exit_failure

type_synonym 'a cres = "fault + 'a"

definition bind_c :: "'a cres \<Rightarrow> ('a \<Rightarrow> 'b cres) \<Rightarrow> 'b cres" where
  "bind_c m f = (case m of Inl e \<Rightarrow> Inl e | Inr x \<Rightarrow> f x)"

lemma bind_c_simps [simp, cres_simps]:
  "bind_c (Inl e) f = Inl e"
  "bind_c (Inr x) f = f x"
  by (simp_all add: bind_c_def)

lemma bind_c_Inr_iff: "bind_c step rest = Inr out \<longleftrightarrow> (\<exists>mid. rest mid = Inr out \<and> step = Inr mid)"
  by (cases step) auto

lemma bind_c_Inl_iff:
  "bind_c m f = Inl e \<longleftrightarrow> m = Inl e \<or> (\<exists>x. m = Inr x \<and> f x = Inl e)"
  by (cases m) auto

lemma bind_c_assoc: "bind_c (bind_c m f) g = bind_c m (\<lambda>x. bind_c (f x) g)"
  by (cases m) auto

lemma bind_c_return [simp]: "bind_c m Inr = m"
  by (cases m) auto

lemma bind_c_cong [fundef_cong]:
  assumes "m = m'" and "\<And>x. m' = Inr x \<Longrightarrow> f x = f' x"
  shows "bind_c m f = bind_c m' f'"
  using assms by (cases m') auto

text \<open>The faults a computation can end in.\<close>

definition faults_in :: "fault set \<Rightarrow> 'a cres \<Rightarrow> bool" where
  "faults_in E m = (case m of Inl e \<Rightarrow> e \<in> E | Inr _ \<Rightarrow> True)"

lemma faults_in_simps [simp]: "faults_in E (Inl e) \<longleftrightarrow> e \<in> E" "faults_in E (Inr x)"
  by (simp_all add: faults_in_def)

lemma faults_in_bind:
  "faults_in E m \<Longrightarrow> (\<And>x. faults_in E (f x)) \<Longrightarrow> faults_in E (bind_c m f)"
  by (cases m) simp_all

lemma faults_in_bind_pair:
  "faults_in E m \<Longrightarrow> (\<And>x p. faults_in E (f x p)) \<Longrightarrow> faults_in E (bind_c m (\<lambda>(x, p). f x p))"
  by (cases m) auto

lemma faults_inD: "faults_in E (Inl e) \<Longrightarrow> e \<in> E"
  by simp

section \<open>Limits of the library\<close>

text \<open>\<open>UPK_MAX_STRING_LEN\<close> and \<open>UPK_MAX_PATH_LEN\<close> of \<open>upk_types.h\<close>.  They are constants of the
  logic, not abbreviations, so that arrays of that length stay symbolic in proofs.\<close>

definition UPK_MAX_STRING_LEN :: nat where "UPK_MAX_STRING_LEN = 2048"
definition UPK_MAX_PATH_LEN :: nat where "UPK_MAX_PATH_LEN = 8192"

lemma UPK_MAX_STRING_LEN_pos [simp]: "0 < UPK_MAX_STRING_LEN"
  by (simp add: UPK_MAX_STRING_LEN_def)

lemma UPK_MAX_STRING_LEN_word: "n \<le> UPK_MAX_STRING_LEN \<Longrightarrow> n < 2 ^ 32"
  by (simp add: UPK_MAX_STRING_LEN_def)

section \<open>Character arrays\<close>

text \<open>\<open>strnlen\<close>: the number of bytes before the first zero, at most \<open>n\<close>.\<close>

definition strnlen :: "bytes \<Rightarrow> nat \<Rightarrow> nat" where
  "strnlen s n = length (takeWhile (\<lambda>c. c \<noteq> 0) (take n s))"

text \<open>A \<open>char\<close> array of size \<open>n\<close> that holds the string \<open>s\<close>, the rest zeroed as \<open>calloc\<close> leaves it.\<close>

definition char_array :: "nat \<Rightarrow> bytes \<Rightarrow> bytes" where
  "char_array n s = s @ replicate (n - length s) 0"

definition nul_free :: "bytes \<Rightarrow> bool" where
  "nul_free s \<longleftrightarrow> 0 \<notin> set s"

lemma strnlen_le: "strnlen s n \<le> n"
  unfolding strnlen_def by (metis length_takeWhile_le length_take min.bounded_iff)

lemma strnlen_le_length: "strnlen s n \<le> length s"
  unfolding strnlen_def by (metis le_trans length_take length_takeWhile_le min.cobounded1)

lemma strnlen_nul_free: "nul_free s \<Longrightarrow> strnlen s n = min n (length s)"
  unfolding strnlen_def nul_free_def
  by (subst takeWhile_eq_all_conv [THEN iffD2]) (auto dest: in_set_takeD)

lemma strnlen_char_array:
  assumes "nul_free s" and "length s \<le> n"
  shows "strnlen (char_array m s) n = length s"
proof -
  have "takeWhile (\<lambda>c. c \<noteq> 0) (s @ take (n - length s) (replicate (m - length s) 0)) = s"
    using assms(1)
    by (subst takeWhile_append2) (auto simp: nul_free_def takeWhile_replicate)
  then have "takeWhile (\<lambda>c. c \<noteq> 0) (take n (s @ replicate (m - length s) 0)) = s"
    using assms(2) by simp
  then show ?thesis by (simp add: strnlen_def char_array_def)
qed

lemma length_char_array [simp]: "length s \<le> n \<Longrightarrow> length (char_array n s) = n"
  by (simp add: char_array_def)

lemma take_char_array [simp]: "take (length s) (char_array n s) = s"
  by (simp add: char_array_def)

lemma nul_free_take [simp]: "nul_free s \<Longrightarrow> nul_free (take n s)"
  by (auto simp: nul_free_def dest: in_set_takeD)

lemma nul_free_strnlen: "nul_free (take (strnlen s n) s)"
proof -
  have "take (strnlen s n) s = takeWhile (\<lambda>c. c \<noteq> 0) (take n s)"
    unfolding strnlen_def
    by (metis (no_types, lifting) length_takeWhile_le take_take takeWhile_eq_take min.absorb1
        length_take min.bounded_iff)
  then show ?thesis by (auto simp: nul_free_def dest: set_takeWhileD)
qed

section \<open>Big-endian words\<close>

text \<open>\<open>htonl\<close> followed by \<open>memcpy\<close> lays a word out most significant byte first, on any host.\<close>

definition be32 :: "u32 \<Rightarrow> bytes" where
  "be32 w = [ucast (drop_bit 24 w), ucast (drop_bit 16 w), ucast (drop_bit 8 w), ucast w]"

fun of_be32 :: "bytes \<Rightarrow> u32" where
  "of_be32 [a, b, c, d] =
     push_bit 24 (ucast a) OR push_bit 16 (ucast b) OR push_bit 8 (ucast c) OR ucast d"
| "of_be32 _ = 0"

lemma length_be32 [simp]: "length (be32 w) = 4"
  by (simp add: be32_def)

lemma of_be32_be32 [simp, wire_simps]: "of_be32 (be32 w) = w"
  unfolding be32_def of_be32.simps
proof (rule bit_word_eqI, goal_cases)
  case (1 n)
  then show ?case
    by (cases "8 \<le> n"; cases "16 \<le> n"; cases "24 \<le> n") (auto simp: bit_simps)
qed

lemma not_bit_u8: "8 \<le> k \<Longrightarrow> \<not> bit (b :: u8) k"
  by (auto dest: bit_imp_le_length)

lemma be32_of_be32: "length p = 4 \<Longrightarrow> be32 (of_be32 p) = p"
proof -
  assume "length p = 4"
  then obtain a b c d where p: "p = [a, b, c, d]"
    by (auto simp: numeral_eq_Suc length_Suc_conv)
  show ?thesis unfolding p of_be32.simps be32_def
    by (auto intro!: bit_word_eqI simp: bit_simps not_bit_u8)
qed

lemma be32_inject [simp]: "be32 a = be32 b \<longleftrightarrow> a = b"
  by (metis of_be32_be32)

lemma of_nat_unat_u32: "n < 2 ^ 32 \<Longrightarrow> unat (of_nat n :: u32) = n"
  by (simp add: unat_of_nat take_bit_nat_eq_self)

section \<open>Generic lemmas\<close>

lemma upt_split: "i \<le> j \<Longrightarrow> j \<le> k \<Longrightarrow> [i..<j] @ [j..<k] = [i..<k]"
  using upt_add_eq_append [of i j "k - j"] by simp

lemma and_mask_lt_256: "unat ((x :: u32) AND mask 8) < 256"
  using take_bit_nat_less_exp [of 8 "unat x"] by (simp add: unsigned_take_bit_eq flip: take_bit_eq_mask)

lemma xor_right_cancel [simp]: "x XOR z = y XOR z \<longleftrightarrow> x = (y :: 'a::len word)"
  by (metis xor.assoc xor.right_neutral xor_self_eq)

lemma xor_left_cancel [simp]: "z XOR x = z XOR y \<longleftrightarrow> x = (y :: 'a::len word)"
  by (metis xor.assoc xor.left_neutral xor_self_eq)

lemma bit_push_ucast_u8: "bit (ucast (b :: u8) :: u32) k \<longleftrightarrow> k < 8 \<and> bit b k"
  by (cases "k < 8") (auto simp: bit_simps not_bit_u8)

end
