(* ===== verification/Upk_Util.thy ===== *)
theory Upk_Util
  imports Upk_Prelude "HOL-Library.Char_ord"
begin

text \<open>
  \<open>libupkeeper/upkeeper/upk_util.c\<close>: numbers and truth values in option strings, and the replacement
  of a word in a script.  C strings are HOL strings without their terminator; \<open>strtoul\<close> is modelled as
  the C library documents it, for bases up to sixteen.  The file system helpers of the same file
  (\<open>upk_rm_rf\<close>, \<open>upk_mkdir_p\<close>) are in theory \<open>Upk_Files\<close>.
\<close>

section \<open>Digits\<close>

definition digit_val :: "char \<Rightarrow> nat option" where
  "digit_val c =
     (let n = of_char c :: nat in
      if 48 \<le> n \<and> n \<le> 57 then Some (n - 48)
      else if 65 \<le> n \<and> n \<le> 70 then Some (n - 55)
      else if 97 \<le> n \<and> n \<le> 102 then Some (n - 87)
      else None)"

definition is_digit :: "nat \<Rightarrow> char \<Rightarrow> bool" where
  "is_digit base c = (case digit_val c of None \<Rightarrow> False | Some v \<Rightarrow> v < base)"

definition digits_value :: "nat \<Rightarrow> string \<Rightarrow> nat" where
  "digits_value base ds =
     foldl (\<lambda>acc c. acc * base + (case digit_val c of None \<Rightarrow> 0 | Some v \<Rightarrow> v)) 0 ds"

definition hex_digit :: "nat \<Rightarrow> char" where
  "hex_digit n = ''0123456789ABCDEF'' ! n"

text \<open>The conversion \<open>%0kX\<close> of \<open>printf\<close> for a number of at most \<open>k\<close> digits, in a given base.\<close>

fun fixed_digits :: "nat \<Rightarrow> nat \<Rightarrow> nat \<Rightarrow> string" where
  "fixed_digits base 0 n = []"
| "fixed_digits base (Suc k) n = fixed_digits base k (n div base) @ [hex_digit (n mod base)]"

text \<open>The conversion \<open>%d\<close> of a number that is not negative, and of an \<open>int\<close>.\<close>

fun decimal :: "nat \<Rightarrow> string" where
  "decimal n = (if n < 10 then [hex_digit n] else decimal (n div 10) @ [hex_digit (n mod 10)])"

declare decimal.simps [simp del]

definition signed_decimal :: "u32 \<Rightarrow> string" where
  "signed_decimal i = (if sint i < 0 then CHR ''-'' # decimal (nat (- sint i)) else decimal (nat (sint i)))"

section \<open>strtoul\<close>

definition is_space :: "char \<Rightarrow> bool" where
  "is_space c \<longleftrightarrow> (let n = of_char c :: nat in n = 32 \<or> (9 \<le> n \<and> n \<le> 13))"

definition ULONG_MAX :: nat where "ULONG_MAX = 2 ^ 64 - 1"
definition LONG_MAX :: int where "LONG_MAX = 2 ^ 63 - 1"

text \<open>The sign, and the prefix of a hexadecimal number, which is skipped when a digit follows it.\<close>

definition strtoul_sign :: "string \<Rightarrow> bool \<times> string" where
  "strtoul_sign s =
     (case s of [] \<Rightarrow> (False, s)
      | c # t \<Rightarrow>
          if c = CHR ''-'' then (True, t) else if c = CHR ''+'' then (False, t) else (False, s))"

definition strtoul_prefix :: "nat \<Rightarrow> string \<Rightarrow> string" where
  "strtoul_prefix base s =
     (if base = 16 \<and> 2 < length s \<and> s ! 0 = CHR ''0'' \<and> (s ! 1 = CHR ''x'' \<or> s ! 1 = CHR ''X'') \<and>
         is_digit base (s ! 2)
      then drop 2 s else s)"

text \<open>The value, whether it was out of range (\<open>ERANGE\<close>), and whether any digit was read (\<open>p \<noteq> string\<close>).
  A negated value wraps.\<close>

definition strtoul_value :: "nat \<Rightarrow> bool \<Rightarrow> string \<Rightarrow> nat \<times> bool \<times> bool" where
  "strtoul_value base neg s =
     (let ds = takeWhile (is_digit base) s; v = digits_value base ds in
      if ds = [] then (0, False, False)
      else if ULONG_MAX < v then (ULONG_MAX, True, True)
      else (if neg \<and> v \<noteq> 0 then ULONG_MAX + 1 - v else v, False, True))"

definition strtoul :: "nat \<Rightarrow> string \<Rightarrow> nat \<times> bool \<times> bool" where
  "strtoul base s =
     (let (neg, s) = strtoul_sign (dropWhile is_space s) in
      strtoul_value base neg (strtoul_prefix base s))"

text \<open>The conversion of \<open>unsigned long\<close> to \<open>long\<close>.\<close>

definition to_long :: "nat \<Rightarrow> int" where
  "to_long v = (if int v \<le> LONG_MAX then int v else int v - 2 ^ 64)"

section \<open>Option strings\<close>

text \<open>\<open>None\<close> is the answer false; the number is the one stored through the pointer.\<close>

definition upk_numeric_string :: "string \<Rightarrow> int option" where
  "upk_numeric_string string =
     (let base = (if take 2 string = ''0x'' then 16 else if take 1 string = ''0'' then 8 else 10);
          (v, erange, converted) = strtoul base string;
          num = to_long v in
      if \<not> converted then None
      else if erange \<and> (num = LONG_MAX \<or> num = - LONG_MAX - 1) \<or> num \<le> 0 then None
      else Some num)"

definition to_lower :: "char \<Rightarrow> char" where
  "to_lower c = (let n = of_char c :: nat in if 65 \<le> n \<and> n \<le> 90 then char_of (n + 32) else c)"

text \<open>\<open>strncasecmp(string, word, strlen(word)) == 0\<close> for a lower-case word.\<close>

definition has_word :: "string \<Rightarrow> string \<Rightarrow> bool" where
  "has_word string word \<longleftrightarrow> map to_lower (take (length word) string) = word"

definition upk_boolean_string :: "string \<Rightarrow> bool option" where
  "upk_boolean_string string =
     (case upk_numeric_string string of
        Some buf \<Rightarrow> if buf = 0 then Some False else if buf = 1 then Some True else None
      | None \<Rightarrow>
          if has_word string ''true'' then Some True
          else if has_word string ''false'' then Some False
          else if has_word string ''yes'' then Some True
          else if has_word string ''no'' then Some False
          else None)"

section \<open>Replacement\<close>

text \<open>\<open>strstr\<close>: the first offset at which the needle occurs.\<close>

fun strstr :: "string \<Rightarrow> string \<Rightarrow> nat option" where
  "strstr [] needle = (if needle = [] then Some 0 else None)"
| "strstr (c # s) needle =
     (if take (length needle) (c # s) = needle then Some 0 else map_option Suc (strstr s needle))"

text \<open>The buffer with its terminator.  \<open>realloc\<close> keeps the bytes that fit; new ones are arbitrary and
  given as \<open>fresh\<close>.  The loops walk the index as the pointer \<open>seek\<close> does.\<close>

definition realloc :: "(nat \<Rightarrow> char) \<Rightarrow> string \<Rightarrow> nat \<Rightarrow> string" where
  "realloc fresh buf n = take n buf @ map fresh [length buf..<n]"

definition c_string :: "string \<Rightarrow> string" where
  "c_string buf = takeWhile (\<lambda>c. c \<noteq> CHR 0x00) buf"

definition memcpy_at :: "string \<Rightarrow> nat \<Rightarrow> string \<Rightarrow> string" where
  "memcpy_at buf off s = take off buf @ s @ drop (off + length s) buf"

definition shift_up :: "nat \<Rightarrow> nat \<Rightarrow> nat \<Rightarrow> string \<Rightarrow> string" where
  "shift_up d lo hi buf = foldl (\<lambda>b i. b[i + d := b ! i]) buf (rev [lo..<hi])"

definition shift_down :: "nat \<Rightarrow> nat \<Rightarrow> nat \<Rightarrow> string \<Rightarrow> string" where
  "shift_down d lo hi buf = foldl (\<lambda>b i. b[i := b ! (i + d)]) buf [lo..<hi]"

text \<open>The size of the buffer is \<open>len + rlen - nlen + 1\<close>; the two loops are taken when it is above or
  below the length of the haystack.\<close>

definition upk_replace_string :: "(nat \<Rightarrow> char) \<Rightarrow> string \<Rightarrow> string \<Rightarrow> string \<Rightarrow> string" where
  "upk_replace_string fresh haystack needle repl =
     (let len = length haystack; nlen = length needle; rlen = length repl;
          newsize = len + rlen - nlen + 1;
          buf = haystack @ [CHR 0x00] in
      case strstr haystack needle of
        None \<Rightarrow> buf
      | Some off \<Rightarrow>
          let buf =
            (if len < newsize then
               shift_up (rlen - nlen) (off + nlen) (len + 1) (realloc fresh buf newsize)
             else if newsize < len then
               let buf = shift_down (nlen - rlen) (off + rlen) (len - (nlen - rlen)) buf
               in realloc fresh (buf[len - (nlen - rlen) := CHR 0x00]) newsize
             else buf)
          in memcpy_at buf off repl)"

section \<open>The loops of the replacement\<close>

lemma shift_up_Suc: "shift_up d lo (Suc h) buf =
    (if lo \<le> h then shift_up d lo h (buf[h + d := buf ! h]) else buf)"
  by (simp add: shift_up_def)

lemma length_shift_up [simp]: "length (shift_up d lo hi buf) = length buf"
proof (induction hi arbitrary: buf)
  case 0
  then show ?case by (simp add: shift_up_def)
qed (simp add: shift_up_Suc)

lemma nth_shift_up:
  "hi + d \<le> length buf \<Longrightarrow> j < length buf \<Longrightarrow>
     shift_up d lo hi buf ! j = (if lo + d \<le> j \<and> j < hi + d then buf ! (j - d) else buf ! j)"
proof (induction hi arbitrary: buf)
  case 0
  then show ?case by (auto simp: shift_up_def)
next
  case (Suc h)
  then show ?case
    by (cases "j = h + d") (auto simp: shift_up_Suc nth_list_update)
qed

lemma shift_down_Suc: "shift_down d lo (Suc h) buf =
    (if lo \<le> h then (shift_down d lo h buf)[h := shift_down d lo h buf ! (h + d)] else buf)"
  by (simp add: shift_down_def)

lemma length_shift_down [simp]: "length (shift_down d lo hi buf) = length buf"
proof (induction hi)
  case 0
  then show ?case by (simp add: shift_down_def)
qed (simp add: shift_down_Suc)

lemma nth_shift_down:
  "hi + d \<le> length buf \<Longrightarrow> j < length buf \<Longrightarrow>
     shift_down d lo hi buf ! j = (if lo \<le> j \<and> j < hi then buf ! (j + d) else buf ! j)"
proof (induction hi arbitrary: j)
  case 0
  then show ?case by (auto simp: shift_down_def)
next
  case (Suc h)
  then show ?case
    by (auto simp: shift_down_Suc nth_list_update less_Suc_eq)
qed

lemma strstr_Some:
  "strstr s n = Some k \<Longrightarrow> take (length n) (drop k s) = n \<and> k + length n \<le> length s"
proof (induction s arbitrary: k)
  case Nil
  then show ?case by (simp split: if_splits)
next
  case (Cons c s)
  show ?case
  proof (cases "take (length n) (c # s) = n")
    case True
    then have "length n \<le> length (c # s)" by (metis length_take min.cobounded1)
    with True Cons.prems show ?thesis by auto
  next
    case False
    with Cons.prems obtain k' where "strstr s n = Some k'" "k = Suc k'" by auto
    with Cons.IH show ?thesis by simp
  qed
qed

lemma length_realloc [simp]: "length (realloc fresh buf n) = n"
  by (simp add: realloc_def)

lemma nth_realloc: "j < n \<Longrightarrow> j < length buf \<Longrightarrow> realloc fresh buf n ! j = buf ! j"
  by (simp add: realloc_def nth_append)

lemma nth_memcpy_at:
  "off + length s \<le> length buf \<Longrightarrow> j < length buf \<Longrightarrow>
     memcpy_at buf off s ! j = (if off \<le> j \<and> j < off + length s then s ! (j - off) else buf ! j)"
  by (auto simp: memcpy_at_def nth_append min_def)

lemma length_memcpy_at: "off + length s \<le> length buf \<Longrightarrow> length (memcpy_at buf off s) = length buf"
  by (simp add: memcpy_at_def)

lemma replace_grow:
  assumes "off + nlen \<le> length h" and "nlen \<le> length r"
  shows "memcpy_at (shift_up (length r - nlen) (off + nlen) (length h + 1)
      (realloc fresh (h @ [z]) (length h + length r - nlen + 1))) off r =
    take off h @ r @ drop (off + nlen) h @ [z]" (is "?l = ?r")
proof (rule nth_equalityI)
  show len: "length ?l = length ?r"
    using assms by (simp add: length_memcpy_at)
  fix j
  assume j: "j < length ?l"
  have "j < off \<or> (off \<le> j \<and> j < off + length r) \<or> off + length r \<le> j" by arith
  with j show "?l ! j = ?r ! j"
    using assms
    by (elim disjE)
       (auto simp: nth_memcpy_at nth_shift_up nth_realloc nth_append length_memcpy_at add.commute)
qed

lemma replace_shrink:
  assumes "off + nlen \<le> length h" and "length r + 1 < nlen"
  shows "memcpy_at (realloc fresh
      ((shift_down (nlen - length r) (off + length r) (length h - (nlen - length r)) (h @ [z]))
        [length h - (nlen - length r) := z]) (length h + length r - nlen + 1)) off r =
    take off h @ r @ drop (off + nlen) h @ [z]" (is "?l = ?r")
proof (rule nth_equalityI)
  show len: "length ?l = length ?r"
    using assms by (simp add: length_memcpy_at)
  fix j
  assume j: "j < length ?l"
  have "j < off \<or> (off \<le> j \<and> j < off + length r) \<or> off + length r \<le> j" by arith
  with j show "?l ! j = ?r ! j"
    using assms
    by (elim disjE)
       (auto simp: nth_memcpy_at nth_shift_down nth_realloc nth_append length_memcpy_at
         nth_list_update add.commute)
qed

section \<open>Properties\<close>

text \<open>If the needle occurs in the haystack, \<open>upk_replace_string\<close> replaces its first occurrence, except
  when the replacement is exactly one byte shorter: then the last byte of the needle stays.\<close>

theorem replace_string_spec:
  assumes "strstr haystack needle = Some off"
  shows "upk_replace_string fresh haystack needle repl =
    take off haystack @ repl @
    drop (off + (if length repl + 1 = length needle then length repl else length needle)) haystack @
    [CHR 0x00]"
proof -
  have off: "off + length needle \<le> length haystack"
    using strstr_Some [OF assms] by simp
  consider "length needle \<le> length repl" | "length repl + 1 = length needle"
    | "length repl + 1 < length needle" by arith
  then show ?thesis
  proof cases
    case 1
    then have "length haystack < length haystack + length repl - length needle + 1"
      by arith
    then show ?thesis
      using 1 off assms replace_grow [OF off 1]
      by (simp add: upk_replace_string_def Let_def)
  next
    case 2
    then have "length haystack + length repl - length needle + 1 = length haystack"
      using off by arith
    with 2 show ?thesis
      using off assms by (simp add: upk_replace_string_def Let_def memcpy_at_def)
  next
    case 3
    then have "length haystack + length repl - length needle + 1 < length haystack"
      using off by arith
    then show ?thesis
      using 3 off assms replace_shrink [OF off 3]
      by (simp add: upk_replace_string_def Let_def)
  qed
qed

lemma replace_string_spec_witness:
  "upk_replace_string (\<lambda>_. CHR 0x41) ''a %bar b'' ''%bar'' ''quxx'' = ''a quxx b'' @ [CHR 0x00] \<and>
   upk_replace_string (\<lambda>_. CHR 0x41) ''a %bar b'' ''%bar'' ''qux'' = ''a quxr b'' @ [CHR 0x00]"
  using replace_string_spec [of "''a %bar b''" "''%bar''" 2 "\<lambda>_. CHR 0x41" "''quxx''"]
    replace_string_spec [of "''a %bar b''" "''%bar''" 2 "\<lambda>_. CHR 0x41" "''qux''"]
  by simp

lemma numeric_string_pos: "upk_numeric_string s = Some num \<Longrightarrow> 0 < num"
  unfolding upk_numeric_string_def Let_def by (auto split: prod.splits if_splits)

text \<open>A number the option parser accepts is positive and fits a \<open>long\<close>, whatever the string.\<close>

theorem numeric_string_range:
  "case upk_numeric_string s of None \<Rightarrow> True | Some num \<Rightarrow> 0 < num \<and> num \<le> LONG_MAX"
proof (cases "upk_numeric_string s")
  case (Some num)
  define base where
    "base = (if take 2 s = ''0x'' then 16 else if take 1 s = ''0'' then 8 else 10 :: nat)"
  obtain v e c where st: "strtoul base s = (v, e, c)"
    by (rule prod_cases3)
  then have num: "0 < num" "num = to_long (fst (strtoul base s))"
    using Some by (auto simp: upk_numeric_string_def base_def [symmetric] Let_def split: if_splits)
  have "fst (strtoul_value b neg t) \<le> ULONG_MAX" for b neg t
    by (auto simp: strtoul_value_def Let_def ULONG_MAX_def)
  then have "fst (strtoul base s) \<le> ULONG_MAX"
    by (simp add: strtoul_def split: prod.splits)
  then have "to_long (fst (strtoul base s)) \<le> LONG_MAX"
    by (simp add: to_long_def ULONG_MAX_def LONG_MAX_def)
  with num Some show ?thesis by simp
qed simp

lemma numeric_string_zero: "upk_numeric_string ''0'' = None"
proof -
  have "strtoul 8 ''0'' = (0, False, True)"
    by (simp add: strtoul_def strtoul_sign_def strtoul_prefix_def strtoul_value_def is_space_def
        is_digit_def digit_val_def digits_value_def ULONG_MAX_def)
  then show ?thesis by (simp add: upk_numeric_string_def to_long_def LONG_MAX_def)
qed

text \<open>\<open>upk_boolean_string\<close> never takes a number for false.  A string that parses as a number is true
  if the number is 1 and is refused otherwise: the branch for 0 cannot be reached, because
  \<open>upk_numeric_string\<close> refuses numbers that are not positive, and the string 0 itself is refused.\<close>

theorem boolean_string_number:
  "(case upk_numeric_string s of
      None \<Rightarrow> True
    | Some num \<Rightarrow> upk_boolean_string s = (if num = 1 then Some True else None)) \<and>
   upk_boolean_string ''0'' = None"
proof
  show "case upk_numeric_string s of
      None \<Rightarrow> True
    | Some num \<Rightarrow> upk_boolean_string s = (if num = 1 then Some True else None)"
    by (auto simp: upk_boolean_string_def dest: numeric_string_pos split: option.splits)
  show "upk_boolean_string ''0'' = None"
    by (simp add: upk_boolean_string_def has_word_def to_lower_def numeric_string_zero)
qed

end
