(* ===== verification/Upk_Wire.thy ===== *)
theory Upk_Wire
  imports Upk_Prelude
begin

text \<open>
  The serializer macros of \<open>libupkeeper/upkeeper/upk_protocol.h\<close>.  The \<open>UPK_FETCH\<close> macros read at the
  cursor \<open>UPK_BUF_PTR\<close> and advance it; the model keeps the bytes from the cursor to the end of the
  allocated buffer, so a read past the buffer is the fault \<open>Oob_read\<close>.  The \<open>UPK_PUT\<close> macros write at
  the cursor of a buffer of \<open>UPK_DATA_LEN\<close> zero bytes; the model gives the bytes each of them copies,
  and \<open>put_all\<close> runs them, with \<open>Oob_write\<close> for a copy past the buffer.

  The locale \<open>wire_field\<close> is the contract between a \<open>PUT\<close> macro and its \<open>FETCH\<close> macro; the message
  serializers only rely on it.
\<close>

section \<open>Reading\<close>

type_synonym 'a fetch = "bytes \<Rightarrow> ('a \<times> bytes) cres"

text \<open>\<open>memcpy\<close> of \<open>n\<close> bytes from the cursor, and the advance of the cursor.\<close>

definition fetch_bytes :: "nat \<Rightarrow> bytes fetch" where
  "fetch_bytes n p = (if length p < n then Inl Oob_read else Inr (take n p, drop n p))"

definition fetch_uint32 :: "u32 fetch" where
  "fetch_uint32 p = bind_c (fetch_bytes 4 p) (\<lambda>(b, p). Inr (of_be32 b, p))"

definition fetch_uint8 :: "u8 fetch" where
  "fetch_uint8 p = bind_c (fetch_bytes 1 p) (\<lambda>(b, p). Inr (hd b, p))"

text \<open>The cast to \<open>bool\<close> makes every non-zero byte true; an enumeration travels as 32 bits.\<close>

definition fetch_bool :: "bool fetch" where
  "fetch_bool p = bind_c (fetch_uint8 p) (\<lambda>(b, p). Inr (b \<noteq> 0, p))"

definition fetch_enum :: "u32 fetch" where
  "fetch_enum = fetch_uint32"

text \<open>\<open>UPK_FETCH_STRING\<close> and \<open>UPK_FETCH_ARRAY\<close> copy into the zeroed array \<open>char[UPK_MAX_STRING_LEN]\<close> of
  the message, with no test of the length.\<close>

definition fetch_string :: "u32 \<Rightarrow> bytes fetch" where
  "fetch_string len p =
     (if UPK_MAX_STRING_LEN < unat len then Inl Oob_write
      else bind_c (fetch_bytes (unat len) p)
        (\<lambda>(s, p). Inr (char_array UPK_MAX_STRING_LEN s, p)))"

definition fetch_array :: "u32 \<Rightarrow> bytes fetch" where
  "fetch_array len p = fetch_string len p"

text \<open>\<open>UPK_FETCH_DATA_TO_BUF\<close> copies into a buffer it allocates for the purpose.\<close>

definition fetch_data_to_buf :: "u32 \<Rightarrow> bytes fetch" where
  "fetch_data_to_buf len p = fetch_bytes (unat len) p"

section \<open>Writing\<close>

definition put_uint32 :: "u32 \<Rightarrow> bytes" where
  "put_uint32 w = be32 w"

definition put_uint8 :: "u8 \<Rightarrow> bytes" where
  "put_uint8 b = [b]"

definition put_bool :: "bool \<Rightarrow> bytes" where
  "put_bool b = put_uint8 (if b then 1 else 0)"

definition put_enum :: "u32 \<Rightarrow> bytes" where
  "put_enum w = put_uint32 w"

text \<open>\<open>UPK_PUT_STRING\<close> copies up to the terminator, whatever the length member says.\<close>

definition put_string :: "bytes \<Rightarrow> bytes" where
  "put_string s = take (strnlen s UPK_MAX_STRING_LEN) s"

text \<open>\<open>UPK_PUT_ARRAY\<close> and \<open>UPK_PUT_DATA_FROM_BUF\<close> copy the given number of bytes from the object.\<close>

definition put_array :: "bytes \<Rightarrow> u32 \<Rightarrow> bytes cres" where
  "put_array s len = (if length s < unat len then Inl Oob_read else Inr (take (unat len) s))"

definition put_data_from_buf :: "bytes \<Rightarrow> u32 \<Rightarrow> bytes cres" where
  "put_data_from_buf buf len = put_array buf len"

text \<open>\<open>UPK_INIT_SERIALIZE_BUF\<close> and the copies that follow it: a buffer of \<open>cap\<close> zero bytes, filled from
  its start.\<close>

fun put_all :: "nat \<Rightarrow> bytes \<Rightarrow> bytes cres list \<Rightarrow> bytes cres" where
  "put_all cap acc [] = Inr (acc @ replicate (cap - length acc) 0)"
| "put_all cap acc (Inl e # cs) = Inl e"
| "put_all cap acc (Inr c # cs) =
     (if cap < length acc + length c then Inl Oob_write else put_all cap (acc @ c) cs)"

definition serialize_buf :: "nat \<Rightarrow> bytes list \<Rightarrow> bytes cres" where
  "serialize_buf cap cs = put_all cap [] (map Inr cs)"

lemma put_all_iff:
  "put_all cap acc (map Inr cs) =
     (if cs \<noteq> [] \<and> cap < length acc + length (concat cs) then Inl Oob_write
      else Inr (acc @ concat cs @ replicate (cap - length acc - length (concat cs)) 0))"
proof (induction cs arbitrary: acc)
  case (Cons c cs)
  show ?case
  proof (cases "cs = []")
    case True
    then show ?thesis by simp
  next
    case False
    with Cons.IH [of "acc @ c"] show ?thesis by (simp add: add.assoc)
  qed
qed simp

lemma serialize_buf_iff:
  "serialize_buf cap cs =
     (if cap < length (concat cs) then Inl Oob_write
      else Inr (concat cs @ replicate (cap - length (concat cs)) 0))"
  by (cases "cs = []") (simp_all add: serialize_buf_def put_all_iff del: put_all.simps list.map)

text \<open>A copy that cannot fault is one more piece.\<close>

lemma put_all_serialize_buf:
  "put_all cap [] (map Inr cs @ Inr c # map Inr ds) = serialize_buf cap (cs @ c # ds)"
  by (simp add: serialize_buf_def)

section \<open>The contract of a field\<close>

locale wire_field =
  fixes put :: "'a \<Rightarrow> bytes"
    and fetch :: "'a fetch"
    and ok :: "'a \<Rightarrow> bool"
  assumes fetch_put: "ok x \<Longrightarrow> fetch (put x @ p) = Inr (x, p)"
begin

text \<open>The continuation of the serializers reads the field back and goes on behind it.\<close>

lemma bind_fetch: "ok x \<Longrightarrow> bind_c (fetch (put x @ p)) k = k (x, p)"
  by (simp add: fetch_put)

lemma fetch_put_end: "ok x \<Longrightarrow> fetch (put x) = Inr (x, [])"
  using fetch_put [of x "[]"] by simp

lemma bind_fetch_end: "ok x \<Longrightarrow> bind_c (fetch (put x)) k = k (x, [])"
  by (simp add: fetch_put_end)

text \<open>No encoding is a prefix of another one.\<close>

lemma put_prefix_free: "ok x \<Longrightarrow> ok y \<Longrightarrow> put x @ p = put y @ q \<Longrightarrow> x = y \<and> p = q"
  by (metis Pair_inject fetch_put old.sum.inject(2))

end

lemma fetch_bytes_append: "length s = n \<Longrightarrow> fetch_bytes n (s @ p) = Inr (s, p)"
  by (simp add: fetch_bytes_def)

interpretation w32: wire_field put_uint32 fetch_uint32 "\<lambda>_. True"
  by unfold_locales (simp add: put_uint32_def fetch_uint32_def fetch_bytes_append)

interpretation w8: wire_field put_uint8 fetch_uint8 "\<lambda>_. True"
  by unfold_locales (simp add: put_uint8_def fetch_uint8_def fetch_bytes_def)

interpretation wbool: wire_field put_bool fetch_bool "\<lambda>_. True"
  by unfold_locales (simp add: put_bool_def fetch_bool_def w8.fetch_put)

interpretation wenum: wire_field put_enum fetch_enum "\<lambda>_. True"
  by unfold_locales (simp add: put_enum_def fetch_enum_def w32.fetch_put)

section \<open>Strings\<close>

text \<open>An array member together with its length member: the array holds a string that ends where the
  length says, and zeros behind it.\<close>

definition is_string :: "bytes \<Rightarrow> u32 \<Rightarrow> bool" where
  "is_string s len \<longleftrightarrow>
     unat len \<le> UPK_MAX_STRING_LEN \<and>
     nul_free (take (unat len) s) \<and>
     s = char_array UPK_MAX_STRING_LEN (take (unat len) s)"

lemma unat_of_string_length: "n \<le> UPK_MAX_STRING_LEN \<Longrightarrow> unat (of_nat n :: u32) = n"
  by (rule of_nat_unat_u32) (rule UPK_MAX_STRING_LEN_word)

lemma is_string_char_array:
  "nul_free t \<Longrightarrow> length t \<le> UPK_MAX_STRING_LEN \<Longrightarrow>
     is_string (char_array UPK_MAX_STRING_LEN t) (of_nat (length t))"
  by (simp add: is_string_def unat_of_string_length)

lemma is_stringE:
  assumes "is_string s len"
  obtains t where "s = char_array UPK_MAX_STRING_LEN t" and "nul_free t"
    and "length t \<le> UPK_MAX_STRING_LEN" and "unat len = length t"
proof -
  let ?t = "take (unat len) s"
  have s: "s = char_array UPK_MAX_STRING_LEN ?t" and "nul_free ?t"
    and len: "unat len \<le> UPK_MAX_STRING_LEN"
    using assms by (auto simp: is_string_def)
  have le: "length ?t \<le> UPK_MAX_STRING_LEN"
    using len by (simp add: min_le_iff_disj)
  then have "length s = UPK_MAX_STRING_LEN"
    by (subst s) (rule length_char_array)
  then have "unat len = length ?t"
    using len by simp
  with s \<open>nul_free ?t\<close> le show ?thesis by (rule that)
qed

lemma is_string_length: "is_string s len \<Longrightarrow> length s = UPK_MAX_STRING_LEN"
  by (elim is_stringE) simp

lemma is_string_bound: "is_string s len \<Longrightarrow> unat len \<le> UPK_MAX_STRING_LEN"
  by (simp add: is_string_def)

lemma is_string_put_string:
  assumes "is_string s len"
  shows "put_string s = take (unat len) s"
  using assms
proof (rule is_stringE)
  fix t
  assume "s = char_array UPK_MAX_STRING_LEN t" "nul_free t" "length t \<le> UPK_MAX_STRING_LEN"
    and "unat len = length t"
  then show ?thesis by (simp add: put_string_def strnlen_char_array)
qed

lemma is_string_length_put: "is_string s len \<Longrightarrow> length (put_string s) = unat len"
  by (simp add: is_string_put_string is_string_length is_string_bound)

lemma fetch_put_string:
  assumes "is_string s len"
  shows "fetch_string len (put_string s @ p) = Inr (s, p)"
  using assms
proof (rule is_stringE)
  fix t
  assume "s = char_array UPK_MAX_STRING_LEN t" "nul_free t" "length t \<le> UPK_MAX_STRING_LEN"
    and "unat len = length t"
  then show ?thesis
    by (simp add: fetch_string_def fetch_bytes_append put_string_def strnlen_char_array)
qed

lemma fetch_put_string_end:
  "is_string s len \<Longrightarrow> fetch_string len (put_string s) = Inr (s, [])"
  using fetch_put_string [of s len "[]"] by simp

text \<open>The array form relies on the length member alone.\<close>

lemma put_array_string: "is_string s len \<Longrightarrow> put_array s len = Inr (put_string s)"
  using is_string_length [of s len] is_string_bound [of s len]
  by (simp add: put_array_def is_string_put_string)

lemma fetch_put_array: "is_string s len \<Longrightarrow> fetch_array len (put_string s @ p) = Inr (s, p)"
  by (simp add: fetch_array_def fetch_put_string)

interpretation wstring:
  wire_field "\<lambda>(s, len). put_uint32 len @ put_string s"
    "\<lambda>p. bind_c (fetch_uint32 p) (\<lambda>(len, p). bind_c (fetch_string len p) (\<lambda>(s, p). Inr ((s, len), p)))"
    "\<lambda>(s, len). is_string s len"
  by unfold_locales (auto simp: w32.fetch_put fetch_put_string)

lemma length_put [simp, wire_simps]:
  "length (put_uint32 w) = 4" "length (put_uint8 b) = 1" "length (put_bool t) = 1"
  "length (put_enum e) = 4"
  by (simp_all add: put_uint32_def put_uint8_def put_bool_def put_enum_def)

text \<open>An enumeration and a 32-bit integer have one encoding.\<close>

lemma fetch_enum_uint32: "fetch_enum (put_uint32 w @ p) = Inr (w, p)"
  by (simp add: fetch_enum_def w32.fetch_put)

lemmas fetch_laws =
  fetch_enum_uint32
  w32.fetch_put w32.fetch_put_end w8.fetch_put w8.fetch_put_end wbool.fetch_put wbool.fetch_put_end
  wenum.fetch_put wenum.fetch_put_end fetch_put_string fetch_put_string_end fetch_put_array

section \<open>Faults\<close>

lemma fetch_uint32_short: "length p < 4 \<Longrightarrow> fetch_uint32 p = Inl Oob_read"
  by (simp add: fetch_uint32_def fetch_bytes_def)

lemma fetch_string_overflow: "UPK_MAX_STRING_LEN < unat len \<Longrightarrow> fetch_string len p = Inl Oob_write"
  by (simp add: fetch_string_def)

text \<open>A read can only run past its buffer or overrun the array of the message.\<close>

abbreviation mem_faults :: "fault set" where
  "mem_faults \<equiv> {Oob_read, Oob_write}"

lemma fetch_faults:
  "faults_in mem_faults (fetch_bytes n p)" "faults_in mem_faults (fetch_uint32 p)"
  "faults_in mem_faults (fetch_uint8 p)" "faults_in mem_faults (fetch_bool p)"
  "faults_in mem_faults (fetch_enum p)" "faults_in mem_faults (fetch_string len p)"
  "faults_in mem_faults (fetch_array len p)" "faults_in mem_faults (fetch_data_to_buf len p)"
proof -
  show b: "faults_in mem_faults (fetch_bytes n p)" for n p
    by (simp add: fetch_bytes_def)
  show u: "faults_in mem_faults (fetch_uint32 p)" for p
    unfolding fetch_uint32_def by (intro faults_in_bind_pair b) simp
  show u8: "faults_in mem_faults (fetch_uint8 p)" for p
    unfolding fetch_uint8_def by (intro faults_in_bind_pair b) simp
  show "faults_in mem_faults (fetch_bool p)"
    unfolding fetch_bool_def by (intro faults_in_bind_pair u8) simp
  show "faults_in mem_faults (fetch_enum p)"
    unfolding fetch_enum_def by (rule u)
  show s: "faults_in mem_faults (fetch_string len p)" for p
    using b [of "unat len" p] by (auto simp: fetch_string_def intro!: faults_in_bind_pair)
  show "faults_in mem_faults (fetch_array len p)" "faults_in mem_faults (fetch_data_to_buf len p)"
    unfolding fetch_array_def fetch_data_to_buf_def by (rule s b)+
qed

end
