(* ===== verification/Upk_Files.thy ===== *)
theory Upk_Files
  imports Upk_Util Upk_Wire "HOL-Library.AList"
begin

text \<open>
  The file system the controller works on, and the two helpers of \<open>libupkeeper/upkeeper/upk_util.c\<close> that
  walk it, \<open>upk_rm_rf\<close> and \<open>upk_mkdir_p\<close>.  A file system is an association list from absolute paths,
  lists of names, to nodes; the root is always a directory and the working directory of the process.
  Names are resolved component by component, symbolic links included.  Permissions and exhausted
  resources are left out: a call fails only where the shape of the tree makes it fail.
\<close>

section \<open>The file system\<close>

datatype fnode = Dir | Regular string nat | Symlink string | Socket

type_synonym path = "string list"
type_synonym fs = "(path \<times> fnode) list"

definition node_at :: "fs \<Rightarrow> path \<Rightarrow> fnode option" where
  "node_at fs p = (if p = [] then Some Dir else map_of fs p)"

definition put_node :: "path \<Rightarrow> fnode \<Rightarrow> fs \<Rightarrow> fs" where
  "put_node p n fs = AList.update p n fs"

definition del_node :: "path \<Rightarrow> fs \<Rightarrow> fs" where
  "del_node p fs = AList.delete p fs"

lemma node_at_root [simp]: "node_at fs [] = Some Dir"
  by (simp add: node_at_def)

lemma node_at_put [simp]: "p \<noteq> [] \<Longrightarrow> node_at (put_node p n fs) = (node_at fs)(p \<mapsto> n)"
  by (rule ext) (simp add: node_at_def put_node_def update_conv')

lemma node_at_del [simp]: "p \<noteq> [] \<Longrightarrow> node_at (del_node p fs) = (node_at fs)(p := None)"
  by (rule ext) (simp add: node_at_def del_node_def delete_conv')

text \<open>The components of a name; empty ones stand for repeated, leading and trailing slashes.\<close>

fun split_slash :: "string \<Rightarrow> string list" where
  "split_slash [] = [[]]"
| "split_slash (c # s) =
     (if c = CHR ''/'' then [] # split_slash s
      else (c # hd (split_slash s)) # tl (split_slash s))"

definition absolute :: "string \<Rightarrow> bool" where
  "absolute s \<longleftrightarrow> take 1 s = ''/''"

text \<open>The walk of the kernel from directory \<open>p\<close>; the number bounds the links it goes through.\<close>

function walk :: "nat \<Rightarrow> fs \<Rightarrow> path \<Rightarrow> string list \<Rightarrow> path option" where
  "walk n fs p [] = Some p"
| "walk n fs p (w # ws) =
     (if w = '''' \<or> w = ''.'' then walk n fs p ws
      else if w = ''..'' then walk n fs (butlast p) ws
      else case node_at fs (p @ [w]) of
          Some (Symlink t) \<Rightarrow>
            (case n of 0 \<Rightarrow> None
             | Suc m \<Rightarrow> walk m fs (if absolute t then [] else p) (split_slash t @ ws))
        | _ \<Rightarrow> walk n fs (p @ [w]) ws)"
  by pat_completeness auto

termination
  by (relation "measures [\<lambda>(n, fs, p, ws). n, \<lambda>(n, fs, p, ws). length ws]") auto

definition MAXSYMLINKS :: nat where "MAXSYMLINKS = 40"

text \<open>The place a name stands for, a link in its last component followed or not.\<close>

definition namei :: "fs \<Rightarrow> string \<Rightarrow> path option" where
  "namei fs s = walk MAXSYMLINKS fs [] (split_slash s)"

definition lnamei :: "fs \<Rightarrow> string \<Rightarrow> path option" where
  "lnamei fs s =
     (let ws = filter (\<lambda>w. w \<noteq> '''') (split_slash s) in
      if ws = [] then Some []
      else map_option (\<lambda>p. p @ [last ws]) (walk MAXSYMLINKS fs [] (butlast ws)))"

section \<open>System calls\<close>

definition stat_file :: "fs \<Rightarrow> string \<Rightarrow> fnode option" where
  "stat_file fs s = Option.bind (namei fs s) (node_at fs)"

definition can_create :: "fs \<Rightarrow> path \<Rightarrow> bool" where
  "can_create fs p \<longleftrightarrow> p \<noteq> [] \<and> node_at fs p = None \<and> node_at fs (butlast p) = Some Dir"

definition make_node :: "fnode \<Rightarrow> string \<Rightarrow> fs \<Rightarrow> bool \<times> fs" where
  "make_node n s fs =
     (case lnamei fs s of None \<Rightarrow> (False, fs)
      | Some p \<Rightarrow> if can_create fs p then (True, put_node p n fs) else (False, fs))"

definition mkdir :: "string \<Rightarrow> fs \<Rightarrow> bool \<times> fs" where
  "mkdir s = make_node Dir s"

definition symlink :: "string \<Rightarrow> string \<Rightarrow> fs \<Rightarrow> bool \<times> fs" where
  "symlink target s = make_node (Symlink target) s"

definition unlink :: "string \<Rightarrow> fs \<Rightarrow> bool \<times> fs" where
  "unlink s fs =
     (case lnamei fs s of None \<Rightarrow> (False, fs)
      | Some p \<Rightarrow> if node_at fs p \<notin> {None, Some Dir} then (True, del_node p fs) else (False, fs))"

definition children :: "fs \<Rightarrow> path \<Rightarrow> string list" where
  "children fs p = map last (filter (\<lambda>q. q \<noteq> [] \<and> butlast q = p) (map fst fs))"

definition rmdir :: "string \<Rightarrow> fs \<Rightarrow> bool \<times> fs" where
  "rmdir s fs =
     (case lnamei fs s of None \<Rightarrow> (False, fs)
      | Some p \<Rightarrow> if p \<noteq> [] \<and> node_at fs p = Some Dir \<and> children fs p = [] then (True, del_node p fs)
          else (False, fs))"

text \<open>The names \<open>readdir\<close> returns after \<open>opendir\<close>, without the two entries for the directory itself and
  its parent.\<close>

definition opendir :: "fs \<Rightarrow> string \<Rightarrow> string list option" where
  "opendir fs s =
     (case namei fs s of None \<Rightarrow> None
      | Some p \<Rightarrow> if node_at fs p = Some Dir then Some (children fs p) else None)"

text \<open>\<open>fopen\<close> for writing, \<open>fchmod\<close>, \<open>fprintf\<close> of a whole text and \<open>fclose\<close>.  \<open>None\<close> is the null
  pointer of \<open>fopen\<close>.\<close>

definition write_file :: "string \<Rightarrow> nat \<Rightarrow> string \<Rightarrow> fs \<Rightarrow> fs option" where
  "write_file s mode text fs =
     (case namei fs s of None \<Rightarrow> None
      | Some p \<Rightarrow>
          (case node_at fs p of
             None \<Rightarrow> if can_create fs p then Some (put_node p (Regular text mode) fs) else None
           | Some (Regular _ _) \<Rightarrow> Some (put_node p (Regular text mode) fs)
           | Some _ \<Rightarrow> None))"

section \<open>Removing a tree\<close>

text \<open>A string in an array of \<open>UPK_MAX_PATH_LEN\<close> characters.\<close>

definition path_buf :: "string \<Rightarrow> string cres" where
  "path_buf s = (if length s < UPK_MAX_PATH_LEN then Inr s else Inl Oob_write)"

text \<open>\<open>upk_rm_rf\<close> and its loop over the entries.  The result of \<open>stat\<close> is not looked at, so an entry it
  fails for counts as a directory if the entry before it was one; \<open>junk\<close> is what the uninitialised
  structure says before the first call.\<close>

function upk_rm_rf :: "bool \<Rightarrow> string \<Rightarrow> fs \<Rightarrow> (nat \<times> fs) cres"
  and rm_entries :: "bool \<Rightarrow> string \<Rightarrow> string list \<Rightarrow> bool \<Rightarrow> fs \<Rightarrow> (nat \<times> fs) cres" where
  "upk_rm_rf junk start_path fs =
     (if start_path = [] then Inr (0, fs)
      else if UPK_MAX_PATH_LEN \<le> length start_path + 1 then Inl Oob_write
      else case opendir fs (start_path @ ''/'') of None \<Rightarrow> Inr (0, fs)
        | Some names \<Rightarrow>
            bind_c (rm_entries junk start_path names junk fs) (\<lambda>(count, fs).
            let (ok, fs) = rmdir start_path fs in
            Inr (count + (if ok then 1 else 0), fs)))"
| "rm_entries junk start_path [] is_dir fs = Inr (0, fs)"
| "rm_entries junk start_path (name # names) is_dir fs =
     (if UPK_MAX_PATH_LEN \<le> length (start_path @ ''/'' @ name) then Inl Oob_write
      else
        let fpath = start_path @ ''/'' @ name;
            is_dir = (case stat_file fs fpath of None \<Rightarrow> is_dir | Some n \<Rightarrow> n = Dir) in
        bind_c (if is_dir then upk_rm_rf junk fpath fs
                else (let (ok, fs) = unlink fpath fs in Inr (if ok then 1 else 0, fs))) (\<lambda>(c, fs).
        bind_c (rm_entries junk start_path names is_dir fs) (\<lambda>(count, fs). Inr (c + count, fs))))"
  by pat_completeness auto

termination
  by (relation "measures [\<lambda>x. case x of Inl (junk, s, fs) \<Rightarrow> UPK_MAX_PATH_LEN - length s
        | Inr (junk, s, ns, d, fs) \<Rightarrow> UPK_MAX_PATH_LEN - length s,
      \<lambda>x. case x of Inl _ \<Rightarrow> 1 | Inr _ \<Rightarrow> 0,
      \<lambda>x. case x of Inl _ \<Rightarrow> 0 | Inr (junk, s, ns, d, fs) \<Rightarrow> length ns]")
     auto

section \<open>Making a path\<close>

text \<open>\<open>dirname\<close> of the GNU library, which cuts the string it is given, or answers with a constant: what is
  before the last component, without trailing slashes; nothing but slashes becomes one slash, and exactly
  two stay two.\<close>

definition strip_slashes :: "string \<Rightarrow> string" where
  "strip_slashes s = rev (dropWhile (\<lambda>c. c = CHR ''/'') (rev s))"

definition dirname :: "string \<Rightarrow> string" where
  "dirname s =
     (let t = strip_slashes s; d = (if t = '''' then s else rev (dropWhile (\<lambda>c. c \<noteq> CHR ''/'') (rev t))) in
      if d = '''' then ''.''
      else if strip_slashes d = '''' then if d = ''//'' then ''//'' else ''/''
      else strip_slashes d)"

text \<open>The loop that collects the parents in front of the list; \<open>None\<close> is a loop that needs more turns.\<close>

fun parents :: "nat \<Rightarrow> string \<Rightarrow> string list \<Rightarrow> string list option" where
  "parents 0 buf acc = None"
| "parents (Suc n) buf acc =
     (let d = dirname buf in
      if d = ''/'' \<or> d = '''' then Some acc
      else parents n (if d = ''.'' then buf else d) (d # acc))"

definition make_dir :: "nat \<times> fs \<Rightarrow> string \<Rightarrow> nat \<times> fs" where
  "make_dir cf s =
     (let (count, fs) = cf in
      if stat_file fs s \<noteq> None then (count, fs)
      else let (ok, fs) = mkdir s fs in (if ok then count + 1 else count, fs))"

definition upk_mkdir_p :: "nat \<Rightarrow> string \<Rightarrow> fs \<Rightarrow> (nat \<times> fs) option" where
  "upk_mkdir_p fuel s fs =
     (let buf = take (UPK_MAX_STRING_LEN - 1) s in
      map_option (foldl make_dir (0, fs)) (parents fuel buf [buf]))"

section \<open>Parents\<close>

lemma rev_dropWhile_prefix: "\<exists>t. s = rev (dropWhile P (rev s)) @ t"
  by (rule exI [of _ "rev (takeWhile P (rev s))"])
    (simp only: rev_append [symmetric] takeWhile_dropWhile_id rev_rev_ident)

lemma length_strip: "length (strip_slashes s) \<le> length s"
  using length_dropWhile_le [of "\<lambda>c. c = CHR ''/''" "rev s"] by (simp add: strip_slashes_def)

lemma strip_slashes_prefix: "\<exists>t. s = strip_slashes s @ t"
  unfolding strip_slashes_def by (rule rev_dropWhile_prefix)

lemma last_strip_slashes: "strip_slashes s \<noteq> '''' \<Longrightarrow> last (strip_slashes s) \<noteq> CHR ''/''"
  using hd_dropWhile [of "\<lambda>c. c = CHR ''/''" "rev s"] by (simp add: strip_slashes_def last_rev)

lemma strip_slashes_Nil: "strip_slashes s = '''' \<longleftrightarrow> (\<forall>c\<in>set s. c = CHR ''/'')"
  by (simp add: strip_slashes_def dropWhile_eq_Nil_conv)

lemma absolute_Cons: "absolute s \<longleftrightarrow> (\<exists>t. s = CHR ''/'' # t)"
  by (cases s) (auto simp: absolute_def)

text \<open>The part of a string before its last component, and the number of slashes it starts with.\<close>

definition stem :: "string \<Rightarrow> string" where
  "stem s = rev (dropWhile (\<lambda>c. c \<noteq> CHR ''/'') (rev (strip_slashes s)))"

definition leading_slashes :: "string \<Rightarrow> nat" where
  "leading_slashes s = length (takeWhile (\<lambda>c. c = CHR ''/'') s)"

lemma leading_prefix: "\<exists>c\<in>set p. c \<noteq> CHR ''/'' \<Longrightarrow> leading_slashes (p @ t) = leading_slashes p"
  by (auto simp: leading_slashes_def takeWhile_append1)

lemma leading_all: "strip_slashes s = '''' \<Longrightarrow> leading_slashes s = length s"
  by (simp add: strip_slashes_Nil leading_slashes_def takeWhile_eq_all_conv [THEN iffD2])

lemma leading_strip:
  assumes "strip_slashes s \<noteq> ''''"
  shows "leading_slashes (strip_slashes s) = leading_slashes s"
proof -
  obtain t where "s = strip_slashes s @ t" using strip_slashes_prefix by blast
  moreover have "last (strip_slashes s) \<in> set (strip_slashes s)" using assms by simp
  ultimately show ?thesis using leading_prefix [of "strip_slashes s" t] last_strip_slashes [OF assms] by metis
qed

text \<open>The last component is not empty and does not start with a slash.\<close>

lemma stem_split:
  assumes "strip_slashes s \<noteq> ''''"
  obtains c w where "strip_slashes s = stem s @ c # w" and "c \<noteq> CHR ''/''"
proof -
  let ?w = "rev (takeWhile (\<lambda>c. c \<noteq> CHR ''/'') (rev (strip_slashes s)))"
  have split: "strip_slashes s = stem s @ ?w"
    unfolding stem_def by (simp only: rev_append [symmetric] takeWhile_dropWhile_id rev_rev_ident)
  have "?w \<noteq> ''''"
    using assms last_strip_slashes [OF assms] by (cases "strip_slashes s" rule: rev_cases) auto
  then obtain c w where cw: "?w = c # w" by (cases ?w) auto
  then have "c \<in> set ?w" by simp
  then have "c \<noteq> CHR ''/''" by (auto dest: set_takeWhileD)
  with split cw show ?thesis by (intro that) auto
qed

lemma stem_shorter:
  assumes "strip_slashes s \<noteq> ''''"
  shows "length (stem s) < length s"
proof -
  obtain c w where "strip_slashes s = stem s @ c # w" using assms by (rule stem_split)
  then have "length (stem s) < length (strip_slashes s)" by simp
  with length_strip [of s] show ?thesis by simp
qed

text \<open>What \<open>dirname\<close> makes of a string with a slash in front: a shorter one with as many slashes in front,
  or the slashes.\<close>

lemma dirname_stem: "dirname s =
    (let d = if strip_slashes s = '''' then s else stem s in
     if d = '''' then ''.'' else if strip_slashes d = '''' then if d = ''//'' then ''//'' else ''/'' else strip_slashes d)"
  by (simp only: dirname_def stem_def Let_def)

lemma leading_nonempty: "leading_slashes s \<noteq> 0 \<Longrightarrow> s \<noteq> ''''"
  by (auto simp: leading_slashes_def)

lemma slashes_eq:
  assumes "\<forall>c\<in>set d. c = CHR ''/''"
  shows "d = ''//'' \<longleftrightarrow> length d = 2"
proof -
  have d: "replicate (length d) (CHR ''/'') = d" using assms by (intro replicate_length_same) blast
  show ?thesis
  proof
    assume "length d = 2"
    with d have "d = replicate 2 (CHR ''/'')" by simp
    then show "d = ''//''" by (simp add: numeral_2_eq_2)
  qed simp
qed

lemma dirname_leading:
  assumes "leading_slashes s \<noteq> 0"
  obtains "dirname s = (if leading_slashes s = 2 then ''//'' else ''/'')"
  | "leading_slashes (dirname s) = leading_slashes s" "length (dirname s) < length s"
      "\<exists>c\<in>set (dirname s). c \<noteq> CHR ''/''"
proof (cases "strip_slashes s = ''''")
  case True
  then have "dirname s = (if leading_slashes s = 2 then ''//'' else ''/'')"
    using leading_nonempty [OF assms] slashes_eq [of s] leading_all [OF True]
    by (simp add: dirname_stem strip_slashes_Nil)
  then show ?thesis by (rule that(1))
next
  case False
  then obtain c w where split: "strip_slashes s = stem s @ c # w" "c \<noteq> CHR ''/''" by (rule stem_split)
  show ?thesis
  proof (cases "strip_slashes (stem s) = ''''")
    case True
    then have "takeWhile (\<lambda>c. c = CHR ''/'') (stem s @ c # w) = stem s"
      using split(2) by (simp add: strip_slashes_Nil takeWhile_append2)
    then have len: "leading_slashes s = length (stem s)"
      using leading_strip [OF False] split(1) by (simp add: leading_slashes_def)
    with assms True have "stem s \<noteq> ''''" "stem s = ''//'' \<longleftrightarrow> leading_slashes s = 2"
      using slashes_eq [of "stem s"] by (auto simp: strip_slashes_Nil)
    then have "dirname s = (if leading_slashes s = 2 then ''//'' else ''/'')"
      unfolding dirname_stem Let_def using False True by simp
    then show ?thesis by (rule that(1))
  next
    case inner: False
    then have stem: "\<exists>c\<in>set (stem s). c \<noteq> CHR ''/''" by (simp add: strip_slashes_Nil)
    then have "stem s \<noteq> ''''" by auto
    then have d: "dirname s = strip_slashes (stem s)" using False inner by (simp add: dirname_stem)
    have "leading_slashes (strip_slashes (stem s)) = leading_slashes s"
      using leading_strip [OF False] leading_strip [OF inner] leading_prefix [OF stem] split(1) by simp
    moreover have "length (strip_slashes (stem s)) < length s"
      using stem_shorter [OF False] length_strip [of "stem s"] by simp
    moreover have "\<exists>c\<in>set (strip_slashes (stem s)). c \<noteq> CHR ''/''"
      using last_strip_slashes [OF inner] last_in_set [OF inner] by blast
    ultimately show ?thesis by (intro that(2)) (simp_all add: d)
  qed
qed

lemma parents_end:
  "leading_slashes buf \<notin> {0, 2} \<Longrightarrow> length buf < n \<Longrightarrow> parents n buf acc \<noteq> None"
proof (induction n arbitrary: buf acc)
  case (Suc n)
  then have "leading_slashes buf \<noteq> 0" by simp
  then show ?case
  proof (cases rule: dirname_leading)
    case 1
    with Suc.prems show ?thesis by simp
  next
    case 2
    with Suc.prems have "leading_slashes (dirname buf) \<notin> {0, 2}" "length (dirname buf) < n" by simp_all
    moreover from this have "dirname buf \<noteq> ''.''" by (auto simp: leading_slashes_def)
    ultimately show ?thesis using Suc.IH by (simp add: Let_def)
  qed
qed simp

lemma dirname_two: "leading_slashes s = 2 \<Longrightarrow> leading_slashes (dirname s) = 2"
  by (rule dirname_leading [of s]) (simp_all add: leading_slashes_def)

lemma dirname_relative:
  assumes "leading_slashes s = 0"
  shows "leading_slashes (dirname s) = 0 \<and> dirname s \<noteq> ''''"
proof (cases "s = ''''")
  case False
  then have strip: "strip_slashes s \<noteq> ''''" using assms leading_all [of s] by auto
  then obtain c w where split: "strip_slashes s = stem s @ c # w" by (rule stem_split)
  show ?thesis
  proof (cases "stem s = ''''")
    case False
    have "leading_slashes (stem s @ c # w) = 0" using leading_strip [OF strip] split assms by simp
    then have "hd (stem s) \<noteq> CHR ''/''" using False by (cases "stem s") (auto simp: leading_slashes_def)
    then have zero: "leading_slashes (stem s) = 0" "strip_slashes (stem s) \<noteq> ''''"
      using False by (cases "stem s"; simp add: leading_slashes_def strip_slashes_Nil)+
    then show ?thesis using False strip leading_strip [OF zero(2)] by (simp add: dirname_stem)
  qed (simp add: dirname_stem strip leading_slashes_def)
qed (simp add: dirname_stem strip_slashes_def leading_slashes_def)

lemma parents_forever: "leading_slashes buf \<in> {0, 2} \<Longrightarrow> parents n buf acc = None"
proof (induction n arbitrary: buf acc)
  case (Suc n)
  have d: "leading_slashes (dirname buf) \<in> {0, 2} \<and> dirname buf \<noteq> ''''"
    using Suc.prems dirname_relative [of buf] dirname_two [of buf] leading_nonempty [of "dirname buf"] by auto
  then have "dirname buf \<noteq> ''/''" by (auto simp: leading_slashes_def)
  with d show ?case using Suc by (simp add: Let_def)
qed simp

lemma leading_take: "leading_slashes (take (UPK_MAX_STRING_LEN - 1) s) \<in> {0, 2} \<longleftrightarrow> leading_slashes s \<in> {0, 2}"
proof -
  have "leading_slashes (take n s) = min n (leading_slashes s)" for n
    by (induction s arbitrary: n) (auto simp: leading_slashes_def take_Cons' min_def)
  then show ?thesis by (auto simp: UPK_MAX_STRING_LEN_def min_def)
qed

text \<open>C30: \<open>upk_mkdir_p\<close> returns exactly for the paths that start with one slash, or with three and more.  For
  a relative path \<open>dirname\<close> ends in the current directory, and for one that starts with two slashes in
  these two; the loop stops at neither, and the list of parents grows for ever.\<close>

theorem mkdir_p_returns: "(\<exists>fuel. upk_mkdir_p fuel s fs \<noteq> None) \<longleftrightarrow> leading_slashes s \<notin> {0, 2}"
proof -
  let ?buf = "take (UPK_MAX_STRING_LEN - 1) s"
  have "upk_mkdir_p fuel s fs \<noteq> None \<longleftrightarrow> parents fuel ?buf [?buf] \<noteq> None" for fuel
    by (simp add: upk_mkdir_p_def Let_def)
  then show ?thesis
    using parents_end [of ?buf "Suc (length ?buf)" "[?buf]"] parents_forever [of ?buf] leading_take [of s]
    by (metis lessI)
qed

section \<open>Resolving plain names\<close>

text \<open>A string stands for the path \<open>p\<close> component by component, and every directory on a path is one.\<close>

definition plain :: "string \<Rightarrow> bool" where
  "plain w \<longleftrightarrow> w \<noteq> '''' \<and> w \<noteq> ''.'' \<and> w \<noteq> ''..'' \<and> CHR ''/'' \<notin> set w"

definition spells :: "string \<Rightarrow> path \<Rightarrow> bool" where
  "spells s p \<longleftrightarrow> filter (\<lambda>w. w \<noteq> '''') (split_slash s) = p \<and> (\<forall>w\<in>set p. w \<noteq> ''.'' \<and> w \<noteq> ''..'')"

definition real_dirs :: "fs \<Rightarrow> path \<Rightarrow> bool" where
  "real_dirs fs p \<longleftrightarrow> (\<forall>k\<le>length p. node_at fs (take k p) = Some Dir)"

definition is_link :: "fs \<Rightarrow> path \<Rightarrow> bool" where
  "is_link fs p \<longleftrightarrow> (\<exists>t. node_at fs p = Some (Symlink t))"

lemma split_slash_nonempty: "split_slash s \<noteq> []"
  by (cases s) auto

lemma split_slash_slash: "split_slash (a @ CHR ''/'' # b) = split_slash a @ split_slash b"
  using split_slash_nonempty by (induction a) auto

lemma split_slash_plain: "CHR ''/'' \<notin> set w \<Longrightarrow> split_slash w = [w]"
  by (induction w) auto

lemma spells_slash: "spells (a @ CHR ''/'' # b) (p @ q) \<longleftrightarrow>
    filter (\<lambda>w. w \<noteq> '''') (split_slash a) @ filter (\<lambda>w. w \<noteq> '''') (split_slash b) = p @ q \<and>
    (\<forall>w\<in>set (p @ q). w \<noteq> ''.'' \<and> w \<noteq> ''..'')"
  by (simp add: spells_def split_slash_slash)

lemma spells_snoc: "spells s p \<Longrightarrow> plain w \<Longrightarrow> spells (s @ CHR ''/'' # w) (p @ [w])"
  by (simp add: spells_def plain_def split_slash_slash split_slash_plain)

lemma spells_slash_end: "spells s p \<Longrightarrow> spells (s @ ''/'') p"
  by (simp add: spells_def split_slash_slash)

text \<open>A walk over directories, empty components included, and one that ends in a link.\<close>

lemma walk_dirs:
  assumes "filter (\<lambda>w. w \<noteq> '''') ws = q" and "\<forall>w\<in>set q. w \<noteq> ''.'' \<and> w \<noteq> ''..''"
    and "\<forall>k<length q. \<not> is_link fs (p @ take (Suc k) q)"
  shows "walk n fs p ws = Some (p @ q)"
  using assms
proof (induction ws arbitrary: p q)
  case (Cons w ws)
  show ?case
  proof (cases "w = ''''")
    case False
    then obtain q' where q: "q = w # q'" "filter (\<lambda>w. w \<noteq> '''') ws = q'"
      using Cons.prems(1) by auto
    have "\<not> is_link fs (p @ [w])" using Cons.prems(3) q by (auto dest: spec [of _ 0])
    moreover have "\<forall>k<length q'. \<not> is_link fs ((p @ [w]) @ take (Suc k) q')"
      using Cons.prems(3) q by (auto dest: spec [of _ "Suc _"])
    ultimately show ?thesis
      using Cons.IH [OF q(2), of "p @ [w]"] Cons.prems(2) q False
      by (auto simp: is_link_def split: option.splits fnode.splits)
  qed (use Cons in simp)
qed simp

lemma walk_link:
  assumes "filter (\<lambda>w. w \<noteq> '''') ws = q @ [x]" and "\<forall>w\<in>set (q @ [x]). w \<noteq> ''.'' \<and> w \<noteq> ''..''"
    and "\<forall>k<length q. \<not> is_link fs (p @ take (Suc k) q)"
    and "node_at fs (p @ q @ [x]) = Some (Symlink t)" and "absolute t"
  shows "\<exists>es. filter (\<lambda>w. w \<noteq> '''') es = [] \<and> walk (Suc n) fs p ws = walk n fs [] (split_slash t @ es)"
  using assms
proof (induction ws arbitrary: p q)
  case (Cons w ws)
  consider "w = ''''" | "w \<noteq> ''''" "q = []" | q' where "w \<noteq> ''''" "q = w # q'"
    using Cons.prems(1) by (cases q; cases "w = ''''") auto
  then show ?case
  proof cases
    case 1
    then show ?thesis using Cons by simp
  next
    case 2
    then show ?thesis using Cons.prems by (intro exI [of _ ws]) simp
  next
    case 3
    have "\<not> is_link fs (p @ [w])" using Cons.prems(3) 3 by (auto dest: spec [of _ 0])
    then have "walk (Suc n) fs p (w # ws) = walk (Suc n) fs (p @ [w]) ws"
      using Cons.prems(2) 3 by (auto simp: is_link_def split: option.splits fnode.splits)
    moreover have "\<forall>k<length q'. \<not> is_link fs ((p @ [w]) @ take (Suc k) q')"
      using Cons.prems(3) 3 by (auto dest: spec [of _ "Suc _"])
    ultimately show ?thesis
      using Cons.IH [of q' "p @ [w]"] Cons.prems 3 by simp
  qed
qed simp

lemma real_dirs_not_link: "real_dirs fs p \<Longrightarrow> k \<le> length p \<Longrightarrow> \<not> is_link fs (take k p)"
  by (simp add: real_dirs_def is_link_def)

lemma real_dirs_node: "real_dirs fs p \<Longrightarrow> node_at fs p = Some Dir"
  by (auto simp: real_dirs_def dest: spec [of _ "length p"])

lemma real_dirs_snoc: "real_dirs fs (p @ [x]) \<longleftrightarrow> real_dirs fs p \<and> node_at fs (p @ [x]) = Some Dir"
  by (auto simp: real_dirs_def le_Suc_eq all_conj_distrib)

lemma spells_plain: "spells s p \<Longrightarrow> w \<in> set p \<Longrightarrow> w \<noteq> '''' \<and> w \<noteq> ''.'' \<and> w \<noteq> ''..''"
  by (auto simp: spells_def)

lemma real_dirs_links: "real_dirs fs p \<Longrightarrow> \<forall>k<length p. \<not> is_link fs ([] @ take (Suc k) p)"
  using real_dirs_not_link by (simp add: Suc_le_eq)

lemma path_not_link:
  assumes "real_dirs fs p" and "\<not> is_link fs (p @ [x])"
  shows "\<forall>k<length (p @ [x]). \<not> is_link fs ([] @ take (Suc k) (p @ [x]))"
proof (intro allI impI)
  fix k assume "k < length (p @ [x])"
  then show "\<not> is_link fs ([] @ take (Suc k) (p @ [x]))"
    using assms(2) real_dirs_not_link [OF assms(1), of "Suc k"]
    by (cases "k = length p") (auto simp: Suc_le_eq)
qed

text \<open>The last component, which is no link, and one that is.\<close>

lemma namei_last:
  assumes "spells s (p @ [x])" and "real_dirs fs p" and "\<not> is_link fs (p @ [x])"
  shows "namei fs s = Some (p @ [x])"
  using walk_dirs [of "split_slash s" "p @ [x]" fs "[]", OF _ _ path_not_link [OF assms(2,3)]] assms(1)
  by (simp add: namei_def spells_def)

lemma namei_dir: "spells s p \<Longrightarrow> real_dirs fs p \<Longrightarrow> namei fs s = Some p"
  using walk_dirs [of "split_slash s" p fs "[]"] real_dirs_links [of fs p]
  by (simp add: namei_def spells_def)

lemma namei_link:
  assumes "spells s (p @ [x])" and "real_dirs fs p" and "node_at fs (p @ [x]) = Some (Symlink t)"
    and "absolute t" and "spells t (q @ [y])" and "real_dirs fs q" and "\<not> is_link fs (q @ [y])"
  shows "namei fs s = Some (q @ [y])"
proof -
  obtain es where es: "filter (\<lambda>w. w \<noteq> '''') es = []"
    "namei fs s = walk 39 fs [] (split_slash t @ es)"
    using walk_link [of "split_slash s" p x fs "[]" t 39] assms(1,3,4) real_dirs_links [OF assms(2)]
    by (auto simp: namei_def spells_def MAXSYMLINKS_def)
  have "walk 39 fs [] (split_slash t @ es) = Some ([] @ (q @ [y]))"
    using assms(5) es(1) path_not_link [OF assms(6,7)]
    by (intro walk_dirs) (auto simp: spells_def)
  with es(2) show ?thesis by simp
qed

lemma lnamei_last:
  assumes "spells s (p @ [x])" and "real_dirs fs p"
  shows "lnamei fs s = Some (p @ [x])"
proof -
  have f: "filter (\<lambda>w. w \<noteq> '''') (split_slash s) = p @ [x]" using assms(1) by (simp add: spells_def)
  have "\<forall>w\<in>set (p @ [x]). w \<noteq> ''''" unfolding f [symmetric] by simp
  then have "filter (\<lambda>w. w \<noteq> '''') p = p" by (intro filter_True) simp
  then have "walk MAXSYMLINKS fs [] p = Some ([] @ p)"
    using assms(1) real_dirs_links [OF assms(2)]
    by (intro walk_dirs) (auto simp: spells_def)
  with f show ?thesis by (simp add: lnamei_def)
qed

end

