(* ===== verification/Upk_Uuid.thy ===== *)
theory Upk_Uuid
  imports Upk_Util
begin

text \<open>
  \<open>libupkeeper/upkeeper/uuid.c\<close> and \<open>upk_uuid.h\<close>: random identifiers of version 4, their text form, its
  validation and parsing.  The random device and \<open>rand\<close> are parameters: the outcomes of the calls of
  \<open>read\<close>, and the numbers \<open>rand\<close> returns.
\<close>

record upk_uuid =
  uu_time_low :: u32
  uu_time_mid :: u16
  uu_time_high_and_version :: u16
  uu_clk_seq_high :: u8
  uu_clk_seq_low :: u8
  uu_node :: "u8 list"

definition zero_uuid :: upk_uuid where
  "zero_uuid =
     \<lparr>uu_time_low = 0, uu_time_mid = 0, uu_time_high_and_version = 0, uu_clk_seq_high = 0,
      uu_clk_seq_low = 0, uu_node = replicate 6 0\<rparr>"

definition UPK_UUID_LEN :: nat where "UPK_UUID_LEN = 16"
definition UPK_UUID_STRING_LEN :: nat where "UPK_UUID_STRING_LEN = 36"

section \<open>Generation\<close>

text \<open>The structure over sixteen raw bytes of a little-endian host.\<close>

definition le16 :: "u8 \<Rightarrow> u8 \<Rightarrow> u16" where
  "le16 a b = ucast a OR push_bit 8 (ucast b)"

definition le32_word :: "u8 \<Rightarrow> u8 \<Rightarrow> u8 \<Rightarrow> u8 \<Rightarrow> u32" where
  "le32_word a b c d =
     ucast a OR push_bit 8 (ucast b) OR push_bit 16 (ucast c) OR push_bit 24 (ucast d)"

definition uuid_of_bytes :: "bytes \<Rightarrow> upk_uuid" where
  "uuid_of_bytes b =
     \<lparr>uu_time_low = le32_word (b ! 0) (b ! 1) (b ! 2) (b ! 3),
      uu_time_mid = le16 (b ! 4) (b ! 5), uu_time_high_and_version = le16 (b ! 6) (b ! 7),
      uu_clk_seq_high = b ! 8, uu_clk_seq_low = b ! 9, uu_node = take 6 (drop 10 b)\<rparr>"

text \<open>One \<open>read\<close> of the device: what it returns, whether \<open>errno\<close> is then \<open>EAGAIN\<close> or \<open>EINTR\<close>, and the
  bytes of the buffer.  The comparison with \<open>UPK_UUID_LEN\<close> is unsigned, so a negative result ends the
  loop.  The loop runs over the given outcomes; \<open>None\<close> stands for a loop that is still running.\<close>

type_synonym random_read = "int \<times> bool \<times> bytes"

fun read_random :: "random_read list \<Rightarrow> (int \<times> bytes) option" where
  "read_random [] = None"
| "read_random ((n, again, buf) # rs) =
     (if 0 \<le> n \<and> n < int UPK_UUID_LEN \<and> again then read_random rs else Some (n, buf))"

definition le_bytes :: "u32 \<Rightarrow> bytes" where
  "le_bytes w = [ucast w, ucast (drop_bit 8 w), ucast (drop_bit 16 w), ucast (drop_bit 24 w)]"

text \<open>Without sixteen bytes from the device, four calls of \<open>rand\<close> fill the buffer.\<close>

definition upk_gen_uuid_bytes ::
    "bool \<Rightarrow> random_read list \<Rightarrow> (nat \<Rightarrow> u32) \<Rightarrow> upk_uuid option" where
  "upk_gen_uuid_bytes opened reads rand =
     (case (if opened then read_random reads else Some (0, replicate UPK_UUID_LEN 0)) of
        None \<Rightarrow> None
      | Some (n, buf) \<Rightarrow>
          let buf = (if n = int UPK_UUID_LEN then buf else concat (map (le_bytes \<circ> rand) [0..<4]));
              u = uuid_of_bytes buf in
          Some (u\<lparr>uu_time_high_and_version := (uu_time_high_and_version u AND 0x0FFF) OR 0x4000,
                  uu_clk_seq_high := (uu_clk_seq_high u AND 0xBF) OR 0x80\<rparr>))"

section \<open>Text form\<close>

definition upk_uuid_to_string :: "upk_uuid \<Rightarrow> string" where
  "upk_uuid_to_string u =
     fixed_digits 16 8 (unat (uu_time_low u)) @ ''-'' @
     fixed_digits 16 4 (unat (uu_time_mid u)) @ ''-'' @
     fixed_digits 16 4 (unat (uu_time_high_and_version u)) @ ''-'' @
     fixed_digits 16 2 (unat (uu_clk_seq_high u)) @ fixed_digits 16 2 (unat (uu_clk_seq_low u)) @
     ''-'' @ concat (map (\<lambda>b. fixed_digits 16 2 (unat b)) (uu_node u))"

text \<open>The loop over the characters; the end of the list is the terminator, which is no digit.\<close>

fun valid_from :: "nat \<Rightarrow> string \<Rightarrow> bool" where
  "valid_from i [] = (36 \<le> i)"
| "valid_from i (c # p) =
     (if 36 \<le> i then False
      else if i = 8 \<or> i = 13 \<or> i = 18 \<or> i = 23 then c = CHR ''-'' \<and> valid_from (i + 1) p
      else is_digit 16 c \<and> valid_from (i + 1) p)"

definition is_valid_upk_uuid_string :: "string \<Rightarrow> bool" where
  "is_valid_upk_uuid_string s = valid_from 0 s"

definition hex_at :: "string \<Rightarrow> nat" where
  "hex_at s = fst (strtoul 16 s)"

text \<open>The first three fields are parsed in place, up to the hyphen, the others from a two-character
  buffer.  An invalid string leaves the structure as it was.\<close>

definition upk_string_to_uuid :: "upk_uuid \<Rightarrow> string \<Rightarrow> upk_uuid" where
  "upk_string_to_uuid uuid s =
     (if \<not> is_valid_upk_uuid_string s then uuid
      else \<lparr>uu_time_low = of_nat (hex_at s), uu_time_mid = of_nat (hex_at (drop 9 s)),
            uu_time_high_and_version = of_nat (hex_at (drop 14 s)),
            uu_clk_seq_high = of_nat (hex_at (take 2 (drop 19 s))),
            uu_clk_seq_low = of_nat (hex_at (take 2 (drop 21 s))),
            uu_node = map (\<lambda>n. of_nat (hex_at (take 2 (drop (24 + 2 * n) s)))) [0..<6]\<rparr>)"

section \<open>Digits\<close>

lemma length_fixed_digits [simp]: "length (fixed_digits base k n) = k"
  by (induction k arbitrary: n) simp_all

lemma digit_val_hex_digits: "list_all (\<lambda>n. digit_val (hex_digit n) = Some n) [0..<16]"
  by code_simp

lemma digit_val_hex_digit: "n < 16 \<Longrightarrow> digit_val (hex_digit n) = Some n"
  using digit_val_hex_digits by (simp add: list_all_iff)

lemma is_digit_fixed: "c \<in> set (fixed_digits 16 k n) \<Longrightarrow> is_digit 16 c"
  by (induction k arbitrary: n) (auto simp: is_digit_def digit_val_hex_digit)

lemma digits_value_snoc:
  "digits_value base (ds @ [c]) =
     digits_value base ds * base + (case digit_val c of None \<Rightarrow> 0 | Some v \<Rightarrow> v)"
  by (simp add: digits_value_def)

lemma digits_value_fixed: "n < 16 ^ k \<Longrightarrow> digits_value 16 (fixed_digits 16 k n) = n"
proof (induction k arbitrary: n)
  case 0
  then show ?case by (simp add: digits_value_def)
next
  case (Suc k)
  then have "n div 16 < 16 ^ k" by (simp add: less_mult_imp_div_less mult.commute)
  with Suc.IH show ?case
    by (simp add: digits_value_snoc digit_val_hex_digit)
qed

text \<open>A digit is neither white space nor a sign nor the letter of the prefix.\<close>

lemma is_digit_distinct:
  assumes "is_digit 16 c"
  shows "\<not> is_space c" "c \<noteq> CHR ''-''" "c \<noteq> CHR ''+''" "c \<noteq> CHR ''x''" "c \<noteq> CHR ''X''"
  using assms by (auto simp: is_digit_def digit_val_def is_space_def Let_def split: if_splits option.splits)

lemma not_digit_hyphen: "\<not> is_digit 16 (CHR ''-'')"
  by (simp add: is_digit_def digit_val_def)

lemma two_elems: "1 < length xs \<Longrightarrow> \<exists>a b t. xs = a # b # t"
  by (cases xs; cases "tl xs") auto

lemma hex_at_digits:
  assumes "n < 16 ^ k" and "1 < k" and "k \<le> 8"
    and "rest = [] \<or> hd rest = CHR ''-''"
  shows "hex_at (fixed_digits 16 k n @ rest) = n"
proof -
  let ?ds = "fixed_digits 16 k n"
  have dig: "\<And>c. c \<in> set ?ds \<Longrightarrow> is_digit 16 c"
    by (rule is_digit_fixed)
  obtain a b t where ds: "?ds = a # b # t"
    using two_elems [of ?ds] assms(2) by auto
  have a: "is_digit 16 a" and b: "is_digit 16 b"
    using dig by (auto simp: ds)
  have "dropWhile is_space (?ds @ rest) = ?ds @ rest"
    using is_digit_distinct(1) [OF a] by (simp add: ds)
  moreover have "strtoul_sign (?ds @ rest) = (False, ?ds @ rest)"
    using is_digit_distinct(2,3) [OF a] by (simp add: ds strtoul_sign_def)
  moreover have "strtoul_prefix 16 (?ds @ rest) = ?ds @ rest"
    using is_digit_distinct(4,5) [OF b] by (simp add: ds strtoul_prefix_def)
  moreover have "takeWhile (is_digit 16) (?ds @ rest) = ?ds"
    using dig assms(4) not_digit_hyphen by (cases rest) (auto simp: takeWhile_append)
  moreover have "n \<le> ULONG_MAX"
  proof -
    have "n < 16 ^ 8"
      using assms(1,3) by (meson less_le_trans one_le_numeral power_increasing)
    then show ?thesis by (simp add: ULONG_MAX_def)
  qed
  moreover have "?ds \<noteq> []" by (simp add: ds)
  ultimately show ?thesis
    using assms(1)
    by (simp add: hex_at_def strtoul_def strtoul_value_def digits_value_fixed)
qed

lemma valid_from_digits:
  assumes "\<And>c. c \<in> set ds \<Longrightarrow> is_digit 16 c"
    and "\<And>j. i \<le> j \<Longrightarrow> j < i + length ds \<Longrightarrow> j \<noteq> 8 \<and> j \<noteq> 13 \<and> j \<noteq> 18 \<and> j \<noteq> 23 \<and> j < 36"
  shows "valid_from i (ds @ rest) = valid_from (i + length ds) rest"
  using assms
proof (induction ds arbitrary: i)
  case (Cons d ds)
  have "i \<noteq> 8 \<and> i \<noteq> 13 \<and> i \<noteq> 18 \<and> i \<noteq> 23 \<and> i < 36"
    using Cons.prems(2) [of i] by simp
  then have "valid_from i ((d # ds) @ rest) = valid_from (i + 1) (ds @ rest)"
    using Cons.prems(1) by simp
  with Cons.prems Cons.IH [of "i + 1"] show ?case by simp
qed simp

lemma valid_from_fixed:
  assumes "\<forall>j \<in> {i..<i + k}. j \<noteq> 8 \<and> j \<noteq> 13 \<and> j \<noteq> 18 \<and> j \<noteq> 23 \<and> j < 36"
  shows "valid_from i (fixed_digits 16 k n @ rest) = valid_from (i + k) rest"
  using valid_from_digits [of "fixed_digits 16 k n" i rest] is_digit_fixed assms by simp

lemma hex_at_fixed:
  "n < 16 ^ k \<Longrightarrow> 1 < k \<Longrightarrow> k \<le> 8 \<Longrightarrow> hex_at (fixed_digits 16 k n) = n"
  "n < 16 ^ k \<Longrightarrow> 1 < k \<Longrightarrow> k \<le> 8 \<Longrightarrow> hex_at (fixed_digits 16 k n @ CHR ''-'' # rest) = n"
  using hex_at_digits [of n k "[]"] hex_at_digits [of n k "CHR ''-'' # rest"] by simp_all

lemma unat_u8_bound: "unat (b :: u8) < 16 ^ 2"
  using unsigned_less [where 'a = nat, of b] by simp

lemma unat_u16_bound: "unat (b :: u16) < 16 ^ 4"
  using unsigned_less [where 'a = nat, of b] by simp

lemma unat_u32_bound: "unat (b :: u32) < 16 ^ 8"
  using unsigned_less [where 'a = nat, of b] by simp

lemma uuid_string_valid:
  assumes "length (uu_node u) = 6"
  shows "is_valid_upk_uuid_string (upk_uuid_to_string u)"
proof -
  obtain a b c d e f where n: "uu_node u = [a, b, c, d, e, f]"
    using assms by (auto simp: numeral_eq_Suc length_Suc_conv)
  have v2: "valid_from i (fixed_digits 16 2 m @ rest) = valid_from (i + 2) rest"
    if "i \<in> {19, 21, 24, 26, 28, 30, 32, 34}" for i m rest
    using that by (intro valid_from_fixed) auto
  have v4: "valid_from i (fixed_digits 16 4 m @ rest) = valid_from (i + 4) rest"
    if "i \<in> {9, 14}" for i m rest
    using that by (intro valid_from_fixed) auto
  have v8: "valid_from 0 (fixed_digits 16 8 m @ rest) = valid_from 8 rest" for m rest
    using valid_from_fixed [of 0 8] by simp
  have end2: "valid_from 34 (fixed_digits 16 2 m)" for m
    using v2 [of 34 m "[]"] by simp
  show ?thesis
    by (simp add: is_valid_upk_uuid_string_def upk_uuid_to_string_def n v2 v4 v8 end2)
qed

lemma upt_0_6: "[0..<6] = [0, 1, 2, 3, 4, 5]"
  by (simp add: upt_rec)

section \<open>Properties\<close>

text \<open>C24: the text form of an identifier is valid, and parsing it gives the identifier back, whatever the
  structure held before.\<close>

theorem uuid_round_trip:
  assumes "length (uu_node u) = 6"
  shows "is_valid_upk_uuid_string (upk_uuid_to_string u) \<and>
    upk_string_to_uuid u0 (upk_uuid_to_string u) = u"
proof
  show valid: "is_valid_upk_uuid_string (upk_uuid_to_string u)"
    using assms by (rule uuid_string_valid)
  obtain a b c d e f where n: "uu_node u = [a, b, c, d, e, f]"
    using assms by (auto simp: numeral_eq_Suc length_Suc_conv)
  note bounds = unat_u8_bound unat_u16_bound unat_u32_bound
  have "hex_at (upk_uuid_to_string u) = unat (uu_time_low u)"
    "hex_at (drop 9 (upk_uuid_to_string u)) = unat (uu_time_mid u)"
    "hex_at (drop 14 (upk_uuid_to_string u)) = unat (uu_time_high_and_version u)"
    "hex_at (take 2 (drop 19 (upk_uuid_to_string u))) = unat (uu_clk_seq_high u)"
    "hex_at (take 2 (drop 21 (upk_uuid_to_string u))) = unat (uu_clk_seq_low u)"
    by (simp_all add: upk_uuid_to_string_def hex_at_fixed bounds del: power_numeral)
  moreover have "map (\<lambda>n. hex_at (take 2 (drop (24 + 2 * n) (upk_uuid_to_string u)))) [0..<6] =
      map unat (uu_node u)"
    by (simp add: upt_0_6 n upk_uuid_to_string_def hex_at_fixed bounds del: power_numeral)
  then have "map (\<lambda>n. of_nat (hex_at (take 2 (drop (24 + 2 * n) (upk_uuid_to_string u)))) :: u8) [0..<6] =
      map of_nat (map unat (uu_node u))"
    by (metis (mono_tags, lifting) comp_apply map_eq_conv map_map)
  ultimately show "upk_string_to_uuid u0 (upk_uuid_to_string u) = u"
    using valid by (simp add: upk_string_to_uuid_def comp_def)
qed

lemma uuid_round_trip_witness:
  "upk_string_to_uuid (uuid_of_bytes (replicate 16 0))
     (upk_uuid_to_string (uuid_of_bytes (map of_nat [1..<17]))) = uuid_of_bytes (map of_nat [1..<17])"
  using uuid_round_trip [of "uuid_of_bytes (map of_nat [1..<17])" "uuid_of_bytes (replicate 16 0)"]
  by (simp add: uuid_of_bytes_def)

text \<open>Every generated identifier carries version 4 and the variant bits of the standard, whether its
  bytes come from the random device or from \<open>rand\<close>.\<close>

theorem gen_uuid_version:
  "case upk_gen_uuid_bytes opened reads rand of
     None \<Rightarrow> opened
   | Some u \<Rightarrow> uu_time_high_and_version u AND 0xF000 = 0x4000 \<and> uu_clk_seq_high u AND 0xC0 = 0x80"
proof -
  have "((x AND 0x0FFF) OR 0x4000) AND 0xF000 = 0x4000" for x :: u16
    by (simp add: bit.conj_disj_distrib2 and.assoc)
  moreover have "((x AND 0xBF) OR 0x80) AND 0xC0 = 0x80" for x :: u8
    by (simp add: bit.conj_disj_distrib2 and.assoc)
  ultimately show ?thesis
    by (auto simp: upk_gen_uuid_bytes_def Let_def split: option.splits)
qed

end
