(* ===== verification/Upk_Config.thy ===== *)
theory Upk_Config
  imports Upk_Uuid Upk_Wire
begin

text \<open>
  The configuration of the controller and its services: the structures of
  \<open>libupkeeper/upkeeper/upk_config.h\<close>, and the operations of \<open>upk_config.c\<close> on them, which clear, overlay,
  finish and free a description.  A \<open>char *\<close> is the address of a C string on a heap, so that two
  descriptions may share a string and a freed string is known as such.  The lists of a description are
  the values of their nodes; the nodes and metanodes that are given to \<open>free\<close> are counted.
\<close>

section \<open>C strings on the heap\<close>

type_synonym cptr = "nat option"

record cheap =
  strings :: "nat \<Rightarrow> string option"
  brk :: nat
  list_frees :: nat

definition cstr_read :: "cheap \<Rightarrow> cptr \<Rightarrow> string cres" where
  "cstr_read h p =
     (case p of None \<Rightarrow> Inl Null_deref
      | Some a \<Rightarrow> (case strings h a of None \<Rightarrow> Inl Use_after_free | Some s \<Rightarrow> Inr s))"

definition cstr_new :: "string \<Rightarrow> cheap \<Rightarrow> cptr \<times> cheap" where
  "cstr_new s h = (Some (brk h), h\<lparr>strings := (strings h)(brk h \<mapsto> s), brk := brk h + 1\<rparr>)"

definition cstr_free :: "cptr \<Rightarrow> cheap \<Rightarrow> cheap cres" where
  "cstr_free p h =
     (case p of None \<Rightarrow> Inr h
      | Some a \<Rightarrow> if strings h a = None then Inl Double_free
          else Inr (h\<lparr>strings := (strings h)(a := None)\<rparr>))"

section \<open>Structures\<close>

datatype upk_state = UPK_STATE_UNDEFINED | UPK_STATE_RUNNING | UPK_STATE_STOPPED | UPK_STATE_SHUTDOWN

record upk_svcid =
  svcid_name :: string
  svcid_pkg :: string

record upk_cust_actscr =
  act_name :: string
  act_script :: cptr

record upk_svc_desc =
  StartPriority :: u32
  Name :: string
  Package :: string
  Provides :: "upk_svcid list option"
  UUID :: upk_uuid
  ShortDescription :: string
  LongDescription :: cptr
  Prerequisites :: "upk_svcid list option"
  StartAfter :: "upk_svcid list option"
  RestartAllDependencies :: bool
  RestartOnPrerequisiteRestart :: bool
  RestartOnNamedPrereqRestart :: "upk_svcid list option"
  KillTimeout :: u32
  StartupDelay :: u32
  MaxConsecutiveFailures :: u32
  UserMaxRestarts :: u32
  UserRestartWindow :: u32
  UserRateLimit :: u32
  RandomizeRateLimit :: u8
  SetUID :: u32
  SetGID :: u32
  RingbufferSize :: u64
  ReconnectRetries :: u32
  ExecStart :: string
  StartScript :: cptr
  ExecStop :: string
  StopScript :: cptr
  ExecReload :: string
  ReloadScript :: cptr
  CustomActions :: "upk_cust_actscr list option"
  PipeStdoutScript :: cptr
  PipeStderrScript :: cptr
  RedirectStdout :: string
  RedirectStderr :: string
  InitialState :: upk_state
  UnconfigureOnFileRemoval :: u8
  PreferBuddyStateForStopped :: u8
  PreferBuddyStateForRunning :: u8

text \<open>\<open>BuddyPollingInterval\<close> is a \<open>double\<close>; it is copied and compared with \<open>DBL_MIN\<close>, never computed with,
  so its representation is enough.\<close>

record upk_controller_config =
  StateDir :: string
  SvcConfigPath :: string
  SvcRunPath :: string
  UpkBuddyPath :: string
  AuditMaxAge :: u32
  AuditMaxRecords :: u32
  BuddyVerbosity :: u32
  BuddyPollingInterval :: u64
  controller_socket :: string
  controller_buddy_sock :: string
  ServiceDefaults :: upk_svc_desc
  svclist :: "upk_svc_desc list option"

section \<open>Clearing and freeing\<close>

definition INT8_MIN :: u8 where "INT8_MIN = 0x80"
definition INT32_MIN :: u32 where "INT32_MIN = 0x80000000"

text \<open>\<open>INT32_MIN\<close> converted to \<open>size_t\<close>, and the smallest normal \<open>double\<close>.\<close>

definition INT32_MIN_size :: u64 where "INT32_MIN_size = 0xFFFFFFFF80000000"
definition DBL_MIN :: u64 where "DBL_MIN = 0x0010000000000000"

definition upk_svc_desc_clear :: upk_svc_desc where
  "upk_svc_desc_clear =
     \<lparr>StartPriority = INT32_MIN, Name = '''', Package = '''', Provides = None, UUID = zero_uuid,
      ShortDescription = '''', LongDescription = None, Prerequisites = None, StartAfter = None,
      RestartAllDependencies = False, RestartOnPrerequisiteRestart = False,
      RestartOnNamedPrereqRestart = None, KillTimeout = INT32_MIN, StartupDelay = 0,
      MaxConsecutiveFailures = INT32_MIN, UserMaxRestarts = INT32_MIN, UserRestartWindow = INT32_MIN,
      UserRateLimit = INT32_MIN, RandomizeRateLimit = INT8_MIN, SetUID = INT32_MIN, SetGID = INT32_MIN,
      RingbufferSize = INT32_MIN_size, ReconnectRetries = INT32_MIN, ExecStart = '''',
      StartScript = None, ExecStop = '''', StopScript = None, ExecReload = '''', ReloadScript = None,
      CustomActions = None, PipeStdoutScript = None, PipeStderrScript = None, RedirectStdout = '''',
      RedirectStderr = '''', InitialState = UPK_STATE_UNDEFINED, UnconfigureOnFileRemoval = INT8_MIN,
      PreferBuddyStateForStopped = INT8_MIN, PreferBuddyStateForRunning = INT8_MIN\<rparr>"

fun free_strings :: "cptr list \<Rightarrow> cheap \<Rightarrow> cheap cres" where
  "free_strings [] h = Inr h"
| "free_strings (p # ps) h = bind_c (cstr_free p h) (free_strings ps)"

definition action_scripts :: "upk_cust_actscr list option \<Rightarrow> cptr list" where
  "action_scripts as = (case as of None \<Rightarrow> [] | Some as \<Rightarrow> map act_script as)"

text \<open>\<open>UPKLIST_FREE\<close>, and the loop over the custom actions with the \<open>free\<close> behind it: every node and then
  the metanode, if there is one.  The pointer to the metanode is not cleared, so a second call starts with
  a read of freed memory; \<open>live\<close> says that the lists of the configuration have not been freed yet.\<close>

definition list_blocks :: "'a list option \<Rightarrow> nat" where
  "list_blocks l = (case l of None \<Rightarrow> 0 | Some xs \<Rightarrow> length xs + 1)"

definition free_blocks :: "nat \<Rightarrow> cheap \<Rightarrow> cheap" where
  "free_blocks n h = h\<lparr>list_frees := list_frees h + n\<rparr>"

definition list_free :: "bool \<Rightarrow> 'a list option \<Rightarrow> cheap \<Rightarrow> cheap cres" where
  "list_free live l h =
     (if l \<noteq> None \<and> \<not> live then Inl Use_after_free else Inr (free_blocks (list_blocks l) h))"

text \<open>What \<open>upk_svc_desc_free\<close> gives to \<open>free\<close>, in its order; the long description comes twice.\<close>

definition upk_svc_desc_free :: "bool \<Rightarrow> upk_svc_desc \<Rightarrow> cheap \<Rightarrow> cheap cres" where
  "upk_svc_desc_free live svc h =
     bind_c (list_free live (Provides svc) h) (\<lambda>h.
     bind_c (free_strings [LongDescription svc] h) (\<lambda>h.
     bind_c (list_free live (Prerequisites svc) h) (\<lambda>h.
     bind_c (free_strings [StartScript svc, StopScript svc, ReloadScript svc] h) (\<lambda>h.
     bind_c (list_free live (CustomActions svc) h) (\<lambda>h.
     free_strings (action_scripts (CustomActions svc) @
       [PipeStdoutScript svc, PipeStderrScript svc, LongDescription svc]) h)))))"

fun free_services :: "bool \<Rightarrow> upk_svc_desc list \<Rightarrow> cheap \<Rightarrow> cheap cres" where
  "free_services live [] h = Inr h"
| "free_services live (s # ss) h = bind_c (upk_svc_desc_free live s h) (free_services live ss)"

definition upk_svclist_free :: "bool \<Rightarrow> upk_svc_desc list option \<Rightarrow> cheap \<Rightarrow> cheap cres" where
  "upk_svclist_free live l h =
     (case l of None \<Rightarrow> Inr h
      | Some ss \<Rightarrow> if live then bind_c (free_services live ss h) (list_free live l) else Inl Use_after_free)"

definition upk_ctrlconf_free :: "bool \<Rightarrow> upk_controller_config \<Rightarrow> cheap \<Rightarrow> cheap cres" where
  "upk_ctrlconf_free live cfg h =
     bind_c (upk_svclist_free live (svclist cfg) h) (upk_svc_desc_free live (ServiceDefaults cfg))"

text \<open>The default, file and runtime configurations, in the order in which they are freed.\<close>

definition upk_ctrl_free_config ::
    "bool \<Rightarrow> upk_controller_config \<Rightarrow> upk_controller_config \<Rightarrow> upk_controller_config \<Rightarrow> cheap \<Rightarrow> cheap cres" where
  "upk_ctrl_free_config live dflt file runtime h =
     bind_c (upk_ctrlconf_free live dflt h) (\<lambda>h.
     bind_c (upk_ctrlconf_free live file h) (upk_ctrlconf_free live runtime))"

section \<open>Overlay\<close>

text \<open>A number that is not the mark of an unset one, a string array that is not empty, and an identifier
  that is not zero replace what was there; \<open>strncpy\<close> leaves room for the terminator.\<close>

definition overlay_num :: "'w::len word \<Rightarrow> 'w word \<Rightarrow> 'w word \<Rightarrow> 'w word" where
  "overlay_num unset high dest = (if high \<noteq> unset then high else dest)"

definition overlay_array :: "nat \<Rightarrow> string \<Rightarrow> string \<Rightarrow> string" where
  "overlay_array sz high dest = (if high \<noteq> '''' then take (sz - 1) high else dest)"

definition overlay_uuid :: "upk_uuid \<Rightarrow> upk_uuid \<Rightarrow> upk_uuid" where
  "overlay_uuid high dest =
     (if uu_time_low high \<noteq> 0 \<or> uu_time_mid high \<noteq> 0 \<or> uu_time_high_and_version high \<noteq> 0 \<or>
         uu_clk_seq_high high \<noteq> 0 \<or> uu_clk_seq_low high \<noteq> 0 \<or> (\<exists>b\<in>set (take 6 (uu_node high)). b \<noteq> 0)
      then high else dest)"

definition overlay_ids :: "upk_svcid list option \<Rightarrow> upk_svcid list option \<Rightarrow> upk_svcid list option" where
  "overlay_ids high dest =
     (case high of None \<Rightarrow> dest
      | Some hs \<Rightarrow> if hs = [] then dest else Some ((case dest of None \<Rightarrow> [] | Some ds \<Rightarrow> ds) @ hs))"

text \<open>A script that is not empty is copied; the string at \<open>victim\<close> is freed before.\<close>

definition overlay_script :: "cptr \<Rightarrow> cptr \<Rightarrow> cptr \<Rightarrow> cheap \<Rightarrow> (cptr \<times> cheap) cres" where
  "overlay_script high victim dest h =
     (if high = None then Inr (dest, h)
      else bind_c (cstr_read h high) (\<lambda>s.
        if s = '''' then Inr (dest, h)
        else bind_c (cstr_free victim h) (\<lambda>h.
          bind_c (cstr_read h high) (\<lambda>s. Inr (cstr_new s h)))))"

fun copy_actions :: "upk_cust_actscr list \<Rightarrow> cheap \<Rightarrow> (upk_cust_actscr list \<times> cheap) cres" where
  "copy_actions [] h = Inr ([], h)"
| "copy_actions (a # as) h =
     bind_c (if act_script a = None then Inr (None, h)
             else bind_c (cstr_read h (act_script a)) (\<lambda>s. Inr (cstr_new s h))) (\<lambda>(p, h).
     bind_c (copy_actions as h) (\<lambda>(cs, h). Inr (a\<lparr>act_script := p\<rparr> # cs, h)))"

text \<open>The nodes of the list that is replaced are freed, its metanode is not.\<close>

definition overlay_actions ::
    "upk_cust_actscr list option \<Rightarrow> upk_cust_actscr list option \<Rightarrow> cheap \<Rightarrow>
     (upk_cust_actscr list option \<times> cheap) cres" where
  "overlay_actions high dest h =
     (case high of None \<Rightarrow> Inr (dest, h)
      | Some hs \<Rightarrow>
          if hs = [] then Inr (dest, h)
          else bind_c (free_strings (action_scripts dest) h) (\<lambda>h.
            bind_c (copy_actions hs (free_blocks (list_blocks dest - 1) h)) (\<lambda>(cs, h). Inr (Some cs, h))))"

text \<open>The fields without a pointer, and then the strings in the order of the code.  The new long
  description and the error pipe do not free the string they replace; the error pipe frees the string
  of the output pipe.\<close>

definition overlay_values :: "upk_svc_desc \<Rightarrow> upk_svc_desc \<Rightarrow> upk_svc_desc" where
  "overlay_values dest high = dest
     \<lparr>StartPriority := overlay_num INT32_MIN (StartPriority high) (StartPriority dest),
      Name := overlay_array UPK_MAX_STRING_LEN (Name high) (Name dest),
      Package := overlay_array UPK_MAX_STRING_LEN (Package high) (Package dest),
      Provides := overlay_ids (Provides high) (Provides dest),
      UUID := overlay_uuid (UUID high) (UUID dest),
      ShortDescription := overlay_array UPK_MAX_STRING_LEN (ShortDescription high) (ShortDescription dest),
      Prerequisites := overlay_ids (Prerequisites high) (Prerequisites dest),
      KillTimeout := overlay_num INT32_MIN (KillTimeout high) (KillTimeout dest),
      MaxConsecutiveFailures :=
        overlay_num INT32_MIN (MaxConsecutiveFailures high) (MaxConsecutiveFailures dest),
      UserMaxRestarts := overlay_num INT32_MIN (UserMaxRestarts high) (UserMaxRestarts dest),
      UserRestartWindow := overlay_num INT32_MIN (UserRestartWindow high) (UserRestartWindow dest),
      UserRateLimit := overlay_num INT32_MIN (UserRateLimit high) (UserRateLimit dest),
      RandomizeRateLimit := overlay_num INT8_MIN (RandomizeRateLimit high) (RandomizeRateLimit dest),
      SetUID := overlay_num INT32_MIN (SetUID high) (SetUID dest),
      SetGID := overlay_num INT32_MIN (SetGID high) (SetGID dest),
      RingbufferSize := overlay_num INT32_MIN_size (RingbufferSize high) (RingbufferSize dest),
      ReconnectRetries := overlay_num INT32_MIN (ReconnectRetries high) (ReconnectRetries dest),
      ExecStart := overlay_array UPK_MAX_PATH_LEN (ExecStart high) (ExecStart dest),
      ExecStop := overlay_array UPK_MAX_PATH_LEN (ExecStop high) (ExecStop dest),
      ExecReload := overlay_array UPK_MAX_PATH_LEN (ExecReload high) (ExecReload dest),
      RedirectStdout := overlay_array UPK_MAX_PATH_LEN (RedirectStdout high) (RedirectStdout dest),
      RedirectStderr := overlay_array UPK_MAX_PATH_LEN (RedirectStderr high) (RedirectStderr dest),
      InitialState :=
        (if InitialState high \<noteq> UPK_STATE_UNDEFINED then InitialState high else InitialState dest),
      UnconfigureOnFileRemoval :=
        overlay_num INT8_MIN (UnconfigureOnFileRemoval high) (UnconfigureOnFileRemoval dest),
      PreferBuddyStateForStopped :=
        overlay_num INT8_MIN (PreferBuddyStateForStopped high) (PreferBuddyStateForStopped dest),
      PreferBuddyStateForRunning :=
        overlay_num INT8_MIN (PreferBuddyStateForRunning high) (PreferBuddyStateForRunning dest)\<rparr>"

definition upk_overlay_svcconf_values ::
    "upk_svc_desc \<Rightarrow> upk_svc_desc \<Rightarrow> cheap \<Rightarrow> (upk_svc_desc \<times> cheap) cres" where
  "upk_overlay_svcconf_values dest high h =
     bind_c (overlay_script (LongDescription high) None (LongDescription dest) h) (\<lambda>(long, h).
     bind_c (overlay_script (StartScript high) (StartScript dest) (StartScript dest) h) (\<lambda>(start, h).
     bind_c (overlay_script (StopScript high) (StopScript dest) (StopScript dest) h) (\<lambda>(stop, h).
     bind_c (overlay_script (ReloadScript high) (ReloadScript dest) (ReloadScript dest) h) (\<lambda>(reload, h).
     bind_c (overlay_actions (CustomActions high) (CustomActions dest) h) (\<lambda>(actions, h).
     bind_c (overlay_script (PipeStdoutScript high) (PipeStdoutScript dest) (PipeStdoutScript dest) h) (\<lambda>(out, h).
     bind_c (overlay_script (PipeStderrScript high) out (PipeStderrScript dest) h) (\<lambda>(err, h).
     Inr ((overlay_values dest high)\<lparr>LongDescription := long, StartScript := start, StopScript := stop,
       ReloadScript := reload, CustomActions := actions, PipeStdoutScript := out,
       PipeStderrScript := err\<rparr>, h))))))))"

text \<open>The nodes of the service list are copied with their pointers.\<close>

definition upk_overlay_ctrlconf_values ::
    "upk_controller_config \<Rightarrow> upk_controller_config \<Rightarrow> cheap \<Rightarrow> (upk_controller_config \<times> cheap) cres" where
  "upk_overlay_ctrlconf_values dest high h =
     bind_c (if Name (ServiceDefaults high) \<noteq> ''''
             then upk_overlay_svcconf_values (ServiceDefaults dest) (ServiceDefaults high) h
             else Inr (ServiceDefaults dest, h)) (\<lambda>(defaults, h).
     Inr (dest
       \<lparr>StateDir := overlay_array UPK_MAX_PATH_LEN (StateDir high) (StateDir dest),
        SvcConfigPath := overlay_array UPK_MAX_PATH_LEN (SvcConfigPath high) (SvcConfigPath dest),
        SvcRunPath := overlay_array UPK_MAX_PATH_LEN (SvcRunPath high) (SvcRunPath dest),
        UpkBuddyPath := overlay_array UPK_MAX_PATH_LEN (UpkBuddyPath high) (UpkBuddyPath dest),
        BuddyPollingInterval :=
          overlay_num DBL_MIN (BuddyPollingInterval high) (BuddyPollingInterval dest),
        controller_socket := overlay_array UPK_MAX_PATH_LEN (controller_socket high) (controller_socket dest),
        controller_buddy_sock :=
          overlay_array UPK_MAX_PATH_LEN (controller_buddy_sock high) (controller_buddy_sock dest),
        ServiceDefaults := defaults,
        svclist := (case svclist high of None \<Rightarrow> svclist dest
          | Some hs \<Rightarrow> if hs = [] then svclist dest else Some hs)\<rparr>, h))"

section \<open>Finishing a description\<close>

text \<open>\<open>upk_replace_string\<close> on a string of the heap, which stays where it is.\<close>

definition replace_at :: "(nat \<Rightarrow> char) \<Rightarrow> cptr \<Rightarrow> string \<Rightarrow> string \<Rightarrow> cheap \<Rightarrow> cheap cres" where
  "replace_at junk p needle repl h =
     (case p of None \<Rightarrow> Inr h
      | Some a \<Rightarrow> bind_c (cstr_read h p) (\<lambda>s.
          Inr (h\<lparr>strings := (strings h)(a \<mapsto> c_string (upk_replace_string junk s needle repl))\<rparr>)))"

definition upk_finalize_svc_desc ::
    "(nat \<Rightarrow> char) \<Rightarrow> upk_svc_desc \<Rightarrow> upk_svc_desc \<Rightarrow> upk_svc_desc option \<Rightarrow> cheap \<Rightarrow>
     (upk_svc_desc \<times> cheap) cres" where
  "upk_finalize_svc_desc junk defaults dest orig h =
     bind_c (upk_overlay_svcconf_values dest defaults h) (\<lambda>(d, h).
     bind_c (case orig of None \<Rightarrow> Inr (d, h) | Some svc \<Rightarrow> upk_overlay_svcconf_values d svc h) (\<lambda>(d, h).
     bind_c (replace_at junk (StartScript d) ''%(EXEC_START)'' (ExecStart d) h) (\<lambda>h.
     bind_c (replace_at junk (StopScript d) ''%(EXEC_STOP)'' (ExecStop d) h) (\<lambda>h.
     bind_c (replace_at junk (ReloadScript d) ''%(EXEC_RELOAD)'' (ExecReload d) h) (\<lambda>h.
     Inr (d, h))))))"

section \<open>Service identifiers\<close>

text \<open>The room left is a \<open>size_t\<close>: it wraps when less than two bytes are left after the package.\<close>

definition upk_concat_svcid :: "string \<Rightarrow> string \<Rightarrow> string cres" where
  "upk_concat_svcid pkg name =
     (let room = of_nat UPK_MAX_STRING_LEN - 1 :: u64;
          (dest, room) =
            (if pkg \<noteq> '''' then
               let dest = take (unat room) pkg; room = room - of_nat (length pkg);
                   dest = dest @ take (unat room) ''::'' in
               (dest, room - 2)
             else ('''', room));
          dest = dest @ take (unat room) name in
      if length dest < UPK_MAX_STRING_LEN then Inr dest else Inl Oob_write)"

definition upk_svc_id :: "upk_svc_desc \<Rightarrow> string cres" where
  "upk_svc_id svc = upk_concat_svcid (Package svc) (Name svc)"

text \<open>The key is cut at the separator.\<close>

definition upk_parse_svc_id :: "string \<Rightarrow> upk_svc_desc \<Rightarrow> string \<times> upk_svc_desc" where
  "upk_parse_svc_id key svc =
     (case strstr key ''::'' of
        Some off \<Rightarrow>
          (take off key, svc\<lparr>Package := take (UPK_MAX_STRING_LEN - 1) (take off key),
             Name := take (UPK_MAX_STRING_LEN - 1) (drop (off + 2) key)\<rparr>)
      | None \<Rightarrow> (key, svc\<lparr>Name := take (UPK_MAX_STRING_LEN - 1) key\<rparr>))"

section \<open>Frees\<close>

text \<open>The strings of a list of pointers, none of them shared, are all freed.\<close>

definition non_null :: "cptr list \<Rightarrow> nat list" where
  "non_null ps = List.map_filter id ps"

lemma non_null_simps [simp]:
  "non_null [] = []" "non_null (None # ps) = non_null ps" "non_null (Some a # ps) = a # non_null ps"
  by (simp_all add: non_null_def List.map_filter_def)

lemma non_null_append [simp]: "non_null (ps @ qs) = non_null ps @ non_null qs"
  by (induction ps) (simp_all add: non_null_def List.map_filter_def)

lemma set_non_null [simp]: "a \<in> set (non_null ps) \<longleftrightarrow> Some a \<in> set ps"
proof (induction ps)
  case (Cons p ps)
  then show ?case by (cases p) auto
qed simp

definition without :: "nat list \<Rightarrow> cheap \<Rightarrow> cheap" where
  "without as h = h\<lparr>strings := (\<lambda>a. if a \<in> set as then None else strings h a)\<rparr>"

lemma without_Nil [simp]: "without [] h = h"
  by (simp add: without_def)

lemma strings_without [simp]: "strings (without as h) a = (if a \<in> set as then None else strings h a)"
  by (simp add: without_def)

lemma brk_without [simp]: "brk (without as h) = brk h" "list_frees (without as h) = list_frees h"
  by (simp_all add: without_def)

lemma without_without [simp]: "without as (without bs h) = without (bs @ as) h"
  by (auto simp: without_def fun_eq_iff intro!: cheap.equality)

lemma cstr_free_live: "strings h a \<noteq> None \<Longrightarrow> cstr_free (Some a) h = Inr (without [a] h)"
  by (auto simp: cstr_free_def without_def fun_upd_def)

lemma free_strings_append: "free_strings (ps @ qs) h = bind_c (free_strings ps h) (free_strings qs)"
proof (induction ps arbitrary: h)
  case (Cons p ps)
  then show ?case by (cases "cstr_free p h") simp_all
qed simp

lemma free_blocks_sel [simp]:
  "strings (free_blocks n h) = strings h" "brk (free_blocks n h) = brk h"
  "list_frees (free_blocks n h) = list_frees h + n"
  by (simp_all add: free_blocks_def)

lemma free_blocks_blocks [simp]: "free_blocks n (free_blocks k h) = free_blocks (k + n) h" "free_blocks 0 h = h"
  by (simp_all add: free_blocks_def)

lemma without_blocks: "without as (free_blocks n h) = free_blocks n (without as h)"
  by (auto simp: without_def free_blocks_def intro!: cheap.equality)

lemma cstr_free_blocks: "cstr_free p (free_blocks n h) = bind_c (cstr_free p h) (\<lambda>h. Inr (free_blocks n h))"
  by (simp add: cstr_free_def free_blocks_def split: option.split)

lemma free_strings_blocks:
  "free_strings ps (free_blocks n h) = bind_c (free_strings ps h) (\<lambda>h. Inr (free_blocks n h))"
proof (induction ps arbitrary: h)
  case (Cons p ps)
  then show ?case by (cases "cstr_free p h") (simp_all add: cstr_free_blocks)
qed simp

lemma free_strings_live:
  "distinct (non_null ps) \<Longrightarrow> \<forall>a\<in>set (non_null ps). strings h a \<noteq> None \<Longrightarrow>
     free_strings ps h = Inr (without (non_null ps) h)"
proof (induction ps arbitrary: h)
  case (Cons p ps)
  show ?case
  proof (cases p)
    case None
    with Cons show ?thesis by (simp add: cstr_free_def)
  next
    case (Some a)
    have "\<forall>b\<in>set (non_null ps). strings (without [a] h) b \<noteq> None"
      using Cons.prems Some by auto
    then have "free_strings ps (without [a] h) = Inr (without (non_null ps) (without [a] h))"
      using Cons.IH Cons.prems(1) Some by simp
    with Cons.prems Some show ?thesis by (simp add: cstr_free_live)
  qed
qed simp

definition script_ptrs :: "upk_svc_desc \<Rightarrow> cptr list" where
  "script_ptrs svc =
     [LongDescription svc, StartScript svc, StopScript svc, ReloadScript svc] @
       action_scripts (CustomActions svc) @ [PipeStdoutScript svc, PipeStderrScript svc]"

definition owns :: "upk_svc_desc \<Rightarrow> cheap \<Rightarrow> bool" where
  "owns svc h \<longleftrightarrow> distinct (non_null (script_ptrs svc)) \<and>
     (\<forall>a\<in>set (non_null (script_ptrs svc)). strings h a \<noteq> None)"

lemma long_in_script_ptrs: "LongDescription svc = Some a \<Longrightarrow> Some a \<in> set (script_ptrs svc)"
  by (simp add: script_ptrs_def)

definition desc_blocks :: "upk_svc_desc \<Rightarrow> nat" where
  "desc_blocks svc = list_blocks (Provides svc) + list_blocks (Prerequisites svc) + list_blocks (CustomActions svc)"

text \<open>The strings are freed as if the lists were not there.\<close>

lemma svc_desc_free_strings:
  "upk_svc_desc_free True svc h =
    bind_c (free_strings (script_ptrs svc @ [LongDescription svc]) h) (\<lambda>h. Inr (free_blocks (desc_blocks svc) h))"
proof -
  define a b c where "a = [LongDescription svc]"
    and "b = [StartScript svc, StopScript svc, ReloadScript svc]"
    and "c = action_scripts (CustomActions svc) @ [PipeStdoutScript svc, PipeStderrScript svc, LongDescription svc]"
  note parts = this
  have "script_ptrs svc @ [LongDescription svc] = a @ b @ c" by (simp add: script_ptrs_def parts)
  moreover have "upk_svc_desc_free True svc h =
     bind_c (free_strings a (free_blocks (list_blocks (Provides svc)) h)) (\<lambda>h.
     bind_c (free_strings b (free_blocks (list_blocks (Prerequisites svc)) h)) (\<lambda>h.
     free_strings c (free_blocks (list_blocks (CustomActions svc)) h)))"
    by (simp only: upk_svc_desc_free_def parts list_free_def bind_c_simps simp_thms if_False)
  ultimately show ?thesis
    by (auto simp: free_strings_append free_strings_blocks bind_c_def desc_blocks_def ac_simps split: sum.split)
qed

lemma svc_desc_free_owned:
  assumes "owns svc h"
  shows "upk_svc_desc_free True svc h =
    (if LongDescription svc = None then Inr (free_blocks (desc_blocks svc) (without (non_null (script_ptrs svc)) h))
     else Inl Double_free)"
proof -
  have "free_strings (script_ptrs svc @ [LongDescription svc]) h =
      cstr_free (LongDescription svc) (without (non_null (script_ptrs svc)) h)"
    using assms by (simp add: free_strings_append owns_def free_strings_live bind_c_def split: sum.split)
  then show ?thesis
    by (cases "LongDescription svc") (simp_all add: svc_desc_free_strings cstr_free_def long_in_script_ptrs)
qed

section \<open>Overlays of cleared descriptions\<close>

lemma overlay_num_unset [simp]: "overlay_num u u d = d"
  by (simp add: overlay_num_def)

lemma overlay_array_empty [simp]: "overlay_array n '''' d = d"
  by (simp add: overlay_array_def)

lemma overlay_uuid_zero [simp]: "overlay_uuid zero_uuid d = d"
  by (simp add: overlay_uuid_def zero_uuid_def)

lemma overlay_ids_null [simp]: "overlay_ids None d = d"
  by (simp add: overlay_ids_def)

lemma overlay_script_null [simp]: "overlay_script None v d h = Inr (d, h)"
  by (simp add: overlay_script_def)

lemma overlay_actions_null [simp]: "overlay_actions None d h = Inr (d, h)"
  by (simp add: overlay_actions_def)

lemma overlay_script_copies:
  assumes "strings h a = Some s" and "s \<noteq> ''''" and "v \<noteq> Some a"
    and "\<forall>b. v = Some b \<longrightarrow> strings h b \<noteq> None"
  shows "overlay_script (Some a) v d h = Inr (cstr_new s (without (non_null [v]) h))"
  using assms by (cases v) (simp_all add: overlay_script_def cstr_read_def cstr_free_live, simp add: cstr_free_def)

section \<open>Identifiers\<close>

lemma strstr_colons:
  "CHR '':'' \<notin> set pkg \<Longrightarrow> strstr (pkg @ CHR '':'' # CHR '':'' # name) ''::'' = Some (length pkg)"
  by (induction pkg) auto

lemma strstr_no_colons: "CHR '':'' \<notin> set name \<Longrightarrow> strstr name ''::'' = None"
  by (induction name) auto

text \<open>The room is a natural number as long as the identifier fits.\<close>

lemma concat_svcid_fits:
  assumes "length pkg + length name + 2 < UPK_MAX_STRING_LEN" and "pkg \<noteq> ''''"
  shows "upk_concat_svcid pkg name = Inr (pkg @ ''::'' @ name)"
proof -
  let ?room = "of_nat UPK_MAX_STRING_LEN - 1 :: u64"
  have room: "unat ?room = 2047" by (simp add: UPK_MAX_STRING_LEN_def)
  have le: "of_nat (length pkg) \<le> ?room" and len: "unat (of_nat (length pkg) :: u64) = length pkg"
    using assms(1)
    by (simp_all add: word_le_nat_alt room unat_of_nat take_bit_nat_eq_self UPK_MAX_STRING_LEN_def)
  have room1: "unat (?room - of_nat (length pkg)) = 2047 - length pkg"
    using unat_sub [OF le] by (simp only: room len)
  have "2 \<le> ?room - of_nat (length pkg)"
    using assms(1) unfolding word_le_nat_alt room1 by (simp add: UPK_MAX_STRING_LEN_def)
  from unat_sub [OF this] have "unat (?room - of_nat (length pkg) - 2) = 2045 - length pkg"
    by (simp only: room1) simp
  with assms room1 show ?thesis
    by (simp add: upk_concat_svcid_def Let_def UPK_MAX_STRING_LEN_def)
qed

section \<open>Properties\<close>

text \<open>C26: a description that owns its strings (they are allocated, and no two of its pointers are the same)
  is freed without a fault exactly when it has no long description: that string is freed a second time
  at the end.  Otherwise each of its strings is freed once and no other, and so are the nodes and the
  metanodes of its provides, prerequisites and custom actions: of its five lists, the two others are not
  freed.\<close>

theorem svc_desc_free_spec:
  assumes "owns svc h"
  shows "if LongDescription svc = None then
      \<exists>h'. upk_svc_desc_free True svc h = Inr h' \<and>
        (\<forall>a. strings h' a = (if Some a \<in> set (script_ptrs svc) then None else strings h a)) \<and>
        list_frees h' = list_frees h + list_blocks (Provides svc) + list_blocks (Prerequisites svc) +
          list_blocks (CustomActions svc)
    else upk_svc_desc_free True svc h = Inl Double_free"
  using svc_desc_free_owned [OF assms] by (simp add: desc_blocks_def)

text \<open>A description with a start script and a long description.\<close>

definition sample_heap :: cheap where
  "sample_heap = \<lparr>strings = map_of [(0, ''run''), (1, ''text''), (2, ''logger'')], brk = 3, list_frees = 0\<rparr>"

definition sample_svc :: upk_svc_desc where
  "sample_svc = upk_svc_desc_clear\<lparr>StartScript := Some 0, LongDescription := Some 1\<rparr>"

lemma svc_desc_free_spec_witness:
  "upk_svc_desc_free True sample_svc sample_heap = Inl Double_free \<and>
   (\<exists>h'. upk_svc_desc_free True (sample_svc\<lparr>LongDescription := None, Provides := Some []\<rparr>) sample_heap = Inr h' \<and>
      strings h' 0 = None \<and> strings h' 1 = Some ''text'' \<and> list_frees h' = 1)"
proof
  let ?d = "sample_svc\<lparr>LongDescription := None, Provides := Some []\<rparr>"
  have owns: "owns sample_svc sample_heap" "owns ?d sample_heap"
    by (simp_all add: owns_def script_ptrs_def action_scripts_def sample_svc_def sample_heap_def
        upk_svc_desc_clear_def)
  show "upk_svc_desc_free True sample_svc sample_heap = Inl Double_free"
    using svc_desc_free_spec [OF owns(1)] by (simp add: sample_svc_def)
  have "set (script_ptrs ?d) = {None, Some 0}"
    by (auto simp: script_ptrs_def action_scripts_def sample_svc_def upk_svc_desc_clear_def)
  moreover have "list_frees sample_heap + list_blocks (Provides ?d) + list_blocks (Prerequisites ?d) +
      list_blocks (CustomActions ?d) = 1"
    by (simp add: list_blocks_def sample_heap_def sample_svc_def upk_svc_desc_clear_def)
  ultimately obtain h' where "upk_svc_desc_free True ?d sample_heap = Inr h'" "list_frees h' = 1"
    "\<forall>a. strings h' a = (if Some a \<in> {None, Some 0} then None else strings sample_heap a)"
    using svc_desc_free_spec [OF owns(2)] by auto
  then show "\<exists>h'. upk_svc_desc_free True ?d sample_heap = Inr h' \<and>
      strings h' 0 = None \<and> strings h' 1 = Some ''text'' \<and> list_frees h' = 1"
    by (intro exI [of _ h']) (simp add: sample_heap_def)
qed

text \<open>Overlaying the script of the error pipe frees the string of the output pipe: the description
  keeps a dangling pointer, and freeing the result is a second \<open>free\<close> of the same string.\<close>

theorem overlay_stderr_dangles:
  assumes "strings h e = Some s" and "s \<noteq> ''''" and "owns dest h" and "PipeStdoutScript dest = Some a"
    and "LongDescription dest = None" and "e \<notin> set (non_null (script_ptrs dest))"
    and "brk h \<notin> dom (strings h)"
  shows "\<exists>d h'. upk_overlay_svcconf_values dest (upk_svc_desc_clear\<lparr>PipeStderrScript := Some e\<rparr>) h =
      Inr (d, h') \<and>
    PipeStdoutScript d = Some a \<and> strings h' a = None \<and> upk_svc_desc_free True d h' = Inl Double_free"
proof -
  have a: "a \<in> set (non_null (script_ptrs dest))" "strings h a \<noteq> None"
    using assms(3,4) by (simp_all add: owns_def script_ptrs_def)
  let ?d = "dest\<lparr>PipeStderrScript := Some (brk h)\<rparr>" and ?h = "snd (cstr_new s (without [a] h))"
  have "overlay_script (Some e) (Some a) (PipeStderrScript dest) h = Inr (Some (brk h), ?h)"
    using overlay_script_copies [OF assms(1,2), of "Some a"] a assms(6)
    by (auto simp: cstr_new_def without_def)
  then have "upk_overlay_svcconf_values dest (upk_svc_desc_clear\<lparr>PipeStderrScript := Some e\<rparr>) h = Inr (?d, ?h)"
    using assms(4) by (simp add: upk_overlay_svcconf_values_def overlay_values_def upk_svc_desc_clear_def)
  moreover have "a \<noteq> brk h" using a(2) assms(7) by auto
  then have "strings ?h a = None" by (simp add: cstr_new_def)
  moreover have "upk_svc_desc_free True ?d ?h = Inl Double_free"
  proof -
    define ps where "ps = [None, StartScript dest, StopScript dest, ReloadScript dest] @
      action_scripts (CustomActions dest)"
    have own: "distinct (non_null (ps @ [Some a, PipeStderrScript dest]))"
      "\<forall>b\<in>set (non_null ps). strings h b \<noteq> None"
      using assms(3-5) by (auto simp: owns_def script_ptrs_def ps_def)
    then have "a \<notin> set (non_null ps)" "distinct (non_null ps)" by simp_all
    with own(2) have "free_strings ps ?h = Inr (without (non_null ps) ?h)"
      by (intro free_strings_live) (auto simp: cstr_new_def)
    moreover have "script_ptrs ?d @ [LongDescription ?d] = ps @ [Some a, Some (brk h), None]"
      using assms(4,5) by (simp add: script_ptrs_def ps_def)
    ultimately show ?thesis
      using \<open>strings ?h a = None\<close> by (simp add: svc_desc_free_strings free_strings_append cstr_free_def)
  qed
  ultimately show ?thesis using assms(4) by auto
qed

lemma overlay_stderr_dangles_witness:
  "\<exists>d h'. upk_overlay_svcconf_values (upk_svc_desc_clear\<lparr>PipeStdoutScript := Some 0\<rparr>)
      (upk_svc_desc_clear\<lparr>PipeStderrScript := Some 2\<rparr>) sample_heap = Inr (d, h') \<and>
    upk_svc_desc_free True d h' = Inl Double_free"
  using overlay_stderr_dangles [of sample_heap 2 "''logger''"
      "upk_svc_desc_clear\<lparr>PipeStdoutScript := Some 0\<rparr>" 0]
  by (auto simp: owns_def script_ptrs_def action_scripts_def sample_heap_def upk_svc_desc_clear_def)

text \<open>A cleared description overlays nothing: it leaves every field and every string as it was.\<close>

theorem overlay_clear: "upk_overlay_svcconf_values dest upk_svc_desc_clear h = Inr (dest, h)"
  by (simp add: upk_overlay_svcconf_values_def overlay_values_def upk_svc_desc_clear_def)

text \<open>C22: the identifier made of a package without colons and a name, as long as both fit with the
  separator, is parsed back into the two; so is a name without package and without colons.\<close>

theorem svc_id_round_trip:
  assumes "length (Package svc) + length (Name svc) + 2 < UPK_MAX_STRING_LEN"
    and "CHR '':'' \<notin> set (Package svc)" and "Package svc = '''' \<longrightarrow> CHR '':'' \<notin> set (Name svc)"
  shows "\<exists>key. upk_svc_id svc = Inr key \<and>
    Package (snd (upk_parse_svc_id key upk_svc_desc_clear)) = Package svc \<and>
    Name (snd (upk_parse_svc_id key upk_svc_desc_clear)) = Name svc"
proof (cases "Package svc = ''''")
  case True
  have "upk_svc_id svc = Inr (Name svc)"
    using assms(1) True by (simp add: upk_svc_id_def upk_concat_svcid_def UPK_MAX_STRING_LEN_def)
  with True assms show ?thesis
    by (simp add: upk_parse_svc_id_def strstr_no_colons upk_svc_desc_clear_def UPK_MAX_STRING_LEN_def)
next
  case False
  with assms(1) have "upk_svc_id svc = Inr (Package svc @ ''::'' @ Name svc)"
    unfolding upk_svc_id_def by (rule concat_svcid_fits)
  with assms(1,2) show ?thesis
    by (simp add: upk_parse_svc_id_def strstr_colons UPK_MAX_STRING_LEN_def)
qed

lemma svc_id_round_trip_witness:
  "\<exists>key. upk_svc_id (upk_svc_desc_clear\<lparr>Package := ''web'', Name := ''httpd''\<rparr>) = Inr key \<and>
    Name (snd (upk_parse_svc_id key upk_svc_desc_clear)) = ''httpd''"
  using svc_id_round_trip [of "upk_svc_desc_clear\<lparr>Package := ''web'', Name := ''httpd''\<rparr>"]
  by (auto simp: UPK_MAX_STRING_LEN_def)

end
