(* ===== verification/Buddy_Ring.thy ===== *)
theory Buddy_Ring
  imports Upk_Uuid
begin

text \<open>
  The event log of the buddy: the types of \<open>controller/ctrl_protocol.h\<close> and the ring buffer of
  \<open>controller/buddy.c\<close>.  The circular list is the list of its nodes in the order of the \<open>next\<close> pointers,
  starting at \<open>info_ringbuffer\<close>; a node is its address and its content, and following \<open>next\<close> rotates the
  list.

  The locale \<open>event_log\<close> is what the rest of the buddy relies on: a log of bounded capacity that keeps
  the latest events in order.  It is interpreted on the ring buffer at the end.
\<close>

section \<open>Types\<close>

datatype buddy_cmnd =
    UPK_CTRL_NONE | UPK_CTRL_ACK | UPK_CTRL_SHUTDOWN | UPK_CTRL_STATUS_REQ | UPK_CTRL_ACTION_START
  | UPK_CTRL_ACTION_STOP | UPK_CTRL_ACTION_RELOAD | UPK_CTRL_ACTION_RUNONCE
  | UPK_CTRL_CUSTOM_ACTION nat | UPK_CTRL_SIGNAL nat | UPK_CTRL_UNKNOWN u32

text \<open>The value on the wire: custom actions are numbered from 0 to 31, signals from 1 to 32.\<close>

definition cmnd_of_word :: "u32 \<Rightarrow> buddy_cmnd" where
  "cmnd_of_word w =
     (let n = unat w in
      if n = 0 then UPK_CTRL_NONE else if n = 1 then UPK_CTRL_ACK
      else if n = 2 then UPK_CTRL_SHUTDOWN else if n = 3 then UPK_CTRL_STATUS_REQ
      else if n = 4 then UPK_CTRL_ACTION_START else if n = 5 then UPK_CTRL_ACTION_STOP
      else if n = 6 then UPK_CTRL_ACTION_RELOAD else if n = 7 then UPK_CTRL_ACTION_RUNONCE
      else if 8 \<le> n \<and> n \<le> 39 then UPK_CTRL_CUSTOM_ACTION (n - 8)
      else if 40 \<le> n \<and> n \<le> 71 then UPK_CTRL_SIGNAL (n - 40 + 1)
      else UPK_CTRL_UNKNOWN w)"

fun word_of_cmnd :: "buddy_cmnd \<Rightarrow> u32" where
  "word_of_cmnd UPK_CTRL_NONE = 0"
| "word_of_cmnd UPK_CTRL_ACK = 1"
| "word_of_cmnd UPK_CTRL_SHUTDOWN = 2"
| "word_of_cmnd UPK_CTRL_STATUS_REQ = 3"
| "word_of_cmnd UPK_CTRL_ACTION_START = 4"
| "word_of_cmnd UPK_CTRL_ACTION_STOP = 5"
| "word_of_cmnd UPK_CTRL_ACTION_RELOAD = 6"
| "word_of_cmnd UPK_CTRL_ACTION_RUNONCE = 7"
| "word_of_cmnd (UPK_CTRL_CUSTOM_ACTION n) = of_nat (8 + n)"
| "word_of_cmnd (UPK_CTRL_SIGNAL n) = of_nat (39 + n)"
| "word_of_cmnd (UPK_CTRL_UNKNOWN w) = w"

datatype buddy_runstate = BUDDY_UNKNOWN | BUDDY_STOPPED | BUDDY_RUNNING | BUDDY_RANONCE

text \<open>The entries of the log.  The \<open>siginfo_t\<close> the kernel hands to the signal handler is copied whole
  and never looked into.\<close>

record buddy_info =
  populated :: bool
  service_pid :: int
  wait_pid :: int
  command :: buddy_cmnd
  bi_desired_state :: buddy_runstate
  siginfo :: nat
  wait_status :: int
  timestamp :: int
  remaining :: nat
  bi_uuid :: upk_uuid
  slot_n :: nat

text \<open>\<open>memset\<close> of everything before \<open>slot_n\<close>; \<open>calloc\<close> clears that too.\<close>

definition zeroed :: "nat \<Rightarrow> buddy_info" where
  "zeroed n =
     \<lparr>populated = False, service_pid = 0, wait_pid = 0, command = UPK_CTRL_NONE,
      bi_desired_state = BUDDY_UNKNOWN, siginfo = 0, wait_status = 0, timestamp = 0, remaining = 0,
      bi_uuid = zero_uuid, slot_n = n\<rparr>"

type_synonym node = "nat \<times> buddy_info"

record ring =
  rb_nodes :: "node list"
  rb_pending :: nat

section \<open>Operations\<close>

text \<open>\<open>info_ringbuffer->member = v\<close>: an update of the current node.\<close>

definition at_current :: "(buddy_info \<Rightarrow> buddy_info) \<Rightarrow> ring \<Rightarrow> ring" where
  "at_current f r =
     r\<lparr>rb_nodes := (case rb_nodes r of [] \<Rightarrow> [] | (a, i) # ns \<Rightarrow> (a, f i) # ns)\<rparr>"

definition current :: "ring \<Rightarrow> buddy_info" where
  "current r = snd (hd (rb_nodes r))"

definition current_addr :: "ring \<Rightarrow> nat" where
  "current_addr r = fst (hd (rb_nodes r))"

text \<open>\<open>info_ringbuffer = info_ringbuffer->next\<close> and \<open>info_ringbuffer = thisp\<close>.\<close>

definition ring_next :: "ring \<Rightarrow> ring" where
  "ring_next r = r\<lparr>rb_nodes := rotate1 (rb_nodes r)\<rparr>"

definition ring_goto :: "nat \<Rightarrow> ring \<Rightarrow> ring" where
  "ring_goto a r =
     r\<lparr>rb_nodes := dropWhile (\<lambda>n. fst n \<noteq> a) (rb_nodes r) @ takeWhile (\<lambda>n. fst n \<noteq> a) (rb_nodes r)\<rparr>"

definition buddy_zero_info :: "ring \<Rightarrow> ring" where
  "buddy_zero_info r =
     (let r = (if populated (current r)
               then r\<lparr>rb_pending := (if rb_pending r \<le> 1 then 0 else rb_pending r - 1)\<rparr> else r)
      in at_current (\<lambda>i. zeroed (slot_n i)) r)"

text \<open>What \<open>buddy_record_state\<close> copies from the globals and the clock.\<close>

record snapshot =
  sn_uuid :: upk_uuid
  sn_pid :: int
  sn_command :: buddy_cmnd
  sn_desired :: buddy_runstate
  sn_time :: int

definition buddy_record_state :: "nat \<Rightarrow> snapshot \<Rightarrow> ring \<Rightarrow> ring" where
  "buddy_record_state sz sn r =
     (let r = buddy_zero_info r;
          r = r\<lparr>rb_pending := (if sz \<le> rb_pending r then sz else rb_pending r + 1)\<rparr> in
      at_current (\<lambda>i. i\<lparr>bi_uuid := sn_uuid sn, service_pid := sn_pid sn, command := sn_command sn,
        bi_desired_state := sn_desired sn, timestamp := sn_time sn, populated := True\<rparr>) r)"

text \<open>\<open>buddy_init_ringbuffer\<close>: node \<open>n\<close> is allocated at address \<open>n\<close>, the number goes to the node before
  it, and the last node, which becomes the current one, is linked to the first.\<close>

function init_nodes :: "nat \<Rightarrow> nat \<Rightarrow> node list \<Rightarrow> node \<Rightarrow> node list" where
  "init_nodes sz n done cur =
     (if n < sz
      then init_nodes sz (n + 1) (done @ [(fst cur, (snd cur)\<lparr>slot_n := n\<rparr>)]) (n, zeroed 0)
      else cur # done)"
  by pat_completeness auto
termination by (relation "measure (\<lambda>(sz, n, _, _). sz - n)") auto

declare init_nodes.simps [simp del]

definition buddy_init_ringbuffer :: "nat \<Rightarrow> ring" where
  "buddy_init_ringbuffer sz = \<lparr>rb_nodes = init_nodes sz 1 [] (0, zeroed 0), rb_pending = 0\<rparr>"

text \<open>\<open>buddy_free_ringbuffer\<close>: the addresses freed, oldest first; the node must not be free yet.\<close>

fun free_nodes :: "nat \<Rightarrow> nat list \<Rightarrow> node list \<Rightarrow> nat list cres" where
  "free_nodes 0 freed ns = Inr freed"
| "free_nodes (Suc n) freed ns =
     (if fst (hd ns) \<in> set freed then Inl Use_after_free
      else free_nodes n (freed @ [fst (hd ns)]) (rotate1 ns))"

definition buddy_free_ringbuffer :: "nat \<Rightarrow> ring \<Rightarrow> nat list cres" where
  "buddy_free_ringbuffer sz r = free_nodes sz [] (rb_nodes r)"

section \<open>Well-formed rings\<close>

text \<open>The events held, oldest first: the populated nodes in ring order.\<close>

definition events :: "ring \<Rightarrow> buddy_info list" where
  "events r = filter populated (map snd (rb_nodes r))"

text \<open>The populated nodes are the ones just before the current node, and they are counted.\<close>

definition ring_ok :: "nat \<Rightarrow> ring \<Rightarrow> bool" where
  "ring_ok sz r \<longleftrightarrow>
     0 < sz \<and> length (rb_nodes r) = sz \<and> distinct (map fst (rb_nodes r)) \<and>
     rb_pending r = length (events r) \<and>
     list_all populated (dropWhile (\<lambda>i. \<not> populated i) (map snd (rb_nodes r)))"

lemma zeroed_sel [simp]: "\<not> populated (zeroed n)" "slot_n (zeroed n) = n"
  by (simp_all add: zeroed_def)

text \<open>What a log entry says, whatever slot it is kept in and whenever it is sent.\<close>

record event = snapshot +
  ev_wait_pid :: int
  ev_siginfo :: nat
  ev_wait_status :: int

definition event_of :: "buddy_info \<Rightarrow> event" where
  "event_of i =
     \<lparr>sn_uuid = bi_uuid i, sn_pid = service_pid i, sn_command = command i,
      sn_desired = bi_desired_state i, sn_time = timestamp i, ev_wait_pid = wait_pid i,
      ev_siginfo = siginfo i, ev_wait_status = wait_status i\<rparr>"

definition logged :: "ring \<Rightarrow> event list" where
  "logged r = map event_of (events r)"

text \<open>Every caller of \<open>buddy_record_state\<close> then fills in what it knows of a waited process, or leaves
  the zeros, and steps to the next node.\<close>

definition log_event :: "nat \<Rightarrow> ring \<Rightarrow> event \<Rightarrow> ring" where
  "log_event sz r e =
     ring_next (at_current
       (\<lambda>i. i\<lparr>siginfo := ev_siginfo e, wait_pid := ev_wait_pid e, wait_status := ev_wait_status e\<rparr>)
       (buddy_record_state sz (snapshot.truncate e) r))"

lemma split_unpopulated:
  "list_all P (dropWhile (\<lambda>i. \<not> P i) (map f xs)) \<Longrightarrow>
     \<exists>us ps. xs = us @ ps \<and> (\<forall>n\<in>set us. \<not> P (f n)) \<and> (\<forall>n\<in>set ps. P (f n))"
proof (induction xs)
  case (Cons x xs)
  show ?case
  proof (cases "P (f x)")
    case True
    with Cons.prems show ?thesis
      by (intro exI [of _ "[]"] exI [of _ "x # xs"]) (simp add: list_all_iff)
  next
    case False
    with Cons obtain us ps where
      "xs = us @ ps" "\<forall>n\<in>set us. \<not> P (f n)" "\<forall>n\<in>set ps. P (f n)" by auto
    with False show ?thesis
      by (intro exI [of _ "x # us"] exI [of _ ps]) simp
  qed
qed simp

lemma filter_parts:
  assumes "\<forall>n\<in>set us. \<not> P (f n)" and "\<forall>n\<in>set ps. P (f n)"
  shows "filter P (map f (us @ ps)) = map f ps"
proof -
  have "filter P (map f us) = []"
    using assms(1) by (induction us) auto
  moreover have "filter P (map f ps) = map f ps"
    using assms(2) by (induction ps) auto
  ultimately show ?thesis by simp
qed

lemma ring_okE:
  assumes "ring_ok sz r"
  obtains us ps where "rb_nodes r = us @ ps" and "\<forall>n\<in>set us. \<not> populated (snd n)"
    and "\<forall>n\<in>set ps. populated (snd n)" and "events r = map snd ps"
    and "rb_pending r = length ps" and "length us + length ps = sz"
    and "distinct (map fst (us @ ps))" and "0 < sz"
proof -
  obtain us ps where r: "rb_nodes r = us @ ps" "\<forall>n\<in>set us. \<not> populated (snd n)"
    "\<forall>n\<in>set ps. populated (snd n)"
    using assms split_unpopulated [of populated snd "rb_nodes r"] by (auto simp: ring_ok_def)
  moreover have "events r = map snd ps"
    unfolding events_def r(1) using r(2,3) by (rule filter_parts)
  ultimately show ?thesis
    using assms by (intro that [of us ps]) (simp_all add: ring_ok_def)
qed

lemma ring_okI:
  assumes "rb_nodes r = us @ ps" and "\<forall>n\<in>set us. \<not> populated (snd n)"
    and "\<forall>n\<in>set ps. populated (snd n)"
    and "rb_pending r = length ps" and "length us + length ps = sz"
    and "distinct (map fst (us @ ps))" and "0 < sz"
  shows "ring_ok sz r" and "events r = map snd ps"
proof -
  show ev: "events r = map snd ps"
    unfolding events_def assms(1) using assms(2,3) by (rule filter_parts)
  have "dropWhile (\<lambda>i. \<not> populated i) (map snd us @ map snd ps) =
      dropWhile (\<lambda>i. \<not> populated i) (map snd ps)"
    using assms(2) by (subst dropWhile_append2) auto
  moreover have "dropWhile (\<lambda>i. \<not> populated i) (map snd ps) = map snd ps"
    using assms(3) by (cases ps) auto
  ultimately show "ring_ok sz r"
    using assms ev by (simp add: ring_ok_def list_all_iff)
qed

lemma log_event_step:
  assumes "rb_nodes r = (a, i) # ns"
  obtains i' where "rb_nodes (log_event sz r e) = ns @ [(a, i')]" and "populated i'"
    and "event_of i' = e"
    and "rb_pending (log_event sz r e) =
      (let p = (if populated i then (if rb_pending r \<le> 1 then 0 else rb_pending r - 1) else rb_pending r)
       in if sz \<le> p then sz else p + 1)"
proof -
  let ?sn = "snapshot.truncate e"
  let ?i = "(zeroed (slot_n i))\<lparr>bi_uuid := sn_uuid ?sn, service_pid := sn_pid ?sn,
      command := sn_command ?sn, bi_desired_state := sn_desired ?sn, timestamp := sn_time ?sn,
      populated := True, siginfo := ev_siginfo e, wait_pid := ev_wait_pid e,
      wait_status := ev_wait_status e\<rparr>"
  show ?thesis
  proof
    show "rb_nodes (log_event sz r e) = ns @ [(a, ?i)]"
      using assms
      by (simp add: log_event_def ring_next_def at_current_def buddy_record_state_def
          buddy_zero_info_def current_def Let_def)
    show "populated ?i" by simp
    show "event_of ?i = e"
      by (cases e) (simp add: event_of_def snapshot.truncate_def)
    show "rb_pending (log_event sz r e) =
      (let p = (if populated i then (if rb_pending r \<le> 1 then 0 else rb_pending r - 1) else rb_pending r)
       in if sz \<le> p then sz else p + 1)"
      using assms
      by (simp add: log_event_def ring_next_def at_current_def buddy_record_state_def
          buddy_zero_info_def current_def Let_def)
  qed
qed

section \<open>The log as a bounded queue\<close>

locale event_log =
  fixes log :: "'r \<Rightarrow> 'e \<Rightarrow> 'r"
    and entries :: "'r \<Rightarrow> 'e list"
    and cap :: nat
    and ok :: "'r \<Rightarrow> bool"
  assumes ok_log: "ok r \<Longrightarrow> ok (log r e)"
    and entries_log: "ok r \<Longrightarrow>
      entries (log r e) = drop (length (entries r) + 1 - cap) (entries r) @ [e]"
    and entries_cap: "ok r \<Longrightarrow> length (entries r) \<le> cap"
    and cap_pos: "ok r \<Longrightarrow> 0 < cap"
begin

text \<open>After any number of records the log holds the latest \<open>cap\<close> events, in order.\<close>

lemma ok_foldl: "ok r \<Longrightarrow> ok (foldl log r es)"
  by (induction es arbitrary: r) (simp_all add: ok_log)

lemma entries_foldl:
  "ok r \<Longrightarrow> entries (foldl log r es) =
     drop (length (entries r @ es) - cap) (entries r @ es)"
proof (induction es arbitrary: r)
  case Nil
  then show ?case using entries_cap [of r] by simp
next
  case (Cons e es)
  have len: "length (entries r) \<le> cap" and pos: "0 < cap"
    using Cons.prems entries_cap cap_pos by blast+
  show ?case
  proof (cases "length (entries r) < cap")
    case True
    then have "entries (log r e) = entries r @ [e]"
      using entries_log [OF Cons.prems] by simp
    then show ?thesis
      using Cons.IH [OF ok_log [OF Cons.prems], of e] by simp
  next
    case False
    with len pos obtain x xs where xs: "entries r = x # xs" and c: "cap = Suc (length xs)"
      by (cases "entries r") auto
    then have "entries (log r e) = xs @ [e]"
      using entries_log [OF Cons.prems] by simp
    then show ?thesis
      using Cons.IH [OF ok_log [OF Cons.prems], of e] by (simp add: xs c)
  qed
qed

lemma newest_kept: "ok r \<Longrightarrow> last (entries (log r e)) = e"
  by (simp add: entries_log)

end

lemma ring_ok_log_event:
  assumes "ring_ok sz r"
  shows "ring_ok sz (log_event sz r e)"
    and "logged (log_event sz r e) = drop (length (logged r) + 1 - sz) (logged r) @ [e]"
proof -
  obtain us ps where r: "rb_nodes r = us @ ps" "\<forall>n\<in>set us. \<not> populated (snd n)"
    "\<forall>n\<in>set ps. populated (snd n)" "events r = map snd ps" "rb_pending r = length ps"
    "length us + length ps = sz" "distinct (map fst (us @ ps))" "0 < sz"
    using assms by (rule ring_okE) blast
  have "ring_ok sz (log_event sz r e) \<and>
    logged (log_event sz r e) = drop (length (logged r) + 1 - sz) (logged r) @ [e]"
  proof (cases us)
    case (Cons u us')
    obtain a i where u: "u = (a, i)" by (cases u)
    have np: "\<not> populated i" using r(2) Cons u by force
    obtain i' where i': "rb_nodes (log_event sz r e) = us' @ ps @ [(a, i')]" "populated i'"
      "event_of i' = e" "rb_pending (log_event sz r e) = length ps + 1"
      using log_event_step [of r a i "us' @ ps" sz e] r Cons u np by (auto simp: Let_def)
    have "ring_ok sz (log_event sz r e)" "events (log_event sz r e) = map snd (ps @ [(a, i')])"
      using ring_okI [of "log_event sz r e" us' "ps @ [(a, i')]" sz] i' r Cons u by auto
    moreover have "length ps + 1 \<le> sz"
      using r(6) Cons by simp
    ultimately show ?thesis
      using i'(3) by (simp add: logged_def r(4))
  next
    case Nil
    then obtain a i ps' where p: "ps = (a, i) # ps'" using r(6,8) by (cases ps) auto
    have pop: "populated i" using r(3) p by force
    obtain i' where i': "rb_nodes (log_event sz r e) = ps' @ [(a, i')]" "populated i'"
      "event_of i' = e" and pend: "rb_pending (log_event sz r e) =
        (let p = (if populated i then (if rb_pending r \<le> 1 then 0 else rb_pending r - 1) else rb_pending r)
         in if sz \<le> p then sz else p + 1)"
      by (rule log_event_step [of r a i ps' sz e]) (use r(1) Nil p in simp_all)
    have "rb_pending r = Suc (length ps')" "sz = Suc (length ps')"
      using r(5,6) Nil p by simp_all
    then have i'4: "rb_pending (log_event sz r e) = length ps"
      using pend pop p by (cases ps') simp_all
    have "ring_ok sz (log_event sz r e)" "events (log_event sz r e) = map snd (ps' @ [(a, i')])"
      using ring_okI [of "log_event sz r e" "[]" "ps' @ [(a, i')]" sz] i' i'4 r Nil p by auto
    then show ?thesis
      using i'(3) r(6) Nil p by (simp add: logged_def r(4))
  qed
  then show "ring_ok sz (log_event sz r e)"
    and "logged (log_event sz r e) = drop (length (logged r) + 1 - sz) (logged r) @ [e]"
    by simp_all
qed

interpretation rlog: event_log "log_event sz" logged sz "ring_ok sz" for sz
proof
  fix r e
  assume ok: "ring_ok sz r"
  show "ring_ok sz (log_event sz r e)"
    and "logged (log_event sz r e) = drop (length (logged r) + 1 - sz) (logged r) @ [e]"
    using ok by (rule ring_ok_log_event)+
  show "length (logged r) \<le> sz" "0 < sz"
    using ok by (auto simp: logged_def elim!: ring_okE)
qed

section \<open>Initialization and release\<close>

lemma init_nodes_shape:
  assumes "1 \<le> n" and "n \<le> sz" and "map fst done = [0..<n - 1]" and "fst cur = n - 1"
    and "map (slot_n \<circ> snd) done = [1..<n]" and "slot_n (snd cur) = 0"
    and "\<forall>x \<in> set (cur # done). \<not> populated (snd x)"
  shows "map fst (init_nodes sz n done cur) = (sz - 1) # [0..<sz - 1] \<and>
    map (slot_n \<circ> snd) (init_nodes sz n done cur) = 0 # [1..<sz] \<and>
    (\<forall>x \<in> set (init_nodes sz n done cur). \<not> populated (snd x))"
  using assms
proof (induction sz n "done" cur rule: init_nodes.induct)
  case (1 sz n "done" cur)
  show ?case
  proof (cases "n < sz")
    case True
    have "[0..<n] = [0..<n - 1] @ [n - 1]" "[1..<n + 1] = [1..<n] @ [n]"
      using 1(2) by (cases n; simp)+
    with 1 True show ?thesis
      by (subst (1 2 3) init_nodes.simps) (simp add: comp_def)
  next
    case False
    then have "n = sz" using 1(3) by simp
    with 1 show ?thesis
      by (subst (1 2 3) init_nodes.simps) (simp add: comp_def)
  qed
qed

lemma init_ring_ok:
  assumes "0 < sz"
  shows "ring_ok sz (buddy_init_ringbuffer sz)" and "logged (buddy_init_ringbuffer sz) = []"
proof -
  let ?ns = "init_nodes sz 1 [] (0, zeroed 0)"
  have shape: "map fst ?ns = (sz - 1) # [0..<sz - 1]" "\<forall>x \<in> set ?ns. \<not> populated (snd x)"
    using init_nodes_shape [of 1 sz "[]" "(0, zeroed 0)"] assms by simp_all
  have "length (map fst ?ns) = sz" "distinct (map fst ?ns)"
    unfolding shape(1) using assms by auto
  then show "ring_ok sz (buddy_init_ringbuffer sz)" "logged (buddy_init_ringbuffer sz) = []"
    using ring_okI [of "buddy_init_ringbuffer sz" ?ns "[]" sz] shape(2) assms
    by (simp_all add: buddy_init_ringbuffer_def logged_def)
qed

lemma free_nodes_rotate:
  "distinct (map fst (xs @ ys)) \<Longrightarrow>
     free_nodes (length xs) (map fst ys) (xs @ ys) = Inr (map fst (ys @ xs))"
proof (induction xs arbitrary: ys)
  case (Cons x xs)
  then show ?case
    using Cons.IH [of "ys @ [x]"] by (simp add: image_iff)
qed simp

section \<open>Properties\<close>

text \<open>C4: a freshly initialized ring buffer of positive size keeps, after any sequence of events, exactly
  the latest events that fit, oldest first, and \<open>ringbuffer_pending\<close> counts them.\<close>

theorem ring_keeps_latest:
  assumes "0 < sz"
  shows "logged (foldl (log_event sz) (buddy_init_ringbuffer sz) es) = drop (length es - sz) es \<and>
    rb_pending (foldl (log_event sz) (buddy_init_ringbuffer sz) es) = min sz (length es)"
proof
  let ?r = "foldl (log_event sz) (buddy_init_ringbuffer sz) es"
  show log: "logged ?r = drop (length es - sz) es"
    using rlog.entries_foldl [OF init_ring_ok(1) [OF assms], of es] init_ring_ok(2) [OF assms]
    by simp
  have "rb_pending ?r = length (logged ?r)"
    using rlog.ok_foldl [OF init_ring_ok(1) [OF assms], of es] by (simp add: ring_ok_def logged_def)
  then show "rb_pending ?r = min sz (length es)"
    by (simp add: log min_def)
qed

lemma ring_keeps_latest_witness:
  "\<forall>e1 e2 e3. logged (foldl (log_event 2) (buddy_init_ringbuffer 2) [e1, e2, e3]) = [e2, e3]"
proof (intro allI)
  fix e1 e2 e3
  show "logged (foldl (log_event 2) (buddy_init_ringbuffer 2) [e1, e2, e3]) = [e2, e3]"
    using ring_keeps_latest [of 2 "[e1, e2, e3]"] by simp
qed

text \<open>\<open>buddy_free_ringbuffer\<close> frees every node of the ring exactly once and touches none after that.\<close>

theorem free_ring_once:
  assumes "ring_ok sz r"
  shows "buddy_free_ringbuffer sz r = Inr (map fst (rb_nodes r))"
  using assms free_nodes_rotate [of "rb_nodes r" "[]"]
  by (simp add: buddy_free_ringbuffer_def ring_ok_def)

lemma free_ring_once_witness:
  "buddy_free_ringbuffer 3 (buddy_init_ringbuffer 3) = Inr [2, 0, 1]"
  using free_ring_once [OF init_ring_ok(1), of 3]
    init_nodes_shape [of 1 3 "[]" "(0, zeroed 0)"]
  by (simp add: buddy_init_ringbuffer_def upt_rec)

end
