(* ===== verification/Buddy.thy ===== *)
theory Buddy
  imports Buddy_Ring
begin

text \<open>
  The buddy, \<open>controller/buddy.c\<close>: the process that starts one service, restarts it when it dies, and
  reports to the controller.  The record \<open>buddy\<close> holds the static variables of the file (those inside
  functions included), the signal mask of the process and a trace of its visible actions.  What the
  operating system answers is input: the record also holds the outcomes of the calls still to come,
  each of which consumes the first one.  The clock does not move within a handler.
\<close>

section \<open>State\<close>

text \<open>The mask \<open>sigprocmask\<close> installs: nothing, \<open>SIGCHLD\<close>, or every signal.\<close>

datatype sigmask = Unblocked | Chld_blocked | All_blocked

text \<open>What \<open>stat\<close> and then \<open>fork\<close> say about an action script: there is no such file, it is not a regular one,
  not executable, or a script.  \<open>fork\<close> is reached in the last case, and in the first one when the mode
  an earlier \<open>stat\<close> left behind is that of a script.  Then the results of \<open>select\<close> followed by \<open>read\<close> or
  \<open>write\<close> on the connection; a message is read or written whole.\<close>

datatype script_kind = Other_file | Plain_file | Script
datatype exec_outcome = Missing int | Not_regular | Not_executable | Forked int
datatype read_outcome = Rd_timeout | Rd_eof | Rd_error | Rd_cmnd buddy_cmnd
datatype write_outcome = Wr_timeout | Wr_zero | Wr_error | Wr_ok

type_synonym waited = "int \<times> int"

datatype effect = Exec string | Kill int nat | Sent buddy_info | Nap

record buddy_cfg =
  ringbuffer_size :: nat
  reconnect_retries :: int
  user_ratelimit :: u32
  randomize_ratelimit :: bool
  runaway_ratelimit :: u32
  user_max_restarts :: u32
  user_restart_window :: u32
  kill_timeout :: int
  buddy_uuid :: upk_uuid

record buddy =
  info_ringbuffer :: ring
  proc_pid :: int
  last_command :: buddy_cmnd
  this_command :: buddy_cmnd
  buddy_shutdown :: int
  desired_state :: buddy_runstate
  chld_terminated :: bool
  respawn_timestamp :: int
  rapid_respawn_count :: u32
  force_ratelimit :: bool
  buddy_ctrlfd :: int
  read_ncount :: int
  write_ncount :: int
  flush_ack :: buddy_cmnd
  jitter :: u32
  stop_n :: u8
  exec_stat :: script_kind
  mask :: sigmask
  trace :: "effect list"
  now :: int
  execs :: "string \<Rightarrow> exec_outcome"
  reads :: "read_outcome list"
  writes :: "write_outcome list"
  connects :: "(int \<times> bool) list"
  naps :: "waited list list"

definition SIGHUP :: int where "SIGHUP = 1"
definition SIGKILL :: nat where "SIGKILL = 9"
definition SIGTERM :: nat where "SIGTERM = 15"
definition SIGCHLD :: int where "SIGCHLD = 17"

text \<open>The state after \<open>buddy_init\<close>; the outcomes of later calls are open.\<close>

definition buddy_init :: "buddy_cfg \<Rightarrow> int \<Rightarrow> buddy" where
  "buddy_init cfg t =
     \<lparr>info_ringbuffer = buddy_init_ringbuffer (ringbuffer_size cfg), proc_pid = 0,
      last_command = UPK_CTRL_NONE, this_command = UPK_CTRL_NONE, buddy_shutdown = 0,
      desired_state = BUDDY_STOPPED, chld_terminated = False, respawn_timestamp = 0,
      rapid_respawn_count = 0, force_ratelimit = False, buddy_ctrlfd = - 1, read_ncount = 0,
      write_ncount = 0, flush_ack = UPK_CTRL_NONE, jitter = 0, stop_n = 0, exec_stat = Other_file, mask = Unblocked,
      trace = [], now = t, execs = (\<lambda>_. Not_regular), reads = [], writes = [], connects = [],
      naps = []\<rparr>"

definition emit :: "effect \<Rightarrow> buddy \<Rightarrow> buddy" where
  "emit e b = b\<lparr>trace := trace b @ [e]\<rparr>"

section \<open>Signals\<close>

text \<open>\<open>buddy_record_state\<close> and the step to the next node.\<close>

definition record_event :: "buddy_cfg \<Rightarrow> int \<Rightarrow> nat \<Rightarrow> int \<Rightarrow> buddy \<Rightarrow> buddy" where
  "record_event cfg wpid info status b =
     b\<lparr>info_ringbuffer := log_event (ringbuffer_size cfg) (info_ringbuffer b)
        \<lparr>sn_uuid = buddy_uuid cfg, sn_pid = proc_pid b, sn_command = last_command b,
         sn_desired = desired_state b, sn_time = now b, ev_wait_pid = wpid, ev_siginfo = info,
         ev_wait_status = status\<rparr>\<rparr>"

text \<open>One turn of the \<open>waitpid\<close> loop, and the handler.  The list holds the children \<open>waitpid\<close> returns.\<close>

definition reap :: "buddy_cfg \<Rightarrow> nat \<Rightarrow> buddy \<Rightarrow> waited \<Rightarrow> buddy" where
  "reap cfg info b w =
     (let b = (if fst w = proc_pid b then b\<lparr>chld_terminated := True, proc_pid := 0\<rparr> else b)
      in record_event cfg (fst w) info (snd w) b)"

definition sa_sigaction_func :: "buddy_cfg \<Rightarrow> int \<Rightarrow> nat \<Rightarrow> waited list \<Rightarrow> buddy \<Rightarrow> buddy" where
  "sa_sigaction_func cfg signal info ws b =
     (if signal = SIGCHLD then foldl (reap cfg info) b (takeWhile (\<lambda>w. 0 < fst w) ws)
      else b\<lparr>buddy_shutdown := signal\<rparr>)"

text \<open>\<open>nanosleep\<close>: a child that dies meanwhile interrupts it, unless the signal is blocked.\<close>

definition nanosleep :: "buddy_cfg \<Rightarrow> buddy \<Rightarrow> buddy" where
  "nanosleep cfg b =
     (case naps b of
        [] \<Rightarrow> emit Nap b
      | ws # rest \<Rightarrow>
          let b = emit Nap (b\<lparr>naps := rest\<rparr>) in
          if mask b = Unblocked then sa_sigaction_func cfg SIGCHLD 0 ws b else b)"

definition block_chld :: "sigmask \<Rightarrow> sigmask" where
  "block_chld m = (if m = Unblocked then Chld_blocked else m)"

section \<open>Actions\<close>

text \<open>Everything is blocked until the fork is done; the two early returns leave it so.  The \<open>struct stat\<close> is
  static, starts out as zero, and keeps what it had when \<open>stat\<close> fails, which is not looked at.  \<open>Exec\<close> is
  the attempt of the child to run the script.\<close>

definition stat_script :: "exec_outcome \<Rightarrow> script_kind \<Rightarrow> script_kind" where
  "stat_script out old =
     (case out of Missing _ \<Rightarrow> old | Not_regular \<Rightarrow> Other_file | Not_executable \<Rightarrow> Plain_file | Forked _ \<Rightarrow> Script)"

definition fork_result :: "exec_outcome \<Rightarrow> int" where
  "fork_result out = (case out of Missing pid \<Rightarrow> pid | Forked pid \<Rightarrow> pid | _ \<Rightarrow> 0)"

definition buddy_exec_action :: "string \<Rightarrow> buddy \<Rightarrow> int \<times> buddy" where
  "buddy_exec_action path b =
     (let kind = stat_script (execs b path) (exec_stat b); b = b\<lparr>exec_stat := kind\<rparr> in
      if kind \<noteq> Script then (0, b\<lparr>mask := All_blocked\<rparr>)
      else (fork_result (execs b path), emit (Exec path) b))"

lemma exec_action_forked:
  "execs b path = Forked pid \<Longrightarrow> buddy_exec_action path b = (pid, emit (Exec path) (b\<lparr>exec_stat := Script\<rparr>))"
  by (simp add: buddy_exec_action_def stat_script_def fork_result_def)

definition buddy_start_proc :: "buddy_cfg \<Rightarrow> buddy \<Rightarrow> bool \<times> buddy" where
  "buddy_start_proc cfg b =
     (if proc_pid b = 0 then
        let oldset = mask b;
            b = b\<lparr>mask := block_chld oldset\<rparr>;
            count = (if now b < respawn_timestamp b + uint (user_restart_window cfg)
                     then rapid_respawn_count b + 1 else 0);
            b = b\<lparr>rapid_respawn_count := count\<rparr> in
        if user_max_restarts cfg < count then (False, b\<lparr>force_ratelimit := True\<rparr>)
        else
          let (pid, b) = buddy_exec_action ''actions/start'' b;
              b = b\<lparr>proc_pid := pid, respawn_timestamp := now b\<rparr>;
              b = record_event cfg 0 0 0 b in
          (True, b\<lparr>mask := oldset\<rparr>)
      else (True, b))"

text \<open>Handlers do not touch the counter of \<open>buddy_stop_proc\<close>.\<close>

lemma reap_frame [simp]:
  "stop_n (reap cfg info b w) = stop_n b" "mask (reap cfg info b w) = mask b"
  "desired_state (reap cfg info b w) = desired_state b"
  by (simp_all add: reap_def record_event_def Let_def)

lemma sigaction_frame [simp]:
  "stop_n (sa_sigaction_func cfg sig info ws b) = stop_n b"
  "mask (sa_sigaction_func cfg sig info ws b) = mask b"
  "desired_state (sa_sigaction_func cfg sig info ws b) = desired_state b"
proof -
  have "stop_n (foldl (reap cfg info) b ws) = stop_n b \<and> mask (foldl (reap cfg info) b ws) = mask b \<and>
      desired_state (foldl (reap cfg info) b ws) = desired_state b" for ws
    by (induction ws arbitrary: b) simp_all
  then show "stop_n (sa_sigaction_func cfg sig info ws b) = stop_n b"
    "mask (sa_sigaction_func cfg sig info ws b) = mask b"
    "desired_state (sa_sigaction_func cfg sig info ws b) = desired_state b"
    by (simp_all add: sa_sigaction_func_def)
qed

lemma nanosleep_frame [simp]:
  "stop_n (nanosleep cfg b) = stop_n b" "mask (nanosleep cfg b) = mask b"
  "desired_state (nanosleep cfg b) = desired_state b"
  by (simp_all add: nanosleep_def emit_def Let_def split: list.splits)

lemma unat_suc_less: "(n :: u8) < m \<Longrightarrow> unat (n + 1) = unat n + 1"
  using unsigned_less [where 'a = nat, of m] by (simp add: unat_word_ariths word_less_nat_alt)

text \<open>\<open>while (proc_pid && n++ < lim) nanosleep(...)\<close> with the static 8-bit counter, which wraps.\<close>

function wait_loop :: "buddy_cfg \<Rightarrow> u8 \<Rightarrow> buddy \<Rightarrow> buddy" where
  "wait_loop cfg lim b =
     (if proc_pid b = 0 then b
      else if stop_n b < lim then wait_loop cfg lim (nanosleep cfg (b\<lparr>stop_n := stop_n b + 1\<rparr>))
      else b\<lparr>stop_n := stop_n b + 1\<rparr>)"
  by pat_completeness auto

termination
  by (relation "measure (\<lambda>(cfg, lim, b). unat lim - unat (stop_n b))")
     (auto simp: unat_suc_less word_less_nat_alt)

declare wait_loop.simps [simp del]

definition buddy_stop_proc :: "buddy_cfg \<Rightarrow> buddy \<Rightarrow> buddy" where
  "buddy_stop_proc cfg b =
     (if proc_pid b \<noteq> 0 then
        let b = snd (buddy_exec_action ''actions/stop'' b);
            b = wait_loop cfg 10 b in
        if kill_timeout cfg \<noteq> 0 then
          let b = (if proc_pid b \<noteq> 0 then emit (Kill (proc_pid b) SIGTERM) b else b);
              b = wait_loop cfg 20 b in
          if proc_pid b \<noteq> 0 then emit (Kill (proc_pid b) SIGKILL) b else b
        else b
      else b)"

definition buddy_reload_proc :: "buddy \<Rightarrow> buddy" where
  "buddy_reload_proc b =
     (if proc_pid b \<noteq> 0 then snd (buddy_exec_action ''actions/reload'' b) else b)"

text \<open>The name of a custom action is its number in two decimal digits.\<close>

definition buddy_cust_action :: "nat \<Rightarrow> buddy \<Rightarrow> buddy" where
  "buddy_cust_action n b =
     snd (buddy_exec_action (''actions/'' @ fixed_digits 10 2 n) b)"

section \<open>Commands\<close>

fun handle_cmnd :: "buddy_cfg \<Rightarrow> buddy_cmnd \<Rightarrow> buddy \<Rightarrow> buddy" where
  "handle_cmnd cfg UPK_CTRL_SHUTDOWN b =
     b\<lparr>desired_state := BUDDY_STOPPED, last_command := UPK_CTRL_SHUTDOWN, buddy_shutdown := SIGHUP\<rparr>"
| "handle_cmnd cfg UPK_CTRL_STATUS_REQ b = b\<lparr>last_command := UPK_CTRL_STATUS_REQ\<rparr>"
| "handle_cmnd cfg UPK_CTRL_ACTION_START b =
     snd (buddy_start_proc cfg
       (b\<lparr>desired_state := BUDDY_RUNNING, last_command := UPK_CTRL_ACTION_START\<rparr>))"
| "handle_cmnd cfg UPK_CTRL_ACTION_STOP b =
     buddy_stop_proc cfg (b\<lparr>desired_state := BUDDY_STOPPED, last_command := UPK_CTRL_ACTION_STOP\<rparr>)"
| "handle_cmnd cfg UPK_CTRL_ACTION_RELOAD b =
     buddy_reload_proc (b\<lparr>last_command := UPK_CTRL_ACTION_RELOAD\<rparr>)"
| "handle_cmnd cfg UPK_CTRL_ACTION_RUNONCE b =
     (snd (buddy_start_proc cfg
       (b\<lparr>desired_state := BUDDY_RANONCE, last_command := UPK_CTRL_ACTION_RUNONCE\<rparr>)))
       \<lparr>buddy_shutdown := SIGHUP\<rparr>"
| "handle_cmnd cfg (UPK_CTRL_CUSTOM_ACTION n) b =
     buddy_cust_action n (b\<lparr>last_command := UPK_CTRL_CUSTOM_ACTION n\<rparr>)"
| "handle_cmnd cfg (UPK_CTRL_SIGNAL n) b =
     emit (Kill (proc_pid b) n) (b\<lparr>last_command := UPK_CTRL_SIGNAL n\<rparr>)"
| "handle_cmnd cfg UPK_CTRL_NONE b = b"
| "handle_cmnd cfg UPK_CTRL_ACK b = b"
| "handle_cmnd cfg (UPK_CTRL_UNKNOWN w) b = b"

definition buddy_handle_command :: "buddy_cfg \<Rightarrow> buddy \<Rightarrow> buddy" where
  "buddy_handle_command cfg b = handle_cmnd cfg (this_command b) b"

text \<open>The flags the handler left.  \<open>rnd\<close> is the random part of the jitter.\<close>

definition buddy_handle_flags :: "buddy_cfg \<Rightarrow> u32 \<Rightarrow> buddy \<Rightarrow> bool \<times> buddy" where
  "buddy_handle_flags cfg rnd b =
     (if 0 < buddy_shutdown b then (True, b)
      else if chld_terminated b \<and> desired_state b = BUDDY_RUNNING then
        let b = (if user_ratelimit cfg \<noteq> 0 \<and> randomize_ratelimit cfg
                 then b\<lparr>jitter := user_ratelimit cfg + rnd\<rparr> else b) in
        if user_ratelimit cfg \<noteq> 0 \<and>
           now b < respawn_timestamp b + uint (user_ratelimit cfg) + uint (jitter b)
        then (False, b)
        else if force_ratelimit b \<and> now b < respawn_timestamp b + uint (runaway_ratelimit cfg)
        then (False, b)
        else
          let (started, b) = buddy_start_proc cfg (b\<lparr>force_ratelimit := False\<rparr>) in
          (False, if started then b\<lparr>chld_terminated := False\<rparr> else b)
      else (False, b))"

section \<open>The connection to the controller\<close>

text \<open>\<open>buddy_disconnect\<close>: the count is unsigned, so only a count of zero disconnects; \<open>retry\<close> says that
  \<open>errno\<close> is one of the three transient values.\<close>

definition buddy_disconnect :: "int \<Rightarrow> bool \<Rightarrow> buddy \<Rightarrow> buddy" where
  "buddy_disconnect count retry b =
     (if count = 0 \<and> \<not> retry then b\<lparr>buddy_ctrlfd := - 1\<rparr> else b)"

definition buddy_accept :: "int \<Rightarrow> buddy \<Rightarrow> buddy" where
  "buddy_accept fd b = b\<lparr>buddy_ctrlfd := (if 0 < fd then fd else - 1)\<rparr>"

text \<open>\<open>read_ctrl\<close> and \<open>write_ctrl\<close> return a static count, which keeps its old value when \<open>select\<close> times
  out.  Descriptor 0 and below never get into the descriptor set.\<close>

definition read_ctrl :: "buddy_cmnd \<Rightarrow> buddy \<Rightarrow> int \<times> buddy_cmnd \<times> buddy" where
  "read_ctrl old b =
     (if buddy_ctrlfd b \<le> 0 then (read_ncount b, old, b)
      else case reads b of
        [] \<Rightarrow> (read_ncount b, old, b)
      | Rd_timeout # io \<Rightarrow> (read_ncount b, old, b\<lparr>reads := io\<rparr>)
      | Rd_eof # io \<Rightarrow> (0, old, buddy_disconnect 0 False (b\<lparr>reads := io, read_ncount := 0\<rparr>))
      | Rd_error # io \<Rightarrow> (- 1, old, buddy_disconnect (- 1) False (b\<lparr>reads := io, read_ncount := - 1\<rparr>))
      | Rd_cmnd c # io \<Rightarrow> (4, c, b\<lparr>reads := io, read_ncount := 4\<rparr>))"

definition sizeof_buddy_info :: int where "sizeof_buddy_info = 208"

definition write_ctrl :: "buddy_info \<Rightarrow> buddy \<Rightarrow> int \<times> buddy" where
  "write_ctrl i b =
     (if buddy_ctrlfd b \<le> 0 then (write_ncount b, b)
      else case writes b of
        [] \<Rightarrow> (write_ncount b, b)
      | Wr_timeout # io \<Rightarrow> (write_ncount b, b\<lparr>writes := io\<rparr>)
      | Wr_zero # io \<Rightarrow> (0, buddy_disconnect 0 False (b\<lparr>writes := io, write_ncount := 0\<rparr>))
      | Wr_error # io \<Rightarrow> (- 1, buddy_disconnect (- 1) False (b\<lparr>writes := io, write_ncount := - 1\<rparr>))
      | Wr_ok # io \<Rightarrow>
          (sizeof_buddy_info, emit (Sent i) (b\<lparr>writes := io, write_ncount := sizeof_buddy_info\<rparr>)))"

text \<open>\<open>buddy_phone_home\<close>: the descriptor is stored before the connection is tried.\<close>

definition buddy_phone_home :: "buddy \<Rightarrow> bool \<times> buddy" where
  "buddy_phone_home b =
     (case connects b of
        [] \<Rightarrow> (False, b\<lparr>buddy_ctrlfd := - 1\<rparr>)
      | (fd, ok) # cs \<Rightarrow> (ok, b\<lparr>buddy_ctrlfd := fd, connects := cs\<rparr>))"

fun phone_home_loop :: "buddy_cfg \<Rightarrow> nat \<Rightarrow> buddy \<Rightarrow> buddy" where
  "phone_home_loop cfg 0 b = b"
| "phone_home_loop cfg (Suc n) b =
     (if buddy_shutdown b \<noteq> 0 \<or>
         ringbuffer_size cfg - ringbuffer_size cfg div 4 \<le> rb_pending (info_ringbuffer b)
      then let (ok, b) = buddy_phone_home b in
           if ok then b else phone_home_loop cfg n (nanosleep cfg b)
      else b)"

definition phone_home_if_appropriate :: "buddy_cfg \<Rightarrow> buddy \<Rightarrow> buddy" where
  "phone_home_if_appropriate cfg b =
     (if buddy_ctrlfd b < 0 \<and> 0 < rb_pending (info_ringbuffer b)
      then phone_home_loop cfg (nat (reconnect_retries cfg)) b else b)"

end
