(* ===== verification/Buddy_Loop.thy ===== *)
theory Buddy_Loop
  imports Buddy
begin

text \<open>
  The rest of \<open>controller/buddy.c\<close>: sending the log to the controller, the event loop and the shutdown.
  The step relation interleaves turns of the loop with signals and with changes of the outside world;
  the invariants are proved by rule induction over it.
\<close>

section \<open>Flushing the log\<close>

text \<open>The \<open>do ... while (info_ringbuffer != thisp)\<close> loop; \<open>None\<close> is a loop that is still running when
  the fuel is used up.  \<open>continue\<close> goes to the test.\<close>

definition map_ring :: "(ring \<Rightarrow> ring) \<Rightarrow> buddy \<Rightarrow> buddy" where
  "map_ring f b = b\<lparr>info_ringbuffer := f (info_ringbuffer b)\<rparr>"

text \<open>The write of an entry and the read of its acknowledgement.\<close>

definition send_entry :: "buddy_info \<Rightarrow> buddy \<Rightarrow> bool \<times> buddy" where
  "send_entry i b =
     (let (nw, b) = write_ctrl i b in
      if 0 < nw then
        let (nr, ack, b) = read_ctrl (flush_ack b) b;
            b = b\<lparr>flush_ack := ack\<rparr> in
        (0 < nr \<and> ack = UPK_CTRL_ACK, b)
      else (False, b))"

text \<open>\<open>ringbuffer_pending - 1\<close> in \<open>size_t\<close>.\<close>

definition pred_size :: "nat \<Rightarrow> nat" where
  "pred_size p = (if p = 0 then 2 ^ 64 - 1 else p - 1)"

fun flush_loop :: "nat \<Rightarrow> nat \<Rightarrow> buddy \<Rightarrow> buddy option" where
  "flush_loop 0 thisp b = None"
| "flush_loop (Suc fuel) thisp b =
     (if populated (current (info_ringbuffer b)) then
        let n = pred_size (rb_pending (info_ringbuffer b));
            b = map_ring (at_current (\<lambda>i. i\<lparr>remaining := n\<rparr>)) b;
            (sent, b) = send_entry (current (info_ringbuffer b)) b in
        if sent then
          let b = map_ring (ring_next \<circ> buddy_zero_info) b in
          if current_addr (info_ringbuffer b) = thisp then Some b else flush_loop fuel thisp b
        else Some (map_ring (ring_goto thisp) b)
      else
        let b = map_ring ring_next b in
        if current_addr (info_ringbuffer b) = thisp then Some b else flush_loop fuel thisp b)"

text \<open>\<open>errno\<close> is zero at the disconnect, so it always happens.  A ring of \<open>n\<close> nodes needs \<open>n\<close> turns.\<close>

definition buddy_flush_ringbuffer :: "buddy_cfg \<Rightarrow> buddy \<Rightarrow> buddy option" where
  "buddy_flush_ringbuffer cfg b =
     (let curcmnd = this_command b;
          b = phone_home_if_appropriate cfg (b\<lparr>flush_ack := curcmnd\<rparr>) in
      if 0 \<le> buddy_ctrlfd b then
        let oldset = mask b in
        (case flush_loop (length (rb_nodes (info_ringbuffer b))) (current_addr (info_ringbuffer b))
                (b\<lparr>mask := All_blocked\<rparr>) of
           None \<Rightarrow> None
         | Some b \<Rightarrow> Some ((buddy_disconnect 0 False b)\<lparr>this_command := curcmnd, mask := oldset\<rparr>))
      else Some b)"

section \<open>Event loop and shutdown\<close>

text \<open>What the first \<open>select\<close> of a turn reports.\<close>

datatype select_outcome = Sel_nothing | Sel_accept int | Sel_ctrl

definition event_loop_command :: "buddy_cfg \<Rightarrow> buddy \<Rightarrow> buddy option" where
  "event_loop_command cfg b =
     (let (_, c, b) = read_ctrl (this_command b) b;
          b = b\<lparr>this_command := c\<rparr> in
      if c \<noteq> UPK_CTRL_NONE then buddy_flush_ringbuffer cfg (buddy_handle_command cfg b) else Some b)"

text \<open>One turn: whether the loop ends, and the state.  An accepted connection starts the next turn.\<close>

definition buddy_event_loop_turn ::
    "buddy_cfg \<Rightarrow> select_outcome \<Rightarrow> u32 \<Rightarrow> buddy \<Rightarrow> (bool \<times> buddy) option" where
  "buddy_event_loop_turn cfg sel rnd b =
     (let b = b\<lparr>this_command := UPK_CTRL_NONE\<rparr> in
      case sel of
        Sel_accept fd \<Rightarrow> Some (False, buddy_accept fd b)
      | Sel_nothing \<Rightarrow> Some (buddy_handle_flags cfg rnd b)
      | Sel_ctrl \<Rightarrow>
          (case (if 0 < buddy_ctrlfd b then event_loop_command cfg b else Some b) of
             None \<Rightarrow> None
           | Some b \<Rightarrow> Some (buddy_handle_flags cfg rnd b)))"

text \<open>\<open>buddy_cleanup\<close>, with the addresses it frees.\<close>

definition buddy_cleanup :: "buddy_cfg \<Rightarrow> buddy \<Rightarrow> (buddy \<times> nat list cres) option" where
  "buddy_cleanup cfg b =
     (let b = (if proc_pid b \<noteq> 0 then buddy_stop_proc cfg b else b) in
      case buddy_flush_ringbuffer cfg b of
        None \<Rightarrow> None
      | Some b \<Rightarrow> Some (b, buddy_free_ringbuffer (ringbuffer_size cfg) (info_ringbuffer b)))"

section \<open>Steps\<close>

text \<open>The outside world may change between two turns; a signal arrives when it is not blocked.\<close>

definition same_program_state :: "buddy \<Rightarrow> buddy \<Rightarrow> bool" where
  "same_program_state b b' \<longleftrightarrow>
     b' = b\<lparr>now := now b', execs := execs b', reads := reads b', writes := writes b',
            connects := connects b', naps := naps b'\<rparr>"

inductive buddy_step :: "buddy_cfg \<Rightarrow> buddy \<Rightarrow> buddy \<Rightarrow> bool" for cfg where
  turn: "buddy_event_loop_turn cfg sel rnd b = Some (False, b') \<Longrightarrow> buddy_step cfg b b'"
| chld: "mask b = Unblocked \<Longrightarrow> buddy_step cfg b (sa_sigaction_func cfg SIGCHLD info ws b)"
| stop_signal: "mask b \<noteq> All_blocked \<Longrightarrow> sig \<noteq> SIGCHLD \<Longrightarrow>
    buddy_step cfg b (sa_sigaction_func cfg sig info [] b)"
| world: "same_program_state b b' \<Longrightarrow> now b \<le> now b' \<Longrightarrow> buddy_step cfg b b'"

inductive buddy_reachable :: "buddy_cfg \<Rightarrow> buddy \<Rightarrow> bool" for cfg where
  init: "buddy_reachable cfg (buddy_init cfg t)"
| step: "buddy_reachable cfg b \<Longrightarrow> buddy_step cfg b b' \<Longrightarrow> buddy_reachable cfg b'"

inductive_cases buddy_stepE: "buddy_step cfg b b'"

section \<open>What a flush delivers\<close>

text \<open>The exchange does not look at the ring.\<close>

lemma send_entry_ring:
  "send_entry i (b\<lparr>info_ringbuffer := r\<rparr>) =
     (fst (send_entry i b), (snd (send_entry i b))\<lparr>info_ringbuffer := r\<rparr>)"
  by (simp add: send_entry_def write_ctrl_def read_ctrl_def buddy_disconnect_def emit_def Let_def
      split: list.split read_outcome.split write_outcome.split)

text \<open>The same exchanges over the list of entries: how many were acknowledged.\<close>

fun deliver :: "buddy_info list \<Rightarrow> buddy \<Rightarrow> nat \<times> buddy" where
  "deliver [] b = (0, b)"
| "deliver (i # is) b =
     (let (sent, b) = send_entry (i\<lparr>remaining := length is\<rparr>) b in
      if sent then let (k, b) = deliver is b in (Suc k, b) else (0, b))"

lemma deliver_ring:
  "deliver is (b\<lparr>info_ringbuffer := r\<rparr>) =
     (fst (deliver is b), (snd (deliver is b))\<lparr>info_ringbuffer := r\<rparr>)"
  by (induction "is" arbitrary: b) (simp_all add: send_entry_ring split_beta)

lemma deliver_le: "fst (deliver is b) \<le> length is"
  by (induction "is" arbitrary: b) (simp_all add: split_beta)

lemma ring_goto_parts:
  assumes "rb_nodes r = xs @ ys" and "distinct (map fst (xs @ ys))" and "a = fst (hd (ys @ xs))"
    and "xs \<noteq> []"
  shows "rb_nodes (ring_goto a r) = ys @ xs"
proof (cases ys)
  case Nil
  then show ?thesis using assms by (cases xs) (auto simp: ring_goto_def)
next
  case (Cons y ys')
  have "fst n \<noteq> a" if "n \<in> set xs" for n
    using assms(2,3) that Cons by (auto simp: image_iff)
  then have "dropWhile (\<lambda>n. fst n \<noteq> a) (xs @ ys) = ys" "takeWhile (\<lambda>n. fst n \<noteq> a) (xs @ ys) = xs"
    using assms(3) Cons by (auto simp: dropWhile_append takeWhile_append)
  then show ?thesis by (simp add: ring_goto_def assms(1))
qed

text \<open>The nodes in the middle of the loop: \<open>us\<close> and \<open>ps\<close> are still to come, \<open>zs\<close> is done.\<close>

definition flush_state :: "node list \<Rightarrow> node list \<Rightarrow> node list \<Rightarrow> nat \<Rightarrow> ring \<Rightarrow> bool" where
  "flush_state us ps zs thisp r \<longleftrightarrow>
     rb_nodes r = us @ ps @ zs \<and> us @ ps \<noteq> [] \<and> rb_pending r = length ps \<and>
     distinct (map fst (us @ ps @ zs)) \<and> thisp = fst (hd (zs @ us @ ps)) \<and>
     (\<forall>n\<in>set us. \<not> populated (snd n)) \<and> (\<forall>n\<in>set ps. populated (snd n)) \<and>
     (\<forall>n\<in>set zs. \<not> populated (snd n))"

text \<open>The ring the loop leaves: the acknowledged entries are cleared, the others are as they were, and
  the current node is the one the loop began with.\<close>

definition flushed :: "nat \<Rightarrow> node list \<Rightarrow> nat list \<Rightarrow> ring \<Rightarrow> bool" where
  "flushed k ps addrs r \<longleftrightarrow>
     (\<exists>us' ps'. rb_nodes r = us' @ ps' \<and> rb_pending r = length ps' \<and>
       map fst (us' @ ps') = addrs \<and> (\<forall>n\<in>set us'. \<not> populated (snd n)) \<and>
       (\<forall>n\<in>set ps'. populated (snd n)) \<and>
       map (event_of \<circ> snd) ps' = drop k (map (event_of \<circ> snd) ps))"

lemma addr_wraps:
  assumes "distinct (map fst (x # rest @ zs))"
  shows "fst (hd (rest @ zs @ [x])) = fst (hd (zs @ x # rest)) \<longleftrightarrow> rest = []"
  using assms by (cases rest; cases zs) auto

lemma event_of_remaining [simp]: "event_of (i\<lparr>remaining := n\<rparr>) = event_of i"
  by (simp add: event_of_def)

text \<open>The turn at a node without an entry, and at a node with one.\<close>

lemma flush_skip:
  assumes "flush_state (u # us) ps zs thisp (info_ringbuffer b)"
  shows "flush_loop (Suc fuel) thisp b =
     (if us @ ps = [] then Some (map_ring ring_next b) else flush_loop fuel thisp (map_ring ring_next b))"
    and "us @ ps \<noteq> [] \<Longrightarrow>
      flush_state us ps (zs @ [u]) thisp (ring_next (info_ringbuffer b))"
    and "us @ ps = [] \<Longrightarrow> flushed 0 [] (map fst (zs @ [u])) (ring_next (info_ringbuffer b))"
proof -
  note st = assms [unfolded flush_state_def]
  have nodes: "rb_nodes (ring_next (info_ringbuffer b)) = us @ ps @ zs @ [u]"
    using st by (simp add: ring_next_def)
  have "distinct (map fst (u # (us @ ps) @ zs))" using st by simp
  from addr_wraps [OF this]
  have "current_addr (ring_next (info_ringbuffer b)) = thisp \<longleftrightarrow> us @ ps = []"
    using st nodes by (simp add: current_addr_def)
  moreover have "\<not> populated (current (info_ringbuffer b))"
    using st by (simp add: current_def)
  ultimately show "flush_loop (Suc fuel) thisp b =
     (if us @ ps = [] then Some (map_ring ring_next b) else flush_loop fuel thisp (map_ring ring_next b))"
    by (simp add: map_ring_def Let_def)
  show "flush_state us ps (zs @ [u]) thisp (ring_next (info_ringbuffer b))" if "us @ ps \<noteq> []"
    using st that nodes by (auto simp: flush_state_def ring_next_def)
  show "flushed 0 [] (map fst (zs @ [u])) (ring_next (info_ringbuffer b))" if "us @ ps = []"
    using st that nodes
    by (auto simp: flushed_def ring_next_def intro!: exI [of _ "zs @ [u]"] exI [of _ "[]"])
qed

lemma flush_entry:
  assumes "flush_state [] ((a, i) # ps) zs thisp (info_ringbuffer b)"
  obtains r' r where
    "flush_loop (Suc fuel) thisp b =
      (let (sent, b1) = send_entry (i\<lparr>remaining := length ps\<rparr>) b in
       if \<not> sent then Some (b1\<lparr>info_ringbuffer := r'\<rparr>)
       else if ps = [] then Some (b1\<lparr>info_ringbuffer := r\<rparr>)
       else flush_loop fuel thisp (b1\<lparr>info_ringbuffer := r\<rparr>))"
    and "flushed 0 ((a, i) # ps) (map fst (zs @ (a, i) # ps)) r'"
    and "ps \<noteq> [] \<longrightarrow> flush_state [] ps (zs @ [(a, zeroed (slot_n i))]) thisp r"
    and "ps = [] \<longrightarrow> flushed 1 [(a, i)] (map fst (zs @ [(a, i)])) r"
proof -
  note st = assms [unfolded flush_state_def]
  let ?i = "i\<lparr>remaining := length ps\<rparr>"
  let ?r1 = "(info_ringbuffer b)\<lparr>rb_nodes := (a, ?i) # ps @ zs\<rparr>"
  let ?r = "ring_next (buddy_zero_info ?r1)"
  have cur: "populated (current (info_ringbuffer b))" "current ?r1 = ?i"
    using st by (simp_all add: current_def)
  have r1: "at_current (\<lambda>i. i\<lparr>remaining := pred_size (rb_pending (info_ringbuffer b))\<rparr>)
      (info_ringbuffer b) = ?r1"
    using st by (simp add: at_current_def pred_size_def)
  have nodes: "rb_nodes ?r = ps @ zs @ [(a, zeroed (slot_n i))]" and pend: "rb_pending ?r = length ps"
    using st by (simp_all add: ring_next_def buddy_zero_info_def at_current_def current_def Let_def)
  have "distinct (map fst ((a, zeroed (slot_n i)) # ps @ zs))" using st by simp
  from addr_wraps [OF this] have wrap: "current_addr ?r = thisp \<longleftrightarrow> ps = []"
    using st nodes by (cases zs) (simp_all add: current_addr_def)
  have "flush_loop (Suc fuel) thisp b =
      (let (sent, b1) = send_entry ?i b in
       if \<not> sent then Some (b1\<lparr>info_ringbuffer := ring_goto thisp ?r1\<rparr>)
       else if ps = [] then Some (b1\<lparr>info_ringbuffer := ?r\<rparr>)
       else flush_loop fuel thisp (b1\<lparr>info_ringbuffer := ?r\<rparr>))"
    using cur r1 wrap by (simp add: Let_def map_ring_def send_entry_ring split_beta)
  moreover have "rb_nodes (ring_goto thisp ?r1) = zs @ (a, ?i) # ps"
    using ring_goto_parts [of ?r1 "(a, ?i) # ps" zs thisp] st by (cases zs) auto
  then have "flushed 0 ((a, i) # ps) (map fst (zs @ (a, i) # ps)) (ring_goto thisp ?r1)"
    using st unfolding flushed_def
    by (intro exI [of _ zs] exI [of _ "(a, ?i) # ps"]) (auto simp: ring_goto_def)
  moreover have "flush_state [] ps (zs @ [(a, zeroed (slot_n i))]) thisp ?r" if "ps \<noteq> []"
    using st that nodes pend by (cases zs) (auto simp: flush_state_def)
  moreover have "flushed 1 [(a, i)] (map fst (zs @ [(a, i)])) ?r" if "ps = []"
    using st that nodes pend unfolding flushed_def
    by (intro exI [of _ "zs @ [(a, zeroed (slot_n i))]"] exI [of _ "[]"]) auto
  ultimately show ?thesis by (intro that impI) (assumption | blast)+
qed

declare flush_loop.simps [simp del]

lemma flush_loop_deliver:
  assumes "flush_state us ps zs thisp (info_ringbuffer b)" and "length (us @ ps) \<le> fuel"
  shows "\<exists>r. flush_loop fuel thisp b = Some ((snd (deliver (map snd ps) b))\<lparr>info_ringbuffer := r\<rparr>) \<and>
    flushed (fst (deliver (map snd ps) b)) ps (map fst (zs @ us @ ps)) r"
  using assms
proof (induction fuel arbitrary: us ps zs b)
  case 0
  then show ?case by (simp add: flush_state_def)
next
  case (Suc fuel)
  show ?case
  proof (cases us)
    case (Cons u us')
    note skip = flush_skip [OF Suc.prems(1) [unfolded Cons]]
    show ?thesis
    proof (cases "us' @ ps = []")
      case True
      then have "us' = []" "ps = []" by simp_all
      then show ?thesis using skip(1) [of fuel] skip(3) Cons
        by (intro exI [of _ "ring_next (info_ringbuffer b)"]) (simp add: map_ring_def)
    next
      case False
      have "flush_state us' ps (zs @ [u]) thisp (info_ringbuffer (map_ring ring_next b))"
        using skip(2) False by (simp add: map_ring_def)
      from Suc.IH [OF this] Suc.prems(2) Cons obtain r where
        "flush_loop fuel thisp (map_ring ring_next b) =
          Some ((snd (deliver (map snd ps) b))\<lparr>info_ringbuffer := r\<rparr>)"
        "flushed (fst (deliver (map snd ps) b)) ps (map fst (zs @ u # us' @ ps)) r"
        by (auto simp: map_ring_def deliver_ring)
      then show ?thesis
        unfolding skip(1) [of fuel] if_not_P [OF False] Cons by auto
    qed
  next
    case Nil
    then obtain a i ps' where ps: "ps = (a, i) # ps'"
      using Suc.prems(1) by (cases ps) (auto simp: flush_state_def)
    obtain r' r where entry: "flush_loop (Suc fuel) thisp b =
      (let (sent, b1) = send_entry (i\<lparr>remaining := length ps'\<rparr>) b in
       if \<not> sent then Some (b1\<lparr>info_ringbuffer := r'\<rparr>)
       else if ps' = [] then Some (b1\<lparr>info_ringbuffer := r\<rparr>)
       else flush_loop fuel thisp (b1\<lparr>info_ringbuffer := r\<rparr>))"
      "flushed 0 ((a, i) # ps') (map fst (zs @ (a, i) # ps')) r'"
      "ps' \<noteq> [] \<longrightarrow> flush_state [] ps' (zs @ [(a, zeroed (slot_n i))]) thisp r"
      "ps' = [] \<longrightarrow> flushed 1 [(a, i)] (map fst (zs @ [(a, i)])) r"
      by (rule flush_entry [where fuel = fuel, OF Suc.prems(1) [unfolded Nil ps]])
    obtain sent b1 where send: "send_entry (i\<lparr>remaining := length ps'\<rparr>) b = (sent, b1)"
      by (cases "send_entry (i\<lparr>remaining := length ps'\<rparr>) b")
    consider "\<not> sent" | "sent" "ps' = []" | "sent" "ps' \<noteq> []" by blast
    then show ?thesis
    proof cases
      case 3
      have "flush_state [] ps' (zs @ [(a, zeroed (slot_n i))]) thisp
          (info_ringbuffer (b1\<lparr>info_ringbuffer := r\<rparr>))"
        using entry(3) 3 by simp
      moreover have "length ([] @ ps') \<le> fuel" using Suc.prems(2) Nil ps by simp
      ultimately obtain r'' where r'':
        "flush_loop fuel thisp (b1\<lparr>info_ringbuffer := r\<rparr>) =
          Some ((snd (deliver (map snd ps') b1))\<lparr>info_ringbuffer := r''\<rparr>)"
        "flushed (fst (deliver (map snd ps') b1)) ps' (map fst zs @ a # map fst ps') r''"
        using Suc.IH [of "[]" ps' "zs @ [(a, zeroed (slot_n i))]" "b1\<lparr>info_ringbuffer := r\<rparr>"]
        by (simp add: deliver_ring) metis
      have "flushed (Suc (fst (deliver (map snd ps') b1))) ((a, i) # ps')
          (map fst zs @ a # map fst ps') r''"
        using r''(2) by (simp add: flushed_def)
      then show ?thesis
        using entry(1) 3 send Nil ps r''(1) by (auto simp: split_beta)
    qed (use entry send Nil ps in auto)
  qed
qed


text \<open>A flush never runs out of turns, and takes the acknowledged entries from the front of the log.\<close>

lemma flush_loop_ok:
  assumes "ring_ok sz (info_ringbuffer b)"
  obtains r where
    "flush_loop (length (rb_nodes (info_ringbuffer b))) (current_addr (info_ringbuffer b)) b =
      Some ((snd (deliver (events (info_ringbuffer b)) b))\<lparr>info_ringbuffer := r\<rparr>)"
    and "ring_ok sz r"
    and "logged r = drop (fst (deliver (events (info_ringbuffer b)) b)) (logged (info_ringbuffer b))"
proof -
  let ?r = "info_ringbuffer b"
  obtain us ps where ok: "rb_nodes ?r = us @ ps" "\<forall>n\<in>set us. \<not> populated (snd n)"
    "\<forall>n\<in>set ps. populated (snd n)" "events ?r = map snd ps" "rb_pending ?r = length ps"
    "length us + length ps = sz" "distinct (map fst (us @ ps))" "0 < sz"
    using assms by (rule ring_okE)
  have "us @ ps \<noteq> []" using ok(6,8) by auto
  with ok have "flush_state us ps [] (current_addr ?r) ?r"
    by (auto simp: flush_state_def current_addr_def)
  from flush_loop_deliver [OF this, of "length (rb_nodes ?r)"] ok(1) obtain r where
    loop: "flush_loop (length (rb_nodes ?r)) (current_addr ?r) b =
      Some ((snd (deliver (map snd ps) b))\<lparr>info_ringbuffer := r\<rparr>)"
    and fl: "flushed (fst (deliver (map snd ps) b)) ps (map fst (us @ ps)) r"
    by auto
  obtain us' ps' where f: "rb_nodes r = us' @ ps'" "rb_pending r = length ps'"
    "map fst (us' @ ps') = map fst (us @ ps)" "\<forall>n\<in>set us'. \<not> populated (snd n)"
    "\<forall>n\<in>set ps'. populated (snd n)"
    "map (event_of \<circ> snd) ps' = drop (fst (deliver (map snd ps) b)) (map (event_of \<circ> snd) ps)"
    using fl by (auto simp: flushed_def)
  have "length us' + length ps' = sz"
    using f(3) ok(6) by (metis length_append length_map)
  moreover have "distinct (map fst (us' @ ps'))" unfolding f(3) by (rule ok(7))
  ultimately have r: "ring_ok sz r" "events r = map snd ps'"
    using ring_okI [OF f(1,4,5,2)] ok(8) by blast+
  show thesis
    using r f(6) loop ok(4) by (intro that [of r]) (simp_all add: logged_def comp_def)
qed


text \<open>On an open connection nothing is dialled, and only the ring, the connection and the outcomes
  consumed are left changed.\<close>

lemma flush_connected:
  assumes "ring_ok sz (info_ringbuffer b)" and "0 \<le> buddy_ctrlfd b"
    and "deliver (events (info_ringbuffer b)) (b\<lparr>flush_ack := this_command b, mask := All_blocked\<rparr>) =
      (k, b1)"
  obtains r where
    "buddy_flush_ringbuffer cfg b =
      Some (b1\<lparr>info_ringbuffer := r, buddy_ctrlfd := - 1, this_command := this_command b, mask := mask b\<rparr>)"
    and "ring_ok sz r" and "logged r = drop k (logged (info_ringbuffer b))"
proof -
  let ?b = "b\<lparr>flush_ack := this_command b, mask := All_blocked\<rparr>"
  have "ring_ok sz (info_ringbuffer ?b)" using assms(1) by simp
  then obtain r where "flush_loop (length (rb_nodes (info_ringbuffer b))) (current_addr (info_ringbuffer b)) ?b =
      Some (b1\<lparr>info_ringbuffer := r\<rparr>)"
    and "ring_ok sz r" "logged r = drop k (logged (info_ringbuffer b))"
    by (rule flush_loop_ok) (use assms(3) in auto)
  then show thesis
    using assms(2)
    by (intro that [of r])
      (simp_all add: buddy_flush_ringbuffer_def phone_home_if_appropriate_def buddy_disconnect_def Let_def)
qed

definition sent_infos :: "buddy \<Rightarrow> buddy_info list" where
  "sent_infos b = List.map_filter (\<lambda>e. case e of Sent i \<Rightarrow> Some i | _ \<Rightarrow> None) (trace b)"

lemma sent_infos_upd [simp]:
  "sent_infos (b\<lparr>info_ringbuffer := r\<rparr>) = sent_infos b" "sent_infos (b\<lparr>flush_ack := c\<rparr>) = sent_infos b"
  "sent_infos (b\<lparr>buddy_ctrlfd := d\<rparr>) = sent_infos b" "sent_infos (b\<lparr>this_command := c\<rparr>) = sent_infos b"
  "sent_infos (b\<lparr>mask := mk\<rparr>) = sent_infos b" "sent_infos (b\<lparr>reads := rs\<rparr>) = sent_infos b"
  "sent_infos (b\<lparr>writes := ws\<rparr>) = sent_infos b" "sent_infos (b\<lparr>read_ncount := n\<rparr>) = sent_infos b"
  "sent_infos (b\<lparr>write_ncount := n\<rparr>) = sent_infos b"
  "sent_infos (emit (Sent i) b) = sent_infos b @ [i]"
  by (simp_all add: sent_infos_def emit_def List.map_filter_def)

text \<open>An exchange the kernel does not time out: what counts as sent was sent, and a failed exchange sent
  at most its own entry.\<close>

lemma send_entry_cases:
  assumes "0 < buddy_ctrlfd b" and "writes b = w # ws" and "reads b = d # ds"
    and "w \<noteq> Wr_timeout" and "d \<noteq> Rd_timeout"
  obtains (sent) b' where "send_entry i b = (True, b')" and "sent_infos b' = sent_infos b @ [i]"
      and "buddy_ctrlfd b' = buddy_ctrlfd b" and "writes b' = ws" and "reads b' = ds"
  | (failed) b' where "send_entry i b = (False, b')"
      and "sent_infos b' = sent_infos b \<or> sent_infos b' = sent_infos b @ [i]"
proof (cases "w = Wr_ok \<and> d = Rd_cmnd UPK_CTRL_ACK")
  case True
  with assms show thesis
    by (intro sent [of "snd (send_entry i b)"]) (simp_all add: send_entry_def write_ctrl_def
        read_ctrl_def sizeof_buddy_info_def emit_def Let_def sent_infos_def List.map_filter_def)
next
  case False
  show thesis
  proof (rule failed)
    show "send_entry i b = (False, snd (send_entry i b))"
      using assms False
      by (cases w; cases d) (auto simp: send_entry_def write_ctrl_def read_ctrl_def
          sizeof_buddy_info_def buddy_disconnect_def emit_def Let_def)
    show "sent_infos (snd (send_entry i b)) = sent_infos b \<or>
        sent_infos (snd (send_entry i b)) = sent_infos b @ [i]"
      using assms
      by (cases w; cases d) (auto simp: send_entry_def write_ctrl_def read_ctrl_def
          sizeof_buddy_info_def buddy_disconnect_def emit_def Let_def sent_infos_def List.map_filter_def)
  qed
qed

lemma deliver_no_timeout:
  assumes "0 < buddy_ctrlfd b" and "Wr_timeout \<notin> set (writes b)" and "Rd_timeout \<notin> set (reads b)"
    and "length is \<le> length (writes b)" and "length is \<le> length (reads b)"
  shows "\<exists>m. fst (deliver is b) \<le> m \<and> m \<le> fst (deliver is b) + 1 \<and>
    map event_of (sent_infos (snd (deliver is b))) = map event_of (sent_infos b) @ take m (map event_of is)"
  using assms
proof (induction "is" arbitrary: b)
  case Nil
  then show ?case by auto
next
  case (Cons i "is")
  obtain w ws d ds where io: "writes b = w # ws" "reads b = d # ds"
    using Cons.prems by (cases "writes b"; cases "reads b") auto
  have nt: "w \<noteq> Wr_timeout" "d \<noteq> Rd_timeout" using Cons.prems io by auto
  show ?case
  proof (rule send_entry_cases [OF Cons.prems(1) io nt, of "i\<lparr>remaining := length is\<rparr>"])
    fix b'
    assume s: "send_entry (i\<lparr>remaining := length is\<rparr>) b = (True, b')"
      "sent_infos b' = sent_infos b @ [i\<lparr>remaining := length is\<rparr>]"
      "buddy_ctrlfd b' = buddy_ctrlfd b" "writes b' = ws" "reads b' = ds"
    then obtain m where "fst (deliver is b') \<le> m" "m \<le> fst (deliver is b') + 1"
      "map event_of (sent_infos (snd (deliver is b'))) = map event_of (sent_infos b') @ take m (map event_of is)"
      using Cons.IH [of b'] Cons.prems io by auto
    with s show ?thesis
      by (intro exI [of _ "Suc m"]) (simp add: split_beta)
  next
    fix b'
    assume "send_entry (i\<lparr>remaining := length is\<rparr>) b = (False, b')"
      "sent_infos b' = sent_infos b \<or> sent_infos b' = sent_infos b @ [i\<lparr>remaining := length is\<rparr>]"
    then show ?thesis
      by (elim disjE) (auto intro: exI [of _ 0] exI [of _ 1])
  qed
qed


text \<open>Exchanges that all succeed, and exchanges that all time out after a successful one.\<close>

lemma send_entry_ok:
  assumes "0 < buddy_ctrlfd b" and "writes b = Wr_ok # ws" and "reads b = Rd_cmnd UPK_CTRL_ACK # ds"
  obtains b' where "send_entry i b = (True, b')" and "sent_infos b' = sent_infos b @ [i]"
    and "buddy_ctrlfd b' = buddy_ctrlfd b" and "writes b' = ws" and "reads b' = ds"
    and "0 < write_ncount b'" and "0 < read_ncount b'" and "flush_ack b' = UPK_CTRL_ACK"
  using assms
  by (intro that [of "snd (send_entry i b)"]) (simp_all add: send_entry_def write_ctrl_def
      read_ctrl_def sizeof_buddy_info_def emit_def Let_def sent_infos_def List.map_filter_def)

lemma send_entry_stale:
  assumes "0 < buddy_ctrlfd b" and "writes b = Wr_timeout # ws" and "reads b = Rd_timeout # ds"
    and "0 < write_ncount b" and "0 < read_ncount b" and "flush_ack b = UPK_CTRL_ACK"
  shows "send_entry i b = (True, b\<lparr>writes := ws, reads := ds, flush_ack := UPK_CTRL_ACK\<rparr>)"
  using assms by (simp add: send_entry_def write_ctrl_def read_ctrl_def Let_def)

fun numbered :: "buddy_info list \<Rightarrow> buddy_info list" where
  "numbered [] = []"
| "numbered (i # is) = i\<lparr>remaining := length is\<rparr> # numbered is"

lemma numbered_length [simp]: "length (numbered is) = length is"
  by (induction "is") simp_all

lemma numbered_event [simp]: "map event_of (numbered is) = map event_of is"
  by (induction "is") simp_all

lemma numbered_remaining: "map remaining (numbered is) = rev [0..<length is]"
  by (induction "is") simp_all

lemma deliver_all:
  assumes "0 < buddy_ctrlfd b" and "writes b = replicate (length is) Wr_ok @ ws"
    and "reads b = replicate (length is) (Rd_cmnd UPK_CTRL_ACK) @ ds"
  shows "fst (deliver is b) = length is \<and>
    sent_infos (snd (deliver is b)) = sent_infos b @ numbered is"
  using assms
proof (induction "is" arbitrary: b)
  case (Cons i "is")
  then obtain b' where s: "send_entry (i\<lparr>remaining := length is\<rparr>) b = (True, b')"
    "sent_infos b' = sent_infos b @ [i\<lparr>remaining := length is\<rparr>]" "buddy_ctrlfd b' = buddy_ctrlfd b"
    "writes b' = replicate (length is) Wr_ok @ ws"
    "reads b' = replicate (length is) (Rd_cmnd UPK_CTRL_ACK) @ ds"
    by (auto elim!: send_entry_ok [of b _ _ "i\<lparr>remaining := length is\<rparr>"])
  with Cons.IH [of b'] Cons.prems show ?case by (simp add: split_beta)
qed simp

lemma deliver_stale:
  assumes "0 < buddy_ctrlfd b" and "writes b = replicate (length is) Wr_timeout @ ws"
    and "reads b = replicate (length is) Rd_timeout @ ds"
    and "0 < write_ncount b" and "0 < read_ncount b" and "flush_ack b = UPK_CTRL_ACK"
  shows "fst (deliver is b) = length is \<and> sent_infos (snd (deliver is b)) = sent_infos b"
  using assms
proof (induction "is" arbitrary: b)
  case (Cons i "is")
  then show ?case
    using send_entry_stale [of b "replicate (length is) Wr_timeout @ ws"
        "replicate (length is) Rd_timeout @ ds"]
    by (simp add: split_beta)
qed simp

section \<open>Properties\<close>

text \<open>C5: on an open connection where no \<open>select\<close> times out, a flush takes from the log only entries it
  has sent, in order, oldest first, and sends at most one entry it keeps (the one whose acknowledgement
  failed); the ring stays well formed and the signal mask and the command come back.\<close>

theorem flush_no_loss:
  assumes "ring_ok sz (info_ringbuffer b)" and "0 < buddy_ctrlfd b"
    and "Wr_timeout \<notin> set (writes b)" and "Rd_timeout \<notin> set (reads b)"
    and "rb_pending (info_ringbuffer b) \<le> length (writes b)"
    and "rb_pending (info_ringbuffer b) \<le> length (reads b)"
  shows "\<exists>b' k m. buddy_flush_ringbuffer cfg b = Some b' \<and> ring_ok sz (info_ringbuffer b') \<and>
    logged (info_ringbuffer b') = drop k (logged (info_ringbuffer b)) \<and>
    map event_of (sent_infos b') = map event_of (sent_infos b) @ take m (logged (info_ringbuffer b)) \<and>
    k \<le> m \<and> m \<le> k + 1 \<and> mask b' = mask b \<and> this_command b' = this_command b"
proof -
  let ?b = "b\<lparr>flush_ack := this_command b, mask := All_blocked\<rparr>" and ?es = "events (info_ringbuffer b)"
  have len: "rb_pending (info_ringbuffer b) = length ?es"
    using assms(1) by (simp add: ring_ok_def)
  obtain k b1 where d: "deliver ?es ?b = (k, b1)" by (cases "deliver ?es ?b")
  then obtain m where m: "k \<le> m" "m \<le> k + 1"
    "map event_of (sent_infos b1) = map event_of (sent_infos b) @ take m (map event_of ?es)"
    using deliver_no_timeout [of ?b ?es] assms(2-6) len by auto
  obtain r where "buddy_flush_ringbuffer cfg b =
      Some (b1\<lparr>info_ringbuffer := r, buddy_ctrlfd := - 1, this_command := this_command b, mask := mask b\<rparr>)"
    "ring_ok sz r" "logged r = drop k (logged (info_ringbuffer b))"
    by (rule flush_connected [OF assms(1) _ d, of cfg]) (use assms(2) in auto)
  with m show ?thesis by (auto simp: logged_def)
qed

text \<open>C14: when every write and every acknowledgement succeeds, a flush sends the whole log in order, each
  entry announcing how many follow, and leaves the log empty.\<close>

theorem flush_complete:
  assumes "ring_ok sz (info_ringbuffer b)" and "0 < buddy_ctrlfd b"
    and "writes b = replicate (rb_pending (info_ringbuffer b)) Wr_ok"
    and "reads b = replicate (rb_pending (info_ringbuffer b)) (Rd_cmnd UPK_CTRL_ACK)"
  shows "\<exists>b' sent. buddy_flush_ringbuffer cfg b = Some b' \<and> logged (info_ringbuffer b') = [] \<and>
    sent_infos b' = sent_infos b @ sent \<and> map event_of sent = logged (info_ringbuffer b) \<and>
    map remaining sent = rev [0..<rb_pending (info_ringbuffer b)]"
proof -
  let ?b = "b\<lparr>flush_ack := this_command b, mask := All_blocked\<rparr>" and ?es = "events (info_ringbuffer b)"
  have len: "rb_pending (info_ringbuffer b) = length ?es"
    using assms(1) by (simp add: ring_ok_def)
  obtain k b1 where d: "deliver ?es ?b = (k, b1)" by (cases "deliver ?es ?b")
  then have s: "k = length ?es" "sent_infos b1 = sent_infos b @ numbered ?es"
    using deliver_all [of ?b ?es "[]" "[]"] assms(2-4) len by auto
  obtain r where "buddy_flush_ringbuffer cfg b =
      Some (b1\<lparr>info_ringbuffer := r, buddy_ctrlfd := - 1, this_command := this_command b, mask := mask b\<rparr>)"
    "ring_ok sz r" "logged r = drop k (logged (info_ringbuffer b))"
    by (rule flush_connected [OF assms(1) _ d, of cfg]) (use assms(2) in auto)
  with s show ?thesis by (auto simp: logged_def numbered_remaining len)
qed

text \<open>Once one exchange has succeeded, a connection that only times out empties the log: the counts
  of \<open>read_ctrl\<close> and \<open>write_ctrl\<close> are static and keep the old success, so every entry after the first is
  cleared although it was never sent.\<close>

theorem flush_loses_on_timeout:
  assumes "ring_ok sz (info_ringbuffer b)" and "0 < buddy_ctrlfd b"
    and "rb_pending (info_ringbuffer b) = Suc n"
    and "writes b = Wr_ok # replicate n Wr_timeout"
    and "reads b = Rd_cmnd UPK_CTRL_ACK # replicate n Rd_timeout"
  shows "\<exists>b'. buddy_flush_ringbuffer cfg b = Some b' \<and> logged (info_ringbuffer b') = [] \<and>
    map event_of (sent_infos b') = map event_of (sent_infos b) @ [hd (logged (info_ringbuffer b))]"
proof -
  let ?b = "b\<lparr>flush_ack := this_command b, mask := All_blocked\<rparr>"
  obtain i es where es: "events (info_ringbuffer b) = i # es" "length es = n"
    using assms(1,3) by (cases "events (info_ringbuffer b)") (auto simp: ring_ok_def)
  obtain b' where s: "send_entry (i\<lparr>remaining := length es\<rparr>) ?b = (True, b')"
    "sent_infos b' = sent_infos ?b @ [i\<lparr>remaining := length es\<rparr>]" "buddy_ctrlfd b' = buddy_ctrlfd ?b"
    "writes b' = replicate n Wr_timeout" "reads b' = replicate n Rd_timeout" "0 < write_ncount b'"
    "0 < read_ncount b'" "flush_ack b' = UPK_CTRL_ACK"
    by (rule send_entry_ok [of ?b "replicate n Wr_timeout" "replicate n Rd_timeout"])
      (use assms(2,4,5) in simp_all)
  obtain k b1 where d: "deliver (events (info_ringbuffer b)) ?b = (k, b1)"
    by (cases "deliver (events (info_ringbuffer b)) ?b")
  then have k: "k = Suc (length es)" "sent_infos b1 = sent_infos b @ [i\<lparr>remaining := length es\<rparr>]"
    using deliver_stale [of b' es "[]" "[]"] s es assms(2) by (auto simp: split_beta)
  obtain r where "buddy_flush_ringbuffer cfg b =
      Some (b1\<lparr>info_ringbuffer := r, buddy_ctrlfd := - 1, this_command := this_command b, mask := mask b\<rparr>)"
    "ring_ok sz r" "logged r = drop k (logged (info_ringbuffer b))"
    by (rule flush_connected [OF assms(1) _ d, of cfg]) (use assms(2) in auto)
  with k es show ?thesis by (auto simp: logged_def)
qed

text \<open>A connected buddy with two events in its log.\<close>

definition sample_cfg :: buddy_cfg where
  "sample_cfg =
     \<lparr>ringbuffer_size = 4, reconnect_retries = 10, user_ratelimit = 0, randomize_ratelimit = False,
      runaway_ratelimit = 300, user_max_restarts = 10, user_restart_window = 60, kill_timeout = 60,
      buddy_uuid = zero_uuid\<rparr>"

definition sample_event :: "int \<Rightarrow> event" where
  "sample_event p =
     \<lparr>sn_uuid = zero_uuid, sn_pid = p, sn_command = UPK_CTRL_ACTION_START, sn_desired = BUDDY_RUNNING,
      sn_time = 0, ev_wait_pid = 0, ev_siginfo = 0, ev_wait_status = 0\<rparr>"

definition sample_ring :: ring where
  "sample_ring = foldl (log_event 4) (buddy_init_ringbuffer 4) [sample_event 1, sample_event 2]"

definition sample_buddy :: "write_outcome list \<Rightarrow> read_outcome list \<Rightarrow> buddy" where
  "sample_buddy ws rs = (buddy_init sample_cfg 0)\<lparr>info_ringbuffer := sample_ring, buddy_ctrlfd := 5,
     writes := ws, reads := rs\<rparr>"

lemma sample_ring_ok: "ring_ok 4 sample_ring" "logged sample_ring = [sample_event 1, sample_event 2]"
  "rb_pending sample_ring = 2"
proof -
  show ok: "ring_ok 4 sample_ring"
    unfolding sample_ring_def by (rule rlog.ok_foldl) (simp add: init_ring_ok)
  show log: "logged sample_ring = [sample_event 1, sample_event 2]"
    using rlog.entries_foldl [OF init_ring_ok(1), of 4 "[sample_event 1, sample_event 2]"]
    by (simp add: sample_ring_def init_ring_ok)
  have "rb_pending sample_ring = length (logged sample_ring)"
    using ok by (simp add: ring_ok_def logged_def)
  then show "rb_pending sample_ring = 2" by (simp add: log)
qed

lemmas sample = sample_buddy_def sample_ring_ok

lemma flush_no_loss_witness:
  "\<exists>b' k m. buddy_flush_ringbuffer sample_cfg (sample_buddy [Wr_ok, Wr_ok] [Rd_eof, Rd_eof]) = Some b' \<and>
    logged (info_ringbuffer b') = drop k [sample_event 1, sample_event 2] \<and> k \<le> m \<and> m \<le> k + 1"
  using flush_no_loss [of 4 "sample_buddy [Wr_ok, Wr_ok] [Rd_eof, Rd_eof]" sample_cfg]
  by (auto simp: sample)

lemma flush_complete_witness:
  "\<exists>b' sent. buddy_flush_ringbuffer sample_cfg
      (sample_buddy (replicate 2 Wr_ok) (replicate 2 (Rd_cmnd UPK_CTRL_ACK))) = Some b' \<and>
    logged (info_ringbuffer b') = [] \<and> map event_of sent = [sample_event 1, sample_event 2] \<and>
    map remaining sent = [1, 0]"
proof -
  let ?b = "sample_buddy (replicate 2 Wr_ok) (replicate 2 (Rd_cmnd UPK_CTRL_ACK))"
  have b: "ring_ok 4 (info_ringbuffer ?b)" "0 < buddy_ctrlfd ?b" "rb_pending (info_ringbuffer ?b) = 2"
    "logged (info_ringbuffer ?b) = [sample_event 1, sample_event 2]"
    "writes ?b = replicate 2 Wr_ok" "reads ?b = replicate 2 (Rd_cmnd UPK_CTRL_ACK)"
    by (simp_all add: sample)
  have "rev [0..<2] = [1, 0::nat]" by (simp add: upt_rec)
  then show ?thesis
    using flush_complete [of 4 ?b sample_cfg, unfolded b, OF b(1,2)] by (simp only: simp_thms) metis
qed

lemma flush_loses_on_timeout_witness:
  "\<exists>b'. buddy_flush_ringbuffer sample_cfg
      (sample_buddy [Wr_ok, Wr_timeout] [Rd_cmnd UPK_CTRL_ACK, Rd_timeout]) = Some b' \<and>
    logged (info_ringbuffer b') = []"
  using flush_loses_on_timeout [of 4 "sample_buddy [Wr_ok, Wr_timeout] [Rd_cmnd UPK_CTRL_ACK, Rd_timeout]"
      1 sample_cfg]
  by (auto simp: sample)

end
