(* ===== verification/Ctrl_Buddy.thy ===== *)
theory Ctrl_Buddy
  imports Upk_Files Upk_Config Buddy_Loop
begin

text \<open>
  \<open>controller/ctrl_buddy.c\<close>: the controller's side of the buddies.  It sets up and takes down the
  directory a buddy runs in, starts the process, connects to its socket, sends commands and reads the
  events the buddy reports.  The record \<open>ctrl\<close> holds the files, the static variable of \<open>create_buddy\<close>,
  what the buddies at the other end of the sockets will do, and a trace of what was sent and spawned.
\<close>

section \<open>State\<close>

text \<open>What the next \<open>select\<close> and \<open>read\<close> on a connection bring: a timeout, the end (or an error), or one
  report, which is read whole.  \<open>writable\<close> are the answers of \<open>select\<close> about writing; no answer is a
  timeout.\<close>

datatype arrival = Ar_timeout | Ar_end | Ar_info buddy_info

record session =
  arrivals :: "arrival list"
  writable :: "bool list"
  cmnds_sent :: "buddy_cmnd list"
  recorded :: "buddy_info list"

record ctrl =
  files :: fs
  st_is_sock :: bool
  listening :: "string \<Rightarrow> bool"
  sessions :: "session list"
  talks :: "(string \<times> session) list"
  spawned :: "string list list"

section \<open>Talking to a buddy\<close>

definition SUN_PATH_LEN :: nat where "SUN_PATH_LEN = 108"

definition buddy_sock_path :: "upk_controller_config \<Rightarrow> upk_svc_desc \<Rightarrow> string cres" where
  "buddy_sock_path cfg buddy = path_buf (SvcRunPath cfg @ ''/'' @ Name buddy @ ''/buddy.sock'')"

text \<open>The socket address has room for 107 characters; \<open>None\<close> is the result -2.\<close>

definition buddy_connect :: "string \<Rightarrow> ctrl \<Rightarrow> (session \<times> ctrl) option" where
  "buddy_connect sockpath w =
     (if listening w (take (SUN_PATH_LEN - 1) sockpath) then
        (case sessions w of
           [] \<Rightarrow> Some (\<lparr>arrivals = [], writable = [], cmnds_sent = [], recorded = []\<rparr>, w)
         | s # ss \<Rightarrow> Some (s, w\<lparr>sessions := ss\<rparr>))
      else None)"

definition select_write :: "session \<Rightarrow> bool \<times> session" where
  "select_write s = (case writable s of [] \<Rightarrow> (False, s) | r # rs \<Rightarrow> (r, s\<lparr>writable := rs\<rparr>))"

definition send_cmnd :: "buddy_cmnd \<Rightarrow> session \<Rightarrow> session" where
  "send_cmnd c s = s\<lparr>cmnds_sent := cmnds_sent s @ [c]\<rparr>"

text \<open>The reading loop.  The descriptor set is shared: when the \<open>select\<close> before the acknowledgement times
  out it is left empty, and the next \<open>select\<close> for reading, on an empty set, ends the loop.\<close>

fun readstate_loop :: "arrival list \<Rightarrow> session \<Rightarrow> session" where
  "readstate_loop [] s = s\<lparr>arrivals := []\<rparr>"
| "readstate_loop (Ar_timeout # as) s = s\<lparr>arrivals := as\<rparr>"
| "readstate_loop (Ar_end # as) s = s\<lparr>arrivals := as\<rparr>"
| "readstate_loop (Ar_info buf # as) s =
     (let (ready, s) = select_write (s\<lparr>recorded := recorded s @ [buf]\<rparr>);
          s = (if ready then send_cmnd UPK_CTRL_ACK s else s) in
      if remaining buf = 0 \<or> \<not> ready then s\<lparr>arrivals := as\<rparr> else readstate_loop as s)"

definition buddy_readstate :: "session \<Rightarrow> session" where
  "buddy_readstate s =
     (let (ready, s) = select_write s in if ready then readstate_loop (arrivals s) s else s)"

definition send_buddy_cmd :: "buddy_cmnd \<Rightarrow> session \<Rightarrow> session" where
  "send_buddy_cmd cmd s =
     (let (ready, s) = select_write s in if ready then buddy_readstate (send_cmnd cmd s) else s)"

definition talk :: "string \<Rightarrow> buddy_cmnd \<Rightarrow> session \<times> ctrl \<Rightarrow> ctrl" where
  "talk path cmd sw = (snd sw)\<lparr>talks := talks (snd sw) @ [(path, send_buddy_cmd cmd (fst sw))]\<rparr>"

text \<open>Connect, send one command, close: the four operations differ in the command.\<close>

definition buddy_request ::
    "buddy_cmnd \<Rightarrow> upk_controller_config \<Rightarrow> upk_svc_desc \<Rightarrow> ctrl \<Rightarrow> (bool \<times> ctrl) cres" where
  "buddy_request cmd cfg buddy w =
     bind_c (buddy_sock_path cfg buddy) (\<lambda>path.
     Inr (case buddy_connect path w of None \<Rightarrow> (False, w) | Some sw \<Rightarrow> (True, talk path cmd sw)))"

definition kill_buddy :: "upk_controller_config \<Rightarrow> upk_svc_desc \<Rightarrow> ctrl \<Rightarrow> (bool \<times> ctrl) cres" where
  "kill_buddy = buddy_request UPK_CTRL_SHUTDOWN"

definition start_buddy_svc :: "upk_controller_config \<Rightarrow> upk_svc_desc \<Rightarrow> ctrl \<Rightarrow> (bool \<times> ctrl) cres" where
  "start_buddy_svc = buddy_request UPK_CTRL_ACTION_START"

definition stop_buddy_svc :: "upk_controller_config \<Rightarrow> upk_svc_desc \<Rightarrow> ctrl \<Rightarrow> (bool \<times> ctrl) cres" where
  "stop_buddy_svc = buddy_request UPK_CTRL_ACTION_STOP"

definition reload_buddy_svc :: "upk_controller_config \<Rightarrow> upk_svc_desc \<Rightarrow> ctrl \<Rightarrow> (bool \<times> ctrl) cres" where
  "reload_buddy_svc = buddy_request UPK_CTRL_ACTION_RELOAD"

section \<open>The directory of a buddy\<close>

text \<open>The conversion \<open>%02d\<close> of a number that is not negative.\<close>

definition two_digits :: "nat \<Rightarrow> string" where
  "two_digits n = (if n < 10 then CHR ''0'' # decimal n else decimal n)"

definition make_subdir :: "string \<Rightarrow> fs \<Rightarrow> fs cres" where
  "make_subdir s fs = bind_c (path_buf s) (\<lambda>s. Inr (snd (mkdir s fs)))"

definition make_link :: "string \<Rightarrow> string \<Rightarrow> fs \<Rightarrow> fs cres" where
  "make_link target s fs = bind_c (path_buf s) (\<lambda>s. Inr (snd (symlink target s fs)))"

text \<open>One action: the script under \<open>scripts\<close>, mode 0755, and the link to it under \<open>actions\<close>.  The
  stream \<open>fopen\<close> returns is not checked.\<close>

definition make_action ::
    "cheap \<Rightarrow> string \<Rightarrow> string \<Rightarrow> string \<Rightarrow> cptr \<Rightarrow> fs \<Rightarrow> fs cres" where
  "make_action h dir label name script fs =
     bind_c (path_buf (dir @ ''/actions/'' @ label)) (\<lambda>path.
     bind_c (path_buf (dir @ ''/scripts/'' @ name)) (\<lambda>linksrc.
     if write_file linksrc 0x1ED '''' fs = None then Inl Null_deref
     else bind_c (cstr_read h script) (\<lambda>text.
       case write_file linksrc 0x1ED text fs of None \<Rightarrow> Inl Null_deref
       | Some fs \<Rightarrow> make_link linksrc path fs)))"

fun make_custom_actions ::
    "cheap \<Rightarrow> string \<Rightarrow> nat \<Rightarrow> upk_cust_actscr list \<Rightarrow> fs \<Rightarrow> fs cres" where
  "make_custom_actions h dir n [] fs = Inr fs"
| "make_custom_actions h dir n (a # as) fs =
     bind_c (make_action h dir (two_digits n) (act_name a) (act_script a) fs)
       (make_custom_actions h dir (n + 1) as)"

definition create_buddy_statedir ::
    "upk_controller_config \<Rightarrow> cheap \<Rightarrow> upk_svc_desc \<Rightarrow> fs \<Rightarrow> fs cres" where
  "create_buddy_statedir cfg h buddy fs =
     (let dir = SvcRunPath cfg @ ''/'' @ Name buddy in
      bind_c (make_subdir (SvcRunPath cfg) fs) (\<lambda>fs.
      bind_c (make_subdir dir fs) (\<lambda>fs.
      bind_c (make_subdir (dir @ ''/actions'') fs) (\<lambda>fs.
      bind_c (make_subdir (dir @ ''/scripts'') fs) (\<lambda>fs.
      bind_c (make_subdir (dir @ ''/log'') fs) (\<lambda>fs.
      bind_c (make_action h dir ''start'' ''start'' (StartScript buddy) fs) (\<lambda>fs.
      bind_c (make_action h dir ''stop'' ''stop'' (StopScript buddy) fs) (\<lambda>fs.
      bind_c (make_action h dir ''reload'' ''reload'' (ReloadScript buddy) fs) (\<lambda>fs.
      bind_c (case CustomActions buddy of None \<Rightarrow> Inr fs | Some as \<Rightarrow> make_custom_actions h dir 0 as fs) (\<lambda>fs.
      make_link (controller_socket cfg) (dir @ ''/controller.sock'') fs))))))))))"

definition remove_action :: "string \<Rightarrow> string \<Rightarrow> string \<Rightarrow> fs \<Rightarrow> fs cres" where
  "remove_action dir label name fs =
     bind_c (path_buf (dir @ ''/actions/'' @ label)) (\<lambda>path.
     bind_c (path_buf (dir @ ''/scripts/'' @ name)) (\<lambda>linksrc.
     Inr (snd (unlink linksrc (snd (unlink path fs))))))"

fun remove_custom_actions :: "string \<Rightarrow> nat \<Rightarrow> upk_cust_actscr list \<Rightarrow> fs \<Rightarrow> fs cres" where
  "remove_custom_actions dir n [] fs = Inr fs"
| "remove_custom_actions dir n (a # as) fs =
     bind_c (remove_action dir (two_digits n) (act_name a) fs) (remove_custom_actions dir (n + 1) as)"

text \<open>The entries of the log directory: each name is appended to the path, which is not cut back, and
  nothing is removed.\<close>

fun visit_log :: "string \<Rightarrow> string list \<Rightarrow> string cres" where
  "visit_log path [] = Inr path"
| "visit_log path (name # names) =
     (if take 1 name = ''.'' then visit_log path names
      else bind_c (path_buf (path @ name)) (\<lambda>path. visit_log path names))"

definition remove_buddy_statedir ::
    "bool \<Rightarrow> upk_controller_config \<Rightarrow> upk_svc_desc \<Rightarrow> fs \<Rightarrow> fs cres" where
  "remove_buddy_statedir junk cfg buddy fs =
     (let dir = SvcRunPath cfg @ ''/'' @ Name buddy in
      bind_c (path_buf (dir @ ''/controller.sock'')) (\<lambda>path.
      let fs = snd (unlink path fs) in
      bind_c (case CustomActions buddy of None \<Rightarrow> Inr fs | Some as \<Rightarrow> remove_custom_actions dir 0 as fs) (\<lambda>fs.
      bind_c (remove_action dir ''reload'' ''reload'' fs) (\<lambda>fs.
      bind_c (remove_action dir ''start'' ''start'' fs) (\<lambda>fs.
      bind_c (remove_action dir ''stop'' ''stop'' fs) (\<lambda>fs.
      bind_c (case opendir fs (dir @ ''/log/'') of None \<Rightarrow> Inr dir
              | Some names \<Rightarrow> visit_log (dir @ ''/log/'') names) (\<lambda>_.
      let fs = snd (rmdir (dir @ ''/log/'') fs);
          fs = snd (rmdir (dir @ ''/scripts/'') fs);
          fs = snd (rmdir (dir @ ''/actions/'') fs);
          fs = snd (rmdir dir fs) in
      bind_c (upk_rm_rf junk dir fs) (\<lambda>(_, fs). Inr fs))))))))"

section \<open>Life of a buddy\<close>

text \<open>The command line; the loop over the verbosity starts at one, so one \<open>v\<close> is missing.\<close>

definition buddy_verbosity :: "u32 \<Rightarrow> string" where
  "buddy_verbosity v =
     (if 0 < v then CHR ''-'' # map (\<lambda>_. CHR ''v'') [1..<min (unat v) 15] else '''')"

definition spawn_buddy :: "upk_controller_config \<Rightarrow> upk_svc_desc \<Rightarrow> ctrl \<Rightarrow> ctrl cres" where
  "spawn_buddy cfg buddy w =
     bind_c (path_buf (SvcRunPath cfg @ ''/'' @ Name buddy)) (\<lambda>path.
     Inr (w\<lparr>spawned := spawned w @ [[UpkBuddyPath cfg, buddy_verbosity (BuddyVerbosity cfg),
       ''--buddy_uuid'', upk_uuid_to_string (UUID buddy), ''--buddy_path'', path, Name buddy]]\<rparr>))"

text \<open>The \<open>struct stat\<close> is static and keeps what an earlier call found when \<open>stat\<close> fails.\<close>

definition create_buddy ::
    "upk_controller_config \<Rightarrow> cheap \<Rightarrow> upk_svc_desc \<Rightarrow> ctrl \<Rightarrow> ctrl cres" where
  "create_buddy cfg h buddy w =
     bind_c (buddy_sock_path cfg buddy) (\<lambda>path.
     let w = (case stat_file (files w) path of None \<Rightarrow> w | Some n \<Rightarrow> w\<lparr>st_is_sock := (n = Socket)\<rparr>) in
     if st_is_sock w then Inr w
     else bind_c (create_buddy_statedir cfg h buddy (files w)) (\<lambda>fs.
       spawn_buddy cfg buddy (w\<lparr>files := fs\<rparr>)))"

definition remove_buddy ::
    "bool \<Rightarrow> upk_controller_config \<Rightarrow> upk_svc_desc option \<Rightarrow> ctrl \<Rightarrow> ctrl cres" where
  "remove_buddy junk cfg buddy w =
     (case buddy of None \<Rightarrow> Inr w
      | Some b \<Rightarrow> bind_c (kill_buddy cfg b w) (\<lambda>(_, w).
          bind_c (remove_buddy_statedir junk cfg b (files w)) (\<lambda>fs. Inr (w\<lparr>files := fs\<rparr>))))"

definition basename :: "string \<Rightarrow> string" where
  "basename s =
     (if s = '''' then ''.''
      else if strip_slashes s = '''' then ''/''
      else rev (takeWhile (\<lambda>c. c \<noteq> CHR ''/'') (rev (strip_slashes s))))"

definition lookup_buddy_from_path ::
    "upk_controller_config \<Rightarrow> string \<Rightarrow> upk_svc_desc option cres" where
  "lookup_buddy_from_path cfg buddy_path =
     bind_c (path_buf buddy_path) (\<lambda>p.
     case svclist cfg of None \<Rightarrow> Inl Null_deref
     | Some svcs \<Rightarrow> Inr (find (\<lambda>b. Name b = basename p) svcs))"

text \<open>The loop over the names \<open>readdir\<close> returns.\<close>

definition handle_buddy :: "bool \<Rightarrow> upk_controller_config \<Rightarrow> string \<Rightarrow> ctrl \<Rightarrow> ctrl cres" where
  "handle_buddy junk cfg name w =
     bind_c (path_buf (SvcRunPath cfg @ ''/'' @ name @ ''/buddy.sock'')) (\<lambda>path.
     case buddy_connect path w of
       Some sw \<Rightarrow> Inr (talk path UPK_CTRL_STATUS_REQ sw)
     | None \<Rightarrow>
         bind_c (lookup_buddy_from_path cfg name) (\<lambda>buddy.
         case buddy of
           Some b \<Rightarrow> remove_buddy junk cfg (Some b) w
         | None \<Rightarrow> bind_c (upk_rm_rf junk (SvcRunPath cfg @ ''/'' @ name) (files w)) (\<lambda>(_, fs).
             Inr (w\<lparr>files := fs\<rparr>))))"

fun handle_names :: "bool \<Rightarrow> upk_controller_config \<Rightarrow> string list \<Rightarrow> ctrl \<Rightarrow> ctrl cres" where
  "handle_names junk cfg [] w = Inr w"
| "handle_names junk cfg (name # names) w =
     (if take 1 name = ''.'' then handle_names junk cfg names w
      else bind_c (handle_buddy junk cfg name w) (handle_names junk cfg names))"

definition handle_buddies :: "bool \<Rightarrow> upk_controller_config \<Rightarrow> ctrl \<Rightarrow> ctrl cres" where
  "handle_buddies junk cfg w =
     bind_c (path_buf (SvcRunPath cfg @ ''/'')) (\<lambda>path.
     case opendir (files w) path of None \<Rightarrow> Inr w
     | Some names \<Rightarrow> handle_names junk cfg names w)"

section \<open>A report and its acknowledgements\<close>

lemma readstate_numbered:
  assumes "is \<noteq> []" and "writable s = replicate (length is) True @ ws"
  shows "readstate_loop (map Ar_info (numbered is) @ rest) s =
    s\<lparr>arrivals := rest, writable := ws, cmnds_sent := cmnds_sent s @ replicate (length is) UPK_CTRL_ACK,
      recorded := recorded s @ numbered is\<rparr>"
  using assms
proof (induction "is" arbitrary: s)
  case (Cons i "is")
  obtain a c r where s: "s = \<lparr>arrivals = a, writable = True # replicate (length is) True @ ws,
      cmnds_sent = c, recorded = r\<rparr>"
    using Cons.prems(2) by (cases s) simp
  let ?s = "\<lparr>arrivals = a, writable = replicate (length is) True @ ws, cmnds_sent = c @ [UPK_CTRL_ACK],
      recorded = r @ [i\<lparr>remaining := length is\<rparr>]\<rparr>"
  have "readstate_loop (map Ar_info (numbered (i # is)) @ rest) s =
      (if is = [] then ?s\<lparr>arrivals := rest\<rparr> else readstate_loop (map Ar_info (numbered is) @ rest) ?s)"
    by (simp add: s select_write_def send_cmnd_def)
  with Cons.IH [of ?s] show ?case by (simp add: s)
qed simp

lemma send_cmd_numbered:
  assumes "is \<noteq> []" and "writable s = replicate (length is + 2) True @ ws"
  shows "send_buddy_cmd cmd (s\<lparr>arrivals := map Ar_info (numbered is) @ rest\<rparr>) =
    s\<lparr>arrivals := rest, writable := ws,
      cmnds_sent := cmnds_sent s @ cmd # replicate (length is) UPK_CTRL_ACK,
      recorded := recorded s @ numbered is\<rparr>"
  using assms readstate_numbered [OF assms(1), of "s\<lparr>arrivals := map Ar_info (numbered is) @ rest,
      writable := replicate (length is) True @ ws, cmnds_sent := cmnds_sent s @ [cmd]\<rparr>" ws rest]
  by (cases s) (simp add: send_buddy_cmd_def buddy_readstate_def select_write_def send_cmnd_def)

section \<open>Properties\<close>

text \<open>C6: a status request from the controller, answered by a buddy with events in its log: when the
  buddy reads what the controller writes and the controller receives what the buddy sends, and both
  can write, the controller records the whole log in order and stops at its last entry, and the buddy
  is left with an empty log.\<close>

theorem status_request_answered:
  assumes "ring_ok sz (info_ringbuffer b)" and "0 < buddy_ctrlfd b"
    and "rb_pending (info_ringbuffer b) = Suc n" and "writes b = replicate (Suc n) Wr_ok"
    and "writable s = replicate (n + 3) True" and "cmnds_sent s = []" and "recorded s = []"
  shows "\<exists>sent b' s'. s' = send_buddy_cmd UPK_CTRL_STATUS_REQ (s\<lparr>arrivals := map Ar_info sent @ rest\<rparr>) \<and>
    event_loop_command cfg (b\<lparr>reads := map Rd_cmnd (cmnds_sent s')\<rparr>) = Some b' \<and>
    sent_infos b' = sent_infos b @ sent \<and> logged (info_ringbuffer b') = [] \<and>
    map event_of (recorded s') = logged (info_ringbuffer b) \<and> arrivals s' = rest"
proof -
  let ?es = "events (info_ringbuffer b)"
  let ?s = "send_buddy_cmd UPK_CTRL_STATUS_REQ (s\<lparr>arrivals := map Ar_info (numbered ?es) @ rest\<rparr>)"
  have len: "length ?es = Suc n" using assms(1,3) by (simp add: ring_ok_def)
  then have "?es \<noteq> []" by auto
  then have s: "cmnds_sent ?s = UPK_CTRL_STATUS_REQ # replicate (Suc n) UPK_CTRL_ACK"
    "recorded ?s = numbered ?es" "arrivals ?s = rest"
    using send_cmd_numbered [of ?es s "[]" UPK_CTRL_STATUS_REQ rest] assms(5-7) len
    by (simp_all add: numeral_3_eq_3)
  define c where "c = b\<lparr>reads := replicate (Suc n) (Rd_cmnd UPK_CTRL_ACK), read_ncount := 4,
    this_command := UPK_CTRL_STATUS_REQ, last_command := UPK_CTRL_STATUS_REQ\<rparr>"
  have c: "info_ringbuffer c = info_ringbuffer b" "0 < buddy_ctrlfd c" "writes c = replicate (Suc n) Wr_ok"
    "reads c = replicate (Suc n) (Rd_cmnd UPK_CTRL_ACK)" "sent_infos c = sent_infos b"
    using assms(2,4) by (simp_all add: c_def sent_infos_def)
  have turn: "event_loop_command cfg (b\<lparr>reads := map Rd_cmnd (cmnds_sent ?s)\<rparr>) = buddy_flush_ringbuffer cfg c"
    using assms(2) by (simp add: s c_def event_loop_command_def read_ctrl_def buddy_handle_command_def)
  obtain k b1 where d: "deliver (events (info_ringbuffer c)) (c\<lparr>flush_ack := this_command c, mask := All_blocked\<rparr>) =
      (k, b1)"
    by fastforce
  then have k: "k = Suc n" "sent_infos b1 = sent_infos b @ numbered ?es"
    using deliver_all [of "c\<lparr>flush_ack := this_command c, mask := All_blocked\<rparr>" ?es "[]" "[]"] c len
    by auto
  obtain r where r: "buddy_flush_ringbuffer cfg c =
      Some (b1\<lparr>info_ringbuffer := r, buddy_ctrlfd := - 1, this_command := this_command c, mask := mask c\<rparr>)"
    "logged r = drop k (logged (info_ringbuffer c))"
    by (rule flush_connected [OF _ _ d, of sz cfg]) (use assms(1) c in auto)
  show ?thesis
  proof (intro exI conjI)
    show "event_loop_command cfg (b\<lparr>reads := map Rd_cmnd (cmnds_sent ?s)\<rparr>) =
      Some (b1\<lparr>info_ringbuffer := r, buddy_ctrlfd := - 1, this_command := this_command c, mask := mask c\<rparr>)"
      using turn r(1) by simp
  qed (use s k r(2) c(1) len in \<open>simp_all add: logged_def\<close>)
qed

text \<open>A controller connection that can always write.\<close>

definition sample_session :: session where
  "sample_session = \<lparr>arrivals = [], writable = replicate 4 True, cmnds_sent = [], recorded = []\<rparr>"

lemma status_request_answered_witness:
  "\<exists>sent b' s'. s' = send_buddy_cmd UPK_CTRL_STATUS_REQ (sample_session\<lparr>arrivals := map Ar_info sent @ [Ar_end]\<rparr>) \<and>
    event_loop_command sample_cfg
      ((sample_buddy [Wr_ok, Wr_ok] [])\<lparr>reads := map Rd_cmnd (cmnds_sent s')\<rparr>) = Some b' \<and>
    logged (info_ringbuffer b') = [] \<and>
    map event_of (recorded s') = [sample_event 1, sample_event 2] \<and> arrivals s' = [Ar_end]"
proof -
  let ?b = "sample_buddy [Wr_ok, Wr_ok] []"
  have b: "ring_ok 4 (info_ringbuffer ?b)" "0 < buddy_ctrlfd ?b" "rb_pending (info_ringbuffer ?b) = Suc 1"
    "logged (info_ringbuffer ?b) = [sample_event 1, sample_event 2]" "writes ?b = replicate (Suc 1) Wr_ok"
    by (simp_all add: sample)
  have s: "writable sample_session = replicate (1 + 3) True" "cmnds_sent sample_session = []"
    "recorded sample_session = []"
    by (simp_all add: sample_session_def)
  show ?thesis
    using status_request_answered [OF b(1-3,5) s, of "[Ar_end]" sample_cfg, unfolded b(4)]
    by (elim exE conjE) (intro exI conjI; assumption)
qed

text \<open>After \<open>create_buddy\<close> has found the socket of a running buddy, a service whose socket does not
  exist gets neither a directory nor a process: \<open>stat\<close> fails, and its result is still the old one.\<close>

theorem stale_stat_hides_buddy:
  assumes "buddy_sock_path cfg a = Inr path_a" and "stat_file (files w) path_a = Some Socket"
    and "buddy_sock_path cfg b = Inr path_b" and "stat_file (files w) path_b = None"
  shows "bind_c (create_buddy cfg h a w) (create_buddy cfg h b) = Inr (w\<lparr>st_is_sock := True\<rparr>)"
  using assms by (simp add: create_buddy_def)

definition sample_ctrl_cfg :: upk_controller_config where
  "sample_ctrl_cfg =
     \<lparr>StateDir = ''/v'', SvcConfigPath = ''/c'', SvcRunPath = ''/r'', UpkBuddyPath = ''/b'', AuditMaxAge = 0,
      AuditMaxRecords = 0, BuddyVerbosity = 0, BuddyPollingInterval = 0, controller_socket = ''/v/s'',
      controller_buddy_sock = ''/v/b'', ServiceDefaults = upk_svc_desc_clear, svclist = None\<rparr>"

definition sample_ctrl :: ctrl where
  "sample_ctrl =
     \<lparr>files = [([''r''], Dir), ([''r'', ''a''], Dir), ([''r'', ''a'', ''buddy.sock''], Socket)],
      st_is_sock = False, listening = (\<lambda>_. True), sessions = [], talks = [], spawned = []\<rparr>"

lemma sample_ctrl_paths:
  "buddy_sock_path sample_ctrl_cfg (sample_svc\<lparr>Name := ''a''\<rparr>) = Inr ''/r/a/buddy.sock''"
  "buddy_sock_path sample_ctrl_cfg (sample_svc\<lparr>Name := ''b''\<rparr>) = Inr ''/r/b/buddy.sock''"
  by (simp_all add: buddy_sock_path_def path_buf_def UPK_MAX_PATH_LEN_def sample_ctrl_cfg_def)

lemma sample_ctrl_stat:
  "stat_file (files sample_ctrl) ''/r/a/buddy.sock'' = Some Socket"
  "stat_file (files sample_ctrl) ''/r/b/buddy.sock'' = None"
  by code_simp+

lemma stale_stat_hides_buddy_witness:
  "bind_c (create_buddy sample_ctrl_cfg sample_heap (sample_svc\<lparr>Name := ''a''\<rparr>) sample_ctrl)
     (create_buddy sample_ctrl_cfg sample_heap (sample_svc\<lparr>Name := ''b''\<rparr>)) =
   Inr (sample_ctrl\<lparr>st_is_sock := True\<rparr>)"
  by (rule stale_stat_hides_buddy [OF sample_ctrl_paths(1) sample_ctrl_stat(1)
      sample_ctrl_paths(2) sample_ctrl_stat(2)])

end

