(* ===== verification/Ctrl_Statedir.thy ===== *)
theory Ctrl_Statedir
  imports Ctrl_Buddy
begin

text \<open>
  What \<open>create_buddy_statedir\<close> of \<open>controller/ctrl_buddy.c\<close> leaves on disk.  The predicate \<open>statedir\<close> is
  the abstract directory, a map from names to scripts and a map from labels to links; each step of the
  code updates the two maps, and the property reads them back through the file system.
\<close>

section \<open>What the directory holds\<close>

lemma real_dirs_put:
  assumes "real_dirs fs q" and "node_at fs p \<noteq> Some Dir"
  shows "real_dirs (put_node p n fs) q"
proof -
  have "p \<noteq> []" using assms(2) by auto
  then show ?thesis using assms by (auto simp: real_dirs_def)
qed

lemma make_subdir_ok:
  assumes "spells s (p @ [x])" and "real_dirs fs p" and "node_at fs (p @ [x]) \<in> {None, Some Dir}"
    and "length s < UPK_MAX_PATH_LEN"
  obtains fs' where "make_subdir s fs = Inr fs'" and "node_at fs' = (node_at fs)(p @ [x] \<mapsto> Dir)"
proof (cases "node_at fs (p @ [x])")
  case None
  then have "make_subdir s fs = Inr (put_node (p @ [x]) Dir fs)"
    using assms real_dirs_node [OF assms(2)]
    by (simp add: make_subdir_def path_buf_def mkdir_def make_node_def lnamei_last can_create_def)
  then show thesis by (rule that) simp
next
  case (Some n)
  then have "make_subdir s fs = Inr fs"
    using assms by (simp add: make_subdir_def path_buf_def mkdir_def make_node_def lnamei_last can_create_def)
  then show thesis using Some assms(3) by (intro that [of fs]) (auto simp: fun_upd_idem)
qed

text \<open>The files of the scripts, and the links of the actions.\<close>

definition statedir :: "fs \<Rightarrow> path \<Rightarrow> (string \<Rightarrow> string option) \<Rightarrow> (string \<Rightarrow> string option) \<Rightarrow> bool" where
  "statedir fs D written links \<longleftrightarrow> real_dirs fs (D @ [''actions'']) \<and> real_dirs fs (D @ [''scripts'']) \<and>
     (\<forall>x. node_at fs (D @ [''scripts'', x]) = map_option (\<lambda>t. Regular t 0x1ED) (written x)) \<and>
     (\<forall>l. node_at fs (D @ [''actions'', l]) = map_option Symlink (links l))"

lemma spells_below:
  assumes "spells dir D" and "plain a" and "plain b"
  shows "spells (dir @ CHR ''/'' # a @ CHR ''/'' # b) ((D @ [a]) @ [b])"
  using spells_snoc [OF spells_snoc [OF assms(1,2)] assms(3)] by simp

lemma plain_dirs [simp]: "plain ''actions''" "plain ''scripts''" "plain ''log''" "plain ''controller.sock''"
  "plain ''start''" "plain ''stop''" "plain ''reload''"
  by (simp_all add: plain_def)

lemma make_action_ok:
  assumes st: "statedir fs D W L" and sp: "spells dir D" and "absolute dir"
    and "plain label" and "plain name" and "L label = None" and "cstr_read h script = Inr text"
    and "length dir + length label + 9 < UPK_MAX_PATH_LEN" and "length dir + length name + 9 < UPK_MAX_PATH_LEN"
  obtains fs' where "make_action h dir label name script fs = Inr fs'"
    and "statedir fs' D (W(name \<mapsto> text)) (L(label \<mapsto> dir @ ''/scripts/'' @ name))"
proof -
  let ?src = "dir @ ''/scripts/'' @ name" and ?path = "dir @ ''/actions/'' @ label"
  let ?p = "(D @ [''scripts'']) @ [name]" and ?q = "(D @ [''actions'']) @ [label]"
  have spells: "spells ?src ?p" "spells ?path ?q"
    using spells_below [OF sp _ assms(5), of "''scripts''"] spells_below [OF sp _ assms(4), of "''actions''"]
    by simp_all
  have dirs: "real_dirs fs (D @ [''scripts''])" "real_dirs fs (D @ [''actions''])"
    and node: "node_at fs ?p = map_option (\<lambda>t. Regular t 0x1ED) (W name)" "node_at fs ?q = None"
    using st assms(6) by (simp_all add: statedir_def)
  have "\<not> is_link fs ?p" using node(1) by (simp add: is_link_def)
  then have "namei fs ?src = Some ?p" by (rule namei_last [OF spells(1) dirs(1)])
  then have opened: "write_file ?src 0x1ED t fs = Some (put_node ?p (Regular t 0x1ED) fs)" for t
    using node(1) real_dirs_node [OF dirs(1)]
    by (cases "W name") (simp_all add: write_file_def can_create_def butlast_append)
  let ?fs = "put_node ?p (Regular text 0x1ED) fs"
  have nd: "node_at fs ?p \<noteq> Some Dir" using node(1) by (cases "W name") simp_all
  have "lnamei ?fs ?path = Some ?q"
    by (rule lnamei_last [OF spells(2) real_dirs_put [OF dirs(2) nd]])
  moreover have "can_create ?fs ?q"
    using node(2) real_dirs_node [OF real_dirs_put [OF dirs(2) nd]] by (simp add: can_create_def butlast_append)
  ultimately have "make_action h dir label name script fs = Inr (put_node ?q (Symlink ?src) ?fs)"
    using opened assms(7-9)
    by (simp add: make_action_def path_buf_def make_link_def symlink_def make_node_def)
  moreover have "node_at ?fs ?q \<noteq> Some Dir" using node(2) by simp
  then have "statedir (put_node ?q (Symlink ?src) ?fs) D (W(name \<mapsto> text)) (L(label \<mapsto> ?src))"
    using st dirs nd unfolding statedir_def by (intro conjI real_dirs_put) auto
  ultimately show thesis by (rule that)
qed


section \<open>Labels\<close>

lemma two_digits_fixed: "list_all (\<lambda>n. two_digits n = fixed_digits 10 2 n \<and> plain (two_digits n) \<and>
    two_digits n \<notin> {''start'', ''stop'', ''reload''} \<and> length (two_digits n) = 2) [0..<100]"
  by code_simp

lemma two_digits_distinct: "distinct (map two_digits [0..<100])"
  by code_simp

lemma two_digits:
  assumes "n < 100"
  shows "two_digits n = fixed_digits 10 2 n" and "plain (two_digits n)"
    and "two_digits n \<notin> {''start'', ''stop'', ''reload''}" and "length (two_digits n) = 2"
    and "m < 100 \<Longrightarrow> two_digits n = two_digits m \<longleftrightarrow> n = m"
proof -
  have "two_digits n = fixed_digits 10 2 n \<and> plain (two_digits n) \<and>
      two_digits n \<notin> {''start'', ''stop'', ''reload''} \<and> length (two_digits n) = 2"
    by (rule bspec [OF two_digits_fixed [unfolded list_all_iff]]) (use assms in simp)
  then show "two_digits n = fixed_digits 10 2 n" "plain (two_digits n)"
    "two_digits n \<notin> {''start'', ''stop'', ''reload''}" "length (two_digits n) = 2" by blast+
  have "inj_on two_digits {0..<100}" using two_digits_distinct by (simp add: distinct_map)
  then show "two_digits n = two_digits m \<longleftrightarrow> n = m" if "m < 100"
    by (rule inj_on_eq_iff) (use assms that in simp_all)
qed

section \<open>All actions\<close>

definition text_of :: "cheap \<Rightarrow> cptr \<Rightarrow> string" where
  "text_of h p = (case cstr_read h p of Inl _ \<Rightarrow> [] | Inr t \<Rightarrow> t)"

definition scripts_of :: "cheap \<Rightarrow> upk_cust_actscr list \<Rightarrow> (string \<times> string) list" where
  "scripts_of h as = map (\<lambda>a. (act_name a, text_of h (act_script a))) as"

text \<open>An action that can be set up: its name is one component, its script is there, and the paths fit.\<close>

definition action_ok :: "cheap \<Rightarrow> string \<Rightarrow> upk_cust_actscr \<Rightarrow> bool" where
  "action_ok h dir a \<longleftrightarrow> plain (act_name a) \<and> (\<exists>t. cstr_read h (act_script a) = Inr t) \<and>
     length dir + length (act_name a) + 9 < UPK_MAX_PATH_LEN"

lemma make_custom_actions_ok:
  assumes "statedir fs D W L" and "spells dir D" and "absolute dir" and "n + length as \<le> 100"
    and "\<forall>k<length as. L (two_digits (n + k)) = None" and "\<forall>a\<in>set as. action_ok h dir a"
    and "length dir + 11 < UPK_MAX_PATH_LEN"
  shows "\<exists>fs' L'. make_custom_actions h dir n as fs = Inr fs' \<and>
    statedir fs' D (W ++ map_of (rev (scripts_of h as))) L' \<and>
    (\<forall>k<length as. L' (two_digits (n + k)) = Some (dir @ ''/scripts/'' @ act_name (as ! k))) \<and>
    (\<forall>l. (\<forall>k<length as. l \<noteq> two_digits (n + k)) \<longrightarrow> L' l = L l)"
  using assms
proof (induction as arbitrary: n fs W L)
  case Nil
  then show ?case by (auto simp: scripts_of_def)
next
  case (Cons a as)
  have a: "plain (act_name a)" "cstr_read h (act_script a) = Inr (text_of h (act_script a))"
    "length dir + length (act_name a) + 9 < UPK_MAX_PATH_LEN"
    using Cons.prems(6) by (auto simp: action_ok_def text_of_def)
  have n: "n < 100" "L (two_digits n) = None" "length dir + length (two_digits n) + 9 < UPK_MAX_PATH_LEN"
    using Cons.prems(4,7) Cons.prems(5) [rule_format, of 0] two_digits(4) [of n] by simp_all
  let ?W = "W(act_name a \<mapsto> text_of h (act_script a))"
    and ?L = "L(two_digits n \<mapsto> dir @ ''/scripts/'' @ act_name a)"
  obtain fs1 where fs1: "make_action h dir (two_digits n) (act_name a) (act_script a) fs = Inr fs1"
    "statedir fs1 D ?W ?L"
    by (rule make_action_ok [OF Cons.prems(1-3) two_digits(2) [OF n(1)] a(1) n(2) a(2) n(3) a(3)])
  have other: "two_digits (Suc n + k) \<noteq> two_digits n" if "k < length as" for k
    using two_digits(5) [of "Suc n + k" n] that Cons.prems(4) by simp
  have "\<forall>k<length as. ?L (two_digits (Suc n + k)) = None"
    using Cons.prems(5) other by (auto dest: spec [of _ "Suc _"])
  then have "\<exists>fs' L'. make_custom_actions h dir (Suc n) as fs1 = Inr fs' \<and>
      statedir fs' D (?W ++ map_of (rev (scripts_of h as))) L' \<and>
      (\<forall>k<length as. L' (two_digits (Suc n + k)) = Some (dir @ ''/scripts/'' @ act_name (as ! k))) \<and>
      (\<forall>l. (\<forall>k<length as. l \<noteq> two_digits (Suc n + k)) \<longrightarrow> L' l = ?L l)"
    by (intro Cons.IH [OF fs1(2) Cons.prems(2,3)]) (use Cons.prems(4,6,7) in simp_all)
  then obtain fs' L' where IH: "make_custom_actions h dir (Suc n) as fs1 = Inr fs'"
    "statedir fs' D (?W ++ map_of (rev (scripts_of h as))) L'"
    "\<forall>k<length as. L' (two_digits (Suc n + k)) = Some (dir @ ''/scripts/'' @ act_name (as ! k))"
    "\<forall>l. (\<forall>k<length as. l \<noteq> two_digits (Suc n + k)) \<longrightarrow> L' l = ?L l"
    by (elim exE conjE)
  have "L' (two_digits n) = Some (dir @ ''/scripts/'' @ act_name a)"
    using IH(4) other by (metis fun_upd_same)
  then have "\<forall>k<length (a # as). L' (two_digits (n + k)) = Some (dir @ ''/scripts/'' @ act_name ((a # as) ! k))"
    using IH(3) by (simp add: All_less_Suc2)
  moreover have "L' l = L l" if "\<forall>k<length (a # as). l \<noteq> two_digits (n + k)" for l
    using that IH(4) by (simp add: All_less_Suc2)
  moreover have "W ++ map_of (rev (scripts_of h (a # as))) = ?W ++ map_of (rev (scripts_of h as))"
    by (simp add: scripts_of_def map_add_assoc [symmetric] fun_eq_iff map_add_def split: option.split)
  ultimately show ?case using fs1(1) IH(1,2) by (intro exI [of _ fs'] exI [of _ L']) simp
qed


lemma statedir_lookup:
  assumes st: "statedir fs D W L" and sp: "spells dir D" and "absolute dir" and "plain label" and "plain name"
    and "L label = Some (dir @ ''/scripts/'' @ name)" and "W name = Some t"
  shows "stat_file fs (dir @ ''/actions/'' @ label) = Some (Regular t 0x1ED)"
proof -
  have "namei fs (dir @ ''/actions/'' @ label) = Some ((D @ [''scripts'']) @ [name])"
  proof (rule namei_link)
    show "spells (dir @ ''/actions/'' @ label) ((D @ [''actions'']) @ [label])"
      "spells (dir @ ''/scripts/'' @ name) ((D @ [''scripts'']) @ [name])"
      using spells_below [OF sp _ assms(4), of "''actions''"] spells_below [OF sp _ assms(5), of "''scripts''"]
      by simp_all
    show "absolute (dir @ ''/scripts/'' @ name)" using assms(3) by (auto simp: absolute_Cons)
  qed (use st assms(6,7) in \<open>simp_all add: statedir_def is_link_def\<close>)
  then show ?thesis using st assms(7) by (simp add: stat_file_def statedir_def)
qed

lemma make_link_ok:
  assumes "statedir fs D W L" and "spells dir D" and "plain x" and "length dir + length x + 1 < UPK_MAX_PATH_LEN"
  obtains fs' where "make_link t (dir @ CHR ''/'' # x) fs = Inr fs'" and "statedir fs' D W L"
proof (cases "can_create fs (D @ [x])")
  case True
  have D: "real_dirs fs D" using assms(1) by (simp add: statedir_def real_dirs_snoc)
  have "lnamei fs (dir @ CHR ''/'' # x) = Some (D @ [x])"
    using lnamei_last [OF spells_snoc [OF assms(2,3)] D] .
  then have "make_link t (dir @ CHR ''/'' # x) fs = Inr (put_node (D @ [x]) (Symlink t) fs)"
    using True assms(4) by (simp add: make_link_def path_buf_def symlink_def make_node_def)
  moreover have "statedir (put_node (D @ [x]) (Symlink t) fs) D W L"
    using assms(1) True unfolding statedir_def
    by (intro conjI real_dirs_put) (auto simp: can_create_def)
  ultimately show thesis by (rule that)
next
  case False
  have D: "real_dirs fs D" using assms(1) by (simp add: statedir_def real_dirs_snoc)
  have "lnamei fs (dir @ CHR ''/'' # x) = Some (D @ [x])"
    using lnamei_last [OF spells_snoc [OF assms(2,3)] D] .
  with False assms show thesis
    by (intro that [of fs]) (simp_all add: make_link_def path_buf_def symlink_def make_node_def)
qed

lemma make_dirs_ok:
  assumes "spells base (d @ [r])" and "real_dirs fs d" and "node_at fs (d @ [r]) \<in> {None, Some Dir}"
    and "\<forall>q. node_at fs (d @ r # name # q) = None" and "plain name"
    and "length base + length name + 9 < UPK_MAX_PATH_LEN"
  shows "\<exists>fs'. (let dir = base @ CHR ''/'' # name in
      bind_c (make_subdir base fs) (\<lambda>fs.
      bind_c (make_subdir dir fs) (\<lambda>fs.
      bind_c (make_subdir (dir @ ''/actions'') fs) (\<lambda>fs.
      bind_c (make_subdir (dir @ ''/scripts'') fs) (make_subdir (dir @ ''/log'')))))) = Inr fs' \<and>
    statedir fs' (d @ [r, name]) Map.empty Map.empty"
proof -
  let ?D = "d @ [r, name]" and ?dir = "base @ CHR ''/'' # name"
  have D: "spells ?dir ?D" using spells_snoc [OF assms(1,5)] by simp
  have below: "spells (?dir @ CHR ''/'' # x) (?D @ [x])" if "plain x" for x
    using spells_snoc [OF D that] .
  obtain fs1 where fs1: "make_subdir base fs = Inr fs1" "node_at fs1 = (node_at fs)(d @ [r] \<mapsto> Dir)"
    by (rule make_subdir_ok [OF assms(1-3)]) (use assms(6) in auto)
  have r1: "real_dirs fs1 (d @ [r])"
    using assms(2) fs1(2) by (auto simp: real_dirs_def le_Suc_eq)
  have fresh: "node_at fs1 (d @ r # name # q) = None" for q
    using assms(4) fs1(2) by simp
  obtain fs2 where fs2: "make_subdir ?dir fs1 = Inr fs2" "node_at fs2 = (node_at fs1)(?D \<mapsto> Dir)"
    by (rule make_subdir_ok [of ?dir "d @ [r]" name fs1]) (use D r1 fresh assms(6) in auto)
  have r2: "real_dirs fs2 ?D"
    using r1 fs2(2) by (auto simp: real_dirs_def le_Suc_eq)
  have fresh2: "q \<noteq> [] \<Longrightarrow> node_at fs2 (?D @ q) = None" for q
    using fresh [of q] fs2(2) by simp
  obtain fs3 where fs3: "make_subdir (?dir @ ''/actions'') fs2 = Inr fs3"
    "node_at fs3 = (node_at fs2)(?D @ [''actions''] \<mapsto> Dir)"
    by (rule make_subdir_ok [OF below [of "''actions''"] r2]) (use fresh2 assms(6) in auto)
  have r3: "real_dirs fs3 ?D" using r2 fs3(2) by (auto simp: real_dirs_def)
  obtain fs4 where fs4: "make_subdir (?dir @ ''/scripts'') fs3 = Inr fs4"
    "node_at fs4 = (node_at fs3)(?D @ [''scripts''] \<mapsto> Dir)"
    by (rule make_subdir_ok [OF below [of "''scripts''"] r3]) (use fresh2 fs3(2) assms(6) in auto)
  have r4: "real_dirs fs4 ?D" using r3 fs4(2) by (auto simp: real_dirs_def)
  obtain fs5 where fs5: "make_subdir (?dir @ ''/log'') fs4 = Inr fs5"
    "node_at fs5 = (node_at fs4)(?D @ [''log''] \<mapsto> Dir)"
    by (rule make_subdir_ok [OF below [of "''log''"] r4]) (use fresh2 fs3(2) fs4(2) assms(6) in auto)
  have r5: "real_dirs fs5 ?D" using r4 fs5(2) by (auto simp: real_dirs_def)
  have "real_dirs fs5 (?D @ [x])" if "x \<in> {''actions'', ''scripts''}" for x
    unfolding real_dirs_snoc using r5 that fs3(2) fs4(2) fs5(2) by auto
  moreover have "node_at fs5 (?D @ [y, x]) = None" for x y
    using fresh2 [of "[y, x]"] fs3(2) fs4(2) fs5(2) by simp
  ultimately have "statedir fs5 ?D Map.empty Map.empty" by (simp add: statedir_def)
  with fs1 fs2 fs3 fs4 fs5 show ?thesis by (simp add: Let_def)
qed


text \<open>A service whose directory can be set up at \<open>base\<close>: nothing is there yet, its name and the names of
  its actions are single components, the scripts are there and the paths fit.\<close>

definition can_set_up ::
    "upk_controller_config \<Rightarrow> cheap \<Rightarrow> upk_svc_desc \<Rightarrow> upk_cust_actscr list \<Rightarrow> fs \<Rightarrow> bool" where
  "can_set_up cfg h b as fs \<longleftrightarrow>
     (\<exists>d r. absolute (SvcRunPath cfg) \<and> spells (SvcRunPath cfg) (d @ [r]) \<and> real_dirs fs d \<and>
        node_at fs (d @ [r]) \<in> {None, Some Dir} \<and> (\<forall>q. node_at fs (d @ r # Name b # q) = None)) \<and>
     plain (Name b) \<and> CustomActions b = Some as \<and> length as \<le> 100 \<and>
     (\<forall>p\<in>{StartScript b, StopScript b, ReloadScript b}. \<exists>t. cstr_read h p = Inr t) \<and>
     length (SvcRunPath cfg @ ''/'' @ Name b) + 20 < UPK_MAX_PATH_LEN \<and>
     (\<forall>a\<in>set as. action_ok h (SvcRunPath cfg @ ''/'' @ Name b) a)"

text \<open>The last script written under each name.\<close>

definition final_script :: "cheap \<Rightarrow> upk_svc_desc \<Rightarrow> upk_cust_actscr list \<Rightarrow> string \<Rightarrow> string option" where
  "final_script h b as =
     [''start'' \<mapsto> text_of h (StartScript b), ''stop'' \<mapsto> text_of h (StopScript b),
      ''reload'' \<mapsto> text_of h (ReloadScript b)] ++ map_of (rev (scripts_of h as))"

lemma cstr_read_text: "\<exists>t. cstr_read h p = Inr t \<Longrightarrow> cstr_read h p = Inr (text_of h p)"
  by (auto simp: text_of_def)

lemma final_script_custom:
  assumes "k < length as"
  shows "\<exists>t. final_script h b as (act_name (as ! k)) = Some t"
proof -
  have "act_name (as ! k) \<in> fst ` set (rev (scripts_of h as))"
    using assms by (force simp: scripts_of_def)
  then have "map_of (rev (scripts_of h as)) (act_name (as ! k)) \<noteq> None"
    by (simp only: map_of_eq_None_iff not_not)
  then show ?thesis by (auto simp: final_script_def map_add_def split: option.split)
qed

lemma final_script_standard:
  "name \<in> {''start'', ''stop'', ''reload''} \<Longrightarrow> \<exists>t. final_script h b as name = Some t"
  by (auto simp: final_script_def map_add_def split: option.split)

lemma create_statedir_ok:
  assumes "can_set_up cfg h b as fs"
  shows "\<exists>fs' D L. create_buddy_statedir cfg h b fs = Inr fs' \<and> spells (SvcRunPath cfg @ ''/'' @ Name b) D \<and>
    statedir fs' D (final_script h b as) L \<and>
    (\<forall>x\<in>{''start'', ''stop'', ''reload''}. L x = Some (SvcRunPath cfg @ ''/'' @ Name b @ ''/scripts/'' @ x)) \<and>
    (\<forall>k<length as. L (two_digits k) = Some (SvcRunPath cfg @ ''/'' @ Name b @ ''/scripts/'' @ act_name (as ! k)))"
proof -
  define dir where "dir = SvcRunPath cfg @ CHR ''/'' # Name b"
  obtain d r where base: "absolute (SvcRunPath cfg)" "spells (SvcRunPath cfg) (d @ [r])" "real_dirs fs d"
    "node_at fs (d @ [r]) \<in> {None, Some Dir}" "\<forall>q. node_at fs (d @ r # Name b # q) = None"
    using assms by (auto simp: can_set_up_def)
  have b: "plain (Name b)" "CustomActions b = Some as" "length as \<le> 100"
    "cstr_read h (StartScript b) = Inr (text_of h (StartScript b))"
    "cstr_read h (StopScript b) = Inr (text_of h (StopScript b))"
    "cstr_read h (ReloadScript b) = Inr (text_of h (ReloadScript b))"
    "length dir + 20 < UPK_MAX_PATH_LEN" "\<forall>a\<in>set as. action_ok h dir a"
    using assms by (auto simp: can_set_up_def dir_def intro!: cstr_read_text)
  let ?D = "d @ [r, Name b]"
  have D: "spells dir ?D" using spells_snoc [OF base(2) b(1)] by (simp add: dir_def)
  have abs: "absolute dir" using base(1) by (auto simp: absolute_Cons dir_def)
  let ?src = "\<lambda>x. dir @ ''/scripts/'' @ x"
  obtain fs0 where fs0: "bind_c (make_subdir (SvcRunPath cfg) fs) (\<lambda>fs.
      bind_c (make_subdir dir fs) (\<lambda>fs.
      bind_c (make_subdir (dir @ ''/actions'') fs) (\<lambda>fs.
      bind_c (make_subdir (dir @ ''/scripts'') fs) (make_subdir (dir @ ''/log''))))) = Inr fs0"
    "statedir fs0 ?D Map.empty Map.empty"
    using make_dirs_ok [OF base(2-5) b(1)] b(7) by (auto simp: dir_def)
  obtain fs1 where fs1: "make_action h dir ''start'' ''start'' (StartScript b) fs0 = Inr fs1"
    "statedir fs1 ?D [''start'' \<mapsto> text_of h (StartScript b)] [''start'' \<mapsto> ?src ''start'']"
    by (rule make_action_ok [OF fs0(2) D abs _ _ _ b(4), of "''start''" "''start''"]) (use b(7) in auto)
  obtain fs2 where fs2: "make_action h dir ''stop'' ''stop'' (StopScript b) fs1 = Inr fs2"
    "statedir fs2 ?D [''start'' \<mapsto> text_of h (StartScript b), ''stop'' \<mapsto> text_of h (StopScript b)]
      [''start'' \<mapsto> ?src ''start'', ''stop'' \<mapsto> ?src ''stop'']"
    by (rule make_action_ok [OF fs1(2) D abs _ _ _ b(5), of "''stop''" "''stop''"]) (use b(7) in auto)
  let ?W = "[''start'' \<mapsto> text_of h (StartScript b), ''stop'' \<mapsto> text_of h (StopScript b),
      ''reload'' \<mapsto> text_of h (ReloadScript b)]"
    and ?L = "[''start'' \<mapsto> ?src ''start'', ''stop'' \<mapsto> ?src ''stop'', ''reload'' \<mapsto> ?src ''reload'']"
  obtain fs3 where fs3: "make_action h dir ''reload'' ''reload'' (ReloadScript b) fs2 = Inr fs3"
    "statedir fs3 ?D ?W ?L"
    by (rule make_action_ok [OF fs2(2) D abs _ _ _ b(6), of "''reload''" "''reload''"]) (use b(7) in auto)
  have labels: "two_digits k \<notin> {''start'', ''stop'', ''reload''}" if "k < length as" for k
    using two_digits(3) [of k] that b(3) by simp
  have "\<exists>fs' L'. make_custom_actions h dir 0 as fs3 = Inr fs' \<and>
      statedir fs' ?D (?W ++ map_of (rev (scripts_of h as))) L' \<and>
      (\<forall>k<length as. L' (two_digits (0 + k)) = Some (?src (act_name (as ! k)))) \<and>
      (\<forall>l. (\<forall>k<length as. l \<noteq> two_digits (0 + k)) \<longrightarrow> L' l = ?L l)"
    by (rule make_custom_actions_ok [OF fs3(2) D abs]) (use b(3,7,8) labels in auto)
  then obtain fs4 L where fs4: "make_custom_actions h dir 0 as fs3 = Inr fs4"
    "statedir fs4 ?D (final_script h b as) L"
    "\<forall>k<length as. L (two_digits k) = Some (?src (act_name (as ! k)))"
    "\<forall>l. (\<forall>k<length as. l \<noteq> two_digits k) \<longrightarrow> L l = ?L l"
    unfolding final_script_def by auto
  obtain fs5 where fs5: "make_link (controller_socket cfg) (dir @ CHR ''/'' # ''controller.sock'') fs4 = Inr fs5"
    "statedir fs5 ?D (final_script h b as) L"
    by (rule make_link_ok [OF fs4(2) D, of "''controller.sock''" "controller_socket cfg"]) (use b(7) in auto)
  have "create_buddy_statedir cfg h b fs = Inr fs5"
    using fs0(1) fs1(1) fs2(1) fs3(1) fs4(1) fs5(1) b(2)
    by (auto simp: create_buddy_statedir_def Let_def bind_c_Inr_iff simp flip: dir_def)
  moreover have "L x = Some (?src x)" if "x \<in> {''start'', ''stop'', ''reload''}" for x
  proof -
    have "\<forall>k<length as. x \<noteq> two_digits k" using labels that by blast
    with fs4(4) have "L x = ?L x" by blast
    with that show ?thesis by auto
  qed
  ultimately show ?thesis
    using D fs4(3) fs5(2) by (auto simp: dir_def)
qed


text \<open>C7: the directory \<open>create_buddy_statedir\<close> sets up: every action the buddy may be asked to run,
  \<open>start\<close>, \<open>stop\<close>, \<open>reload\<close> and the custom ones under their two-digit numbers, leads through its link to
  an executable file with the script last written under the action's name.  So a custom action that is
  itself called \<open>start\<close> replaces the start script of the service.\<close>

theorem statedir_actions:
  assumes "can_set_up cfg h b as fs"
  shows "\<exists>fs'. create_buddy_statedir cfg h b fs = Inr fs' \<and>
    (\<forall>x\<in>{''start'', ''stop'', ''reload''}.
       stat_file fs' (SvcRunPath cfg @ ''/'' @ Name b @ ''/actions/'' @ x) =
         Some (Regular (the (final_script h b as x)) 0x1ED)) \<and>
    (\<forall>k<length as.
       stat_file fs' (SvcRunPath cfg @ ''/'' @ Name b @ ''/actions/'' @ fixed_digits 10 2 k) =
         Some (Regular (the (final_script h b as (act_name (as ! k)))) 0x1ED))"
proof -
  let ?dir = "SvcRunPath cfg @ ''/'' @ Name b"
  obtain fs' D L where c: "create_buddy_statedir cfg h b fs = Inr fs'" "spells ?dir D"
    "statedir fs' D (final_script h b as) L"
    "\<forall>x\<in>{''start'', ''stop'', ''reload''}. L x = Some (?dir @ ''/scripts/'' @ x)"
    "\<forall>k<length as. L (two_digits k) = Some (?dir @ ''/scripts/'' @ act_name (as ! k))"
    using create_statedir_ok [OF assms] by auto
  have abs: "absolute ?dir" and len: "length as \<le> 100" and ok: "\<forall>a\<in>set as. plain (act_name a)"
    using assms by (auto simp: can_set_up_def absolute_Cons action_ok_def)
  note look = statedir_lookup [OF c(3,2) abs]
  have "stat_file fs' (?dir @ ''/actions/'' @ x) = Some (Regular (the (final_script h b as x)) 0x1ED)"
    if x: "x \<in> {''start'', ''stop'', ''reload''}" for x
  proof -
    obtain t where "final_script h b as x = Some t" using final_script_standard [OF x] by blast
    with look [of x x t] c(4) x show ?thesis by auto
  qed
  moreover have "stat_file fs' (?dir @ ''/actions/'' @ fixed_digits 10 2 k) =
      Some (Regular (the (final_script h b as (act_name (as ! k)))) 0x1ED)" if k: "k < length as" for k
  proof -
    have k100: "k < 100" and pl: "plain (act_name (as ! k))" using k len ok by simp_all
    have link: "L (two_digits k) = Some (?dir @ ''/scripts/'' @ act_name (as ! k))"
      using c(5) k by blast
    obtain t where t: "final_script h b as (act_name (as ! k)) = Some t"
      using final_script_custom [OF k] by blast
    show ?thesis
      using look [OF two_digits(2) [OF k100] pl link t] two_digits(1) [OF k100] t by simp
  qed
  ultimately show ?thesis using c(1) by auto
qed

text \<open>A service on an empty disk, with one custom action that takes the name of the start script.\<close>

definition sample_actions :: "upk_cust_actscr list" where
  "sample_actions = [\<lparr>act_name = ''start'', act_script = Some 2\<rparr>]"

definition sample_service :: upk_svc_desc where
  "sample_service = upk_svc_desc_clear\<lparr>Name := ''w'', StartScript := Some 0, StopScript := Some 1,
     ReloadScript := Some 1, CustomActions := Some sample_actions\<rparr>"

lemma statedir_actions_witness:
  "\<exists>fs'. create_buddy_statedir sample_ctrl_cfg sample_heap sample_service [] = Inr fs' \<and>
    stat_file fs' ''/r/w/actions/start'' = Some (Regular ''logger'' 0x1ED) \<and>
    stat_file fs' ''/r/w/actions/00'' = Some (Regular ''logger'' 0x1ED)"
proof -
  have sp: "spells ''/r'' [''r'']" by (simp add: spells_def)
  have "\<exists>d r. absolute ''/r'' \<and> spells ''/r'' (d @ [r]) \<and> real_dirs [] d \<and>
      node_at [] (d @ [r]) \<in> {None, Some Dir} \<and> (\<forall>q. node_at [] (d @ r # ''w'' # q) = None)"
    using sp by (intro exI [of _ "[]"] exI [of _ "''r''"]) (simp add: absolute_def real_dirs_def node_at_def)
  then have "can_set_up sample_ctrl_cfg sample_heap sample_service sample_actions []"
    by (simp add: can_set_up_def sample_ctrl_cfg_def sample_service_def sample_actions_def sample_heap_def
        plain_def cstr_read_def action_ok_def UPK_MAX_PATH_LEN_def)
  from statedir_actions [OF this] show ?thesis
    by (auto simp: sample_ctrl_cfg_def sample_service_def sample_actions_def final_script_def scripts_of_def
        text_of_def cstr_read_def sample_heap_def hex_digit_def numeral_2_eq_2)
qed

end
