(* ===== verification/Buddy_Main.thy ===== *)
theory Buddy_Main
  imports Ctrl_Statedir
begin

text \<open>
  The start of a buddy: the command line (\<open>controller/buddy_main.c\<close>), with \<open>getopt_long\<close> of the C library,
  and \<open>buddy_init\<close> of \<open>controller/buddy.c\<close> up to its socket.  Descriptors, signal handlers, the random seed and the
  identity of the process are left out; \<open>umask\<close> is, too, so a log file has the mode it is asked for.
\<close>

section \<open>Options\<close>

text \<open>One result of \<open>getopt_long\<close>: an option with its argument, one of the two without a letter, or an error.\<close>

datatype opt = Opt char "string option" | Opt_long string string | Opt_bad

definition long_options :: "(string \<times> bool \<times> char) list" where
  "long_options =
     [(''quiet'', False, CHR ''q''), (''verbose'', False, CHR ''v''), (''version'', False, CHR ''V''),
      (''help'', False, CHR ''h''), (''ringbuffer_size'', True, CHR ''R''), (''rb_size'', True, CHR ''R''),
      (''retries'', True, CHR ''r''), (''setuid'', True, CHR ''u''), (''setgid'', True, CHR ''g''),
      (''respawn_ratelimit'', True, CHR ''l''), (''restart_window'', True, CHR ''w''),
      (''max_restarts'', True, CHR ''M''), (''runaway_ratelimit'', True, CHR ''L''),
      (''buddy_path'', True, CHR 0x00), (''buddy_uuid'', True, CHR 0x00), (''kill_timeout'', True, CHR ''k''),
      (''initialize_supplemental_groups'', False, CHR ''i''), (''init_sup_groups'', False, CHR ''i''),
      (''isg'', False, CHR ''i''), (''clear_supplemental_groups'', False, CHR ''c''),
      (''clear_sup_groups'', False, CHR ''c''), (''csg'', False, CHR ''c'')]"

text \<open>A long option may be abbreviated, as long as all that it may stand for are the same.\<close>

definition find_long :: "string \<Rightarrow> (string \<times> bool \<times> char) option" where
  "find_long name =
     (case find (\<lambda>(n, _). n = name) long_options of Some e \<Rightarrow> Some e
      | None \<Rightarrow>
          (case filter (\<lambda>(n, _). take (length name) n = name) long_options of [] \<Rightarrow> None
           | e # es \<Rightarrow> if list_all (\<lambda>f. snd f = snd e) es then Some e else None))"

text \<open>The letters after a single hyphen, with the one that takes the next word as its argument.\<close>

fun short_opts :: "string \<Rightarrow> opt list \<times> char option" where
  "short_opts [] = ([], None)"
| "short_opts (c # cs) =
     (if c \<in> set ''qhv'' then (case short_opts cs of (os, next) \<Rightarrow> (Opt c None # os, next))
      else if c \<in> set ''Rrug'' then (if cs = [] then ([], Some c) else ([Opt c (Some cs)], None))
      else (case short_opts cs of (os, next) \<Rightarrow> (Opt_bad # os, next)))"

definition split_eq :: "string \<Rightarrow> string \<times> string option" where
  "split_eq s =
     (let n = takeWhile (\<lambda>c. c \<noteq> CHR ''='') s in
      (n, if length n < length s then Some (drop (length n + 1) s) else None))"

definition long_opt :: "string \<Rightarrow> char \<Rightarrow> string option \<Rightarrow> opt" where
  "long_opt n c v = (if c = CHR 0x00 then Opt_long n (case v of None \<Rightarrow> '''' | Some s \<Rightarrow> s) else Opt c v)"

definition add_opts :: "opt list \<Rightarrow> opt list \<times> string list \<Rightarrow> opt list \<times> string list" where
  "add_opts os r = (os @ fst r, snd r)"

text \<open>All results in their order, and the words that are no options, which are moved behind them.\<close>

fun getopt_long :: "string list \<Rightarrow> opt list \<times> string list" where
  "getopt_long [] = ([], [])"
| "getopt_long (a # as) =
     (if a = ''--'' then ([], as)
      else if take 2 a = ''--'' then
        (let (name, v) = split_eq (drop 2 a) in
         case find_long name of None \<Rightarrow> add_opts [Opt_bad] (getopt_long as)
         | Some (n, has_arg, c) \<Rightarrow>
             if \<not> has_arg then add_opts [if v = None then long_opt n c None else Opt_bad] (getopt_long as)
             else
               (case v of Some s \<Rightarrow> add_opts [long_opt n c (Some s)] (getopt_long as)
                | None \<Rightarrow>
                    (case as of [] \<Rightarrow> ([Opt_bad], [])
                     | b # bs \<Rightarrow> add_opts [long_opt n c (Some b)] (getopt_long bs))))
      else if take 1 a = ''-'' \<and> a \<noteq> ''-'' then
        (case short_opts (tl a) of
           (os, None) \<Rightarrow> add_opts os (getopt_long as)
         | (os, Some c) \<Rightarrow>
             (case as of [] \<Rightarrow> (os @ [Opt_bad], [])
              | b # bs \<Rightarrow> add_opts (os @ [Opt c (Some b)]) (getopt_long bs)))
      else (case getopt_long as of (os, words) \<Rightarrow> (os, a # words)))"

declare getopt_long.simps [simp del]

text \<open>The global variables an option sets.\<close>

record buddy_opts = buddy_cfg +
  upk_diag_verbosity :: int
  buddy_root_path :: string
  buddy_setuid :: u32
  buddy_setgid :: u32
  initialize_supplemental_groups :: bool
  clear_supplemental_groups :: bool
  buddy_service_name :: "string option"

text \<open>As they are when \<open>main\<close> calls \<open>opt_parse\<close>.\<close>

definition main_opts :: buddy_opts where
  "main_opts =
     \<lparr>ringbuffer_size = 32, reconnect_retries = 5, user_ratelimit = 0, randomize_ratelimit = False,
      runaway_ratelimit = 300, user_max_restarts = 10, user_restart_window = 5, kill_timeout = - 1,
      buddy_uuid = zero_uuid, upk_diag_verbosity = 5, buddy_root_path = '''', buddy_setuid = 0, buddy_setgid = 0,
      initialize_supplemental_groups = False, clear_supplemental_groups = False, buddy_service_name = None\<rparr>"

text \<open>\<open>numeric_string\<close> is \<open>upk_numeric_string\<close> over again; its result replaces what was known to be invalid.\<close>

definition with_number ::
    "string option \<Rightarrow> (int \<Rightarrow> buddy_opts \<Rightarrow> buddy_opts) \<Rightarrow> buddy_opts \<Rightarrow> bool \<times> buddy_opts" where
  "with_number arg f g =
     (case arg of None \<Rightarrow> (False, g)
      | Some s \<Rightarrow> (case upk_numeric_string s of None \<Rightarrow> (False, g) | Some num \<Rightarrow> (True, f num g)))"

definition handle_long :: "string \<Rightarrow> string \<Rightarrow> bool \<times> buddy_opts \<Rightarrow> bool \<times> buddy_opts" where
  "handle_long name arg vg =
     (case vg of (valid, g) \<Rightarrow>
        if take (length ''buddy_path'') name = ''buddy_path''
        then (valid, g\<lparr>buddy_root_path := take (UPK_MAX_PATH_LEN - 1) arg\<rparr>)
        else if take (length ''buddy_uuid'') name = ''buddy_uuid'' \<and> is_valid_upk_uuid_string arg
        then (valid, g\<lparr>buddy_uuid := upk_string_to_uuid (buddy_uuid g) arg\<rparr>)
        else (False, g))"

definition handle_opt :: "opt \<Rightarrow> bool \<times> buddy_opts \<Rightarrow> bool \<times> buddy_opts" where
  "handle_opt opt vg =
     (case vg of (valid, g) \<Rightarrow>
      case opt of
        Opt_long name arg \<Rightarrow> handle_long name arg vg
      | Opt_bad \<Rightarrow> (False, g)
      | Opt c arg \<Rightarrow>
          if c = CHR ''q'' then (valid, g\<lparr>upk_diag_verbosity := upk_diag_verbosity g - 1\<rparr>)
          else if c = CHR ''v'' then (valid, g\<lparr>upk_diag_verbosity := upk_diag_verbosity g + 1\<rparr>)
          else if c = CHR ''R'' then with_number arg (\<lambda>num g. g\<lparr>ringbuffer_size := nat num\<rparr>) g
          else if c = CHR ''r'' then with_number arg (\<lambda>num g. g\<lparr>reconnect_retries := num\<rparr>) g
          else if c = CHR ''u'' then with_number arg (\<lambda>num g. g\<lparr>buddy_setuid := of_int num\<rparr>) g
          else if c = CHR ''g'' then with_number arg (\<lambda>num g. g\<lparr>buddy_setgid := of_int num\<rparr>) g
          else if c = CHR ''l'' then with_number arg (\<lambda>num g. g\<lparr>user_ratelimit := of_int num\<rparr>) g
          else if c = CHR ''w'' then with_number arg (\<lambda>num g. g\<lparr>user_restart_window := of_int num\<rparr>) g
          else if c = CHR ''M'' then with_number arg (\<lambda>num g. g\<lparr>user_max_restarts := of_int num\<rparr>) g
          else if c = CHR ''L'' then with_number arg (\<lambda>num g. g\<lparr>runaway_ratelimit := of_int num\<rparr>) g
          else if c = CHR ''i'' then (valid, g\<lparr>initialize_supplemental_groups := True\<rparr>)
          else if c = CHR ''c'' then (valid, g\<lparr>clear_supplemental_groups := True\<rparr>)
          else if c = CHR ''k'' then with_number arg (\<lambda>num g. g\<lparr>kill_timeout := sint (of_int num :: u32)\<rparr>) g
          else (False, g))"

definition opt_parse :: "string list \<Rightarrow> buddy_opts \<Rightarrow> bool \<times> buddy_opts" where
  "opt_parse args g =
     (let (os, words) = getopt_long args; (valid, g) = fold handle_opt os (True, g);
          words = (if take 1 words = [''--''] then tl words else words) in
      case words of [] \<Rightarrow> (False, g)
      | name # _ \<Rightarrow> (valid, g\<lparr>buddy_service_name := Some (take UPK_MAX_STRING_LEN name)\<rparr>))"

section \<open>Initialization\<close>

definition buddy_init_paths :: "buddy_opts \<Rightarrow> string cres" where
  "buddy_init_paths g =
     (case buddy_service_name g of None \<Rightarrow> Inl Null_deref
      | Some name \<Rightarrow>
          if UPK_MAX_PATH_LEN < length (buddy_root_path g) + length (take UPK_MAX_STRING_LEN name) + length ''actions/reload''
          then Inl Exit_failure
          else Inr (take (UPK_MAX_PATH_LEN - 2) (buddy_root_path g @ ''/'' @ name)))"

definition buddy_path :: "string \<Rightarrow> string \<Rightarrow> string" where
  "buddy_path prefix suffix = take (UPK_MAX_PATH_LEN - 2) (prefix @ ''/'' @ take (UPK_MAX_PATH_LEN - 2) suffix)"

text \<open>\<open>freopen\<close> to append, which makes the file when there is none.\<close>

definition open_append :: "string \<Rightarrow> fs \<Rightarrow> fs" where
  "open_append s fs =
     (case namei fs s of None \<Rightarrow> fs
      | Some p \<Rightarrow> if can_create fs p then put_node p (Regular '''' 0x1B6) fs else fs)"

text \<open>\<open>bind\<close> is inside an \<open>assert\<close>; its address has room for 107 characters.\<close>

definition buddy_init_socket :: "string \<Rightarrow> fs \<Rightarrow> fs cres" where
  "buddy_init_socket prefix fs =
     (let path = buddy_path prefix ''buddy.sock'';
          fs = snd (unlink path fs);
          (ok, fs) = make_node Socket (take (SUN_PATH_LEN - 1) path) fs in
      if ok then Inr fs else Inl Abort)"

text \<open>The prefix of the paths of the buddy, the files, and the state its event loop begins with.\<close>

definition start_buddy :: "buddy_opts \<Rightarrow> int \<Rightarrow> fs \<Rightarrow> (string \<times> fs \<times> buddy) cres" where
  "start_buddy g t fs =
     bind_c (buddy_init_paths g) (\<lambda>prefix.
     let fs = open_append (buddy_path prefix ''log/buddyerr'') (open_append (buddy_path prefix ''log/buddyout'') fs) in
     bind_c (buddy_init_socket prefix fs) (\<lambda>fs.
     Inr (prefix, fs, buddy_init (buddy_cfg.truncate g) t)))"

text \<open>\<open>None\<close> is the exit after the usage text.\<close>

definition buddy_main :: "string list \<Rightarrow> int \<Rightarrow> fs \<Rightarrow> (string \<times> fs \<times> buddy) option cres" where
  "buddy_main args t fs =
     (case opt_parse args main_opts of (valid, g) \<Rightarrow>
        if valid then bind_c (start_buddy g t fs) (\<lambda>r. Inr (Some r)) else Inr None)"

section \<open>The command line of the controller\<close>

lemma getopt_word: "take 1 a \<noteq> ''-'' \<or> a = ''-'' \<Longrightarrow> getopt_long (a # as) = (fst (getopt_long as), a # snd (getopt_long as))"
  by (subst getopt_long.simps) (auto simp: Let_def split: prod.split dest: arg_cong [of _ _ "take 1"])

lemma long_buddy:
  "split_eq ''buddy_uuid'' = (''buddy_uuid'', None)" "split_eq ''buddy_path'' = (''buddy_path'', None)"
  "find_long ''buddy_uuid'' = Some (''buddy_uuid'', True, CHR 0x00)"
  "find_long ''buddy_path'' = Some (''buddy_path'', True, CHR 0x00)"
  by code_simp+

lemma getopt_long_buddy:
  "getopt_long (''--buddy_uuid'' # u # as) = add_opts [Opt_long ''buddy_uuid'' u] (getopt_long as)"
  "getopt_long (''--buddy_path'' # u # as) = add_opts [Opt_long ''buddy_path'' u] (getopt_long as)"
  by (subst getopt_long.simps, simp add: long_buddy long_opt_def)+

lemma short_verbose: "short_opts (map (\<lambda>_. CHR ''v'') xs) = (map (\<lambda>_. Opt CHR ''v'' None) xs, None)"
  by (induction xs) simp_all

lemma getopt_verbose:
  assumes "xs \<noteq> []"
  shows "getopt_long ((CHR ''-'' # map (\<lambda>_. CHR ''v'') xs) # as) = add_opts (map (\<lambda>_. Opt CHR ''v'' None) xs) (getopt_long as)"
  using assms by (subst getopt_long.simps) (cases xs; simp add: short_verbose)

lemma fold_verbose: "fold handle_opt (map (\<lambda>_. Opt CHR ''v'' None) xs) (v, g) =
    (v, g\<lparr>upk_diag_verbosity := upk_diag_verbosity g + int (length xs)\<rparr>)"
  by (induction xs arbitrary: g) (simp_all add: handle_opt_def)

text \<open>The word the buddy takes for the name of its service.\<close>

definition first_word :: "u32 \<Rightarrow> string \<Rightarrow> string" where
  "first_word v name = (if v = 0 then '''' else if v = 1 then ''-'' else name)"

lemma controller_opts:
  assumes "take 1 name \<noteq> ''-''" and "length (uu_node u) = 6" and "length name < UPK_MAX_STRING_LEN"
    and "length path < UPK_MAX_PATH_LEN"
  shows "\<exists>n. opt_parse [buddy_verbosity v, ''--buddy_uuid'', upk_uuid_to_string u, ''--buddy_path'', path, name] main_opts =
    (True, main_opts\<lparr>upk_diag_verbosity := n, buddy_uuid := upk_string_to_uuid zero_uuid (upk_uuid_to_string u),
       buddy_root_path := path, buddy_service_name := Some (first_word v name)\<rparr>)"
proof -
  let ?U = "upk_uuid_to_string u" and ?xs = "[1..<min (unat v) 15]"
  let ?tail = "[''--buddy_uuid'', ?U, ''--buddy_path'', path, name]"
  have "getopt_long [name] = ([], [name])" using getopt_word [of name "[]"] assms(1) by (simp add: getopt_long.simps(1))
  then have tail: "getopt_long ?tail = ([Opt_long ''buddy_uuid'' ?U, Opt_long ''buddy_path'' path], [name])"
    by (simp add: getopt_long_buddy add_opts_def)
  define set_long where "set_long = (\<lambda>g :: buddy_opts. g\<lparr>buddy_uuid := upk_string_to_uuid zero_uuid ?U, buddy_root_path := path\<rparr>)"
  have name: "name \<noteq> ''--''" using assms(1) by auto
  have valid: "is_valid_upk_uuid_string ?U" using assms(2) by (rule uuid_string_valid)
  have long: "fold handle_opt [Opt_long ''buddy_uuid'' ?U, Opt_long ''buddy_path'' path] (True, main_opts\<lparr>upk_diag_verbosity := n\<rparr>) =
      (True, set_long (main_opts\<lparr>upk_diag_verbosity := n\<rparr>))" for n
    using assms(4) by (simp add: handle_opt_def handle_long_def valid set_long_def main_opts_def)
  have same: "main_opts\<lparr>upk_diag_verbosity := 5\<rparr> = main_opts" by (simp add: main_opts_def)
  consider (none) "v = 0" | (one) "v = 1" | (more) "v \<noteq> 0" "v \<noteq> 1" by blast
  then show ?thesis
  proof cases
    case none
    then have "getopt_long (buddy_verbosity v # ?tail) = ([Opt_long ''buddy_uuid'' ?U, Opt_long ''buddy_path'' path], ['''', name])"
      by (simp add: buddy_verbosity_def getopt_word tail)
    then show ?thesis
      using long [of 5] none unfolding same
      by (intro exI [of _ 5]) (simp add: opt_parse_def first_word_def set_long_def main_opts_def)
  next
    case one
    then have "getopt_long (buddy_verbosity v # ?tail) = ([Opt_long ''buddy_uuid'' ?U, Opt_long ''buddy_path'' path], [''-'', name])"
      by (simp add: buddy_verbosity_def getopt_word tail)
    then show ?thesis
      using long [of 5] one unfolding same
      by (intro exI [of _ 5]) (simp add: opt_parse_def first_word_def set_long_def main_opts_def UPK_MAX_STRING_LEN_def)
  next
    case more
    then have "unat v \<noteq> 0" "unat v \<noteq> 1" by (simp_all add: word_unat_eq_iff)
    then have "?xs \<noteq> []" by (simp add: upt_rec)
    then have "getopt_long (buddy_verbosity v # ?tail) =
        (map (\<lambda>_. Opt CHR ''v'' None) ?xs @ [Opt_long ''buddy_uuid'' ?U, Opt_long ''buddy_path'' path], [name])"
      using more by (simp add: buddy_verbosity_def word_gt_0 getopt_verbose tail add_opts_def)
    then show ?thesis
      using long [of "5 + int (length ?xs)"] fold_verbose [of ?xs True main_opts] more assms(3) name
      by (intro exI [of _ "5 + int (length ?xs)"])
        (simp add: opt_parse_def first_word_def set_long_def main_opts_def del: fold_simps length_upt)
  qed
qed

section \<open>The files of a buddy that starts\<close>

definition nothing_at :: "fs \<Rightarrow> path \<Rightarrow> bool" where
  "nothing_at fs p \<longleftrightarrow> (\<forall>q. node_at fs (p @ q) = None)"

lemma nothing_at_link: "nothing_at fs p \<Longrightarrow> \<not> is_link fs (p @ q)"
  by (simp add: nothing_at_def is_link_def)

lemma walk_nothing:
  assumes "spells s (p @ q)" and "real_dirs fs p" and "\<And>k. k < length q \<Longrightarrow> \<not> is_link fs (p @ take (Suc k) q)"
  shows "namei fs s = Some (p @ q)"
proof -
  have "\<not> is_link fs (take (Suc k) (p @ q))" if "k < length (p @ q)" for k
  proof (cases "k < length p")
    case True
    then show ?thesis using real_dirs_not_link [OF assms(2), of "Suc k"] by simp
  next
    case False
    then show ?thesis using that assms(3) [of "k - length p"] by (simp add: Suc_diff_le)
  qed
  then have links: "\<forall>k<length (p @ q). \<not> is_link fs ([] @ take (Suc k) (p @ q))" by simp
  have ws: "filter (\<lambda>w. w \<noteq> '''') (split_slash s) = p @ q" and plain: "\<forall>w\<in>set (p @ q). w \<noteq> ''.'' \<and> w \<noteq> ''..''"
    using assms(1) unfolding spells_def by blast+
  from walk_dirs [OF ws plain, of fs "[]" MAXSYMLINKS] links
  have "walk MAXSYMLINKS fs [] (split_slash s) = Some ([] @ (p @ q))" by blast
  then show ?thesis by (simp add: namei_def)
qed

lemma lnamei_nothing:
  assumes "spells s (p @ [x, y])" and "real_dirs fs p" and "\<not> is_link fs (p @ [x])"
  shows "lnamei fs s = Some (p @ [x, y])"
proof -
  have ws: "filter (\<lambda>w. w \<noteq> '''') (split_slash s) = p @ [x, y]" using assms(1) by (simp add: spells_def)
  have plain: "w \<noteq> '''' \<and> w \<noteq> ''.'' \<and> w \<noteq> ''..''" if "w \<in> set (p @ [x])" for w
    using spells_plain [OF assms(1), of w] that by auto
  then have "filter (\<lambda>w. w \<noteq> '''') (p @ [x]) = p @ [x]" by (intro filter_True) blast
  then have "walk MAXSYMLINKS fs [] (p @ [x]) = Some ([] @ (p @ [x]))"
    using plain by (intro walk_dirs path_not_link assms(2,3)) blast+
  then show ?thesis by (simp add: lnamei_def ws Let_def butlast_append)
qed

text \<open>A directory of a buddy whose log files are no links, with nothing where a wrong prefix leads.\<close>

definition ready_dir :: "fs \<Rightarrow> path \<Rightarrow> string \<Rightarrow> bool" where
  "ready_dir fs D name \<longleftrightarrow> real_dirs fs (D @ [''log'']) \<and> \<not> is_link fs (D @ [''log'', ''buddyout'']) \<and>
     \<not> is_link fs (D @ [''log'', ''buddyerr'']) \<and> node_at fs (D @ [''buddy.sock'']) \<in> {None, Some Socket} \<and>
     nothing_at fs (D @ [name]) \<and> nothing_at fs (D @ [''-''])"

lemma append_log:
  assumes "ready_dir fs D name" and "spells s (D @ [''log'', f])" and "f \<in> {''buddyout'', ''buddyerr''}"
  shows "ready_dir (open_append s fs) D name"
proof -
  have dirs: "real_dirs fs D" "real_dirs fs (D @ [''log''])" and link: "\<not> is_link fs ((D @ [''log'']) @ [f])"
    using assms(1,3) by (auto simp: ready_dir_def real_dirs_snoc)
  have at: "namei fs s = Some (D @ [''log'', f])"
    using namei_last [OF _ dirs(2) link, of s] assms(2) by simp
  show ?thesis
  proof (cases "can_create fs (D @ [''log'', f])")
    case True
    then have new: "node_at fs (D @ [''log'', f]) = None" by (simp add: can_create_def)
    then have "node_at fs (D @ [''log'', f]) \<noteq> Some Dir" by simp
    from real_dirs_put [OF dirs(2) this] have "real_dirs (put_node (D @ [''log'', f]) (Regular '''' 0x1B6) fs) (D @ [''log''])" .
    moreover have "name \<noteq> ''log''"
      using assms(1) real_dirs_node [OF dirs(2)] by (auto simp: ready_dir_def nothing_at_def dest: spec [of _ "[]"])
    ultimately show ?thesis
      using assms(1) by (simp add: open_append_def at True ready_dir_def is_link_def nothing_at_def)
  qed (use assms(1) in \<open>simp add: open_append_def at\<close>)
qed

lemma socket_bound:
  assumes "ready_dir fs D name" and "spells (buddy_path prefix ''buddy.sock'') (D @ [''buddy.sock''])"
    and "length (buddy_path prefix ''buddy.sock'') < SUN_PATH_LEN"
  shows "\<exists>fs'. buddy_init_socket prefix fs = Inr fs' \<and> real_dirs fs' D \<and> node_at fs' (D @ [''buddy.sock'']) = Some Socket"
proof -
  let ?s = "buddy_path prefix ''buddy.sock''" and ?p = "D @ [''buddy.sock'']"
  let ?fs = "snd (unlink ?s fs)"
  have dirs: "real_dirs fs D" and node: "node_at fs ?p \<in> {None, Some Socket}"
    using assms(1) by (simp_all add: ready_dir_def real_dirs_snoc)
  have at: "lnamei fs ?s = Some ?p" by (rule lnamei_last [OF assms(2) dirs])
  then have "?fs = (if node_at fs ?p = None then fs else del_node ?p fs)"
    using node by (auto simp: unlink_def)
  then have gone: "node_at ?fs = (node_at fs)(?p := None)" by (auto simp: fun_upd_idem)
  moreover have "take k D \<noteq> ?p" for k by (auto dest: arg_cong [of _ _ length])
  ultimately have dirs2: "real_dirs ?fs D" using dirs by (simp add: real_dirs_def)
  then have "make_node Socket ?s ?fs = (True, put_node ?p Socket ?fs)"
    using gone real_dirs_node [OF dirs2] lnamei_last [OF assms(2) dirs2]
    by (simp add: make_node_def can_create_def)
  moreover have "take (SUN_PATH_LEN - 1) ?s = ?s" using assms(3) by simp
  moreover have "real_dirs (put_node ?p Socket ?fs) D" by (rule real_dirs_put [OF dirs2]) (simp add: gone)
  ultimately show ?thesis by (intro exI [of _ "put_node ?p Socket ?fs"]) (simp add: buddy_init_socket_def Let_def)
qed

lemma socket_lost:
  assumes "real_dirs fs D" and "nothing_at fs (D @ [x])"
    and "spells (buddy_path prefix ''buddy.sock'') (D @ [x, ''buddy.sock''])"
    and "length (buddy_path prefix ''buddy.sock'') < SUN_PATH_LEN"
  shows "buddy_init_socket prefix fs = Inl Abort"
proof -
  let ?s = "buddy_path prefix ''buddy.sock''"
  have "node_at fs ((D @ [x]) @ [''buddy.sock'']) = None" "node_at fs ((D @ [x]) @ []) = None"
    using assms(2) unfolding nothing_at_def by blast+
  moreover have "lnamei fs ?s = Some (D @ [x, ''buddy.sock''])"
    using lnamei_nothing [OF assms(3,1)] nothing_at_link [OF assms(2), of "[]"] by simp
  moreover have "take (SUN_PATH_LEN - 1) ?s = ?s" using assms(4) by simp
  ultimately show ?thesis
    by (simp add: buddy_init_socket_def Let_def unlink_def make_node_def can_create_def butlast_append)
qed

section \<open>Properties\<close>

text \<open>C16: a buddy listens where the controller looks for it exactly when it is started without any
  verbosity.  The controller then passes an empty word, which the buddy takes for the name of its service,
  so that the path it was given is its directory; with a verbosity of one the name is a hyphen, and with
  more it is appended to the path a second time, and the buddy aborts because it cannot bind its socket.\<close>

theorem buddy_meets_controller:
  assumes "spells (SvcRunPath cfg @ ''/'' @ Name svc) D" and "ready_dir fs D (Name svc)" and "plain (Name svc)"
    and "take 1 (Name svc) \<noteq> ''-''" and "length (uu_node (UUID svc)) = 6"
    and "length (SvcRunPath cfg) + 2 * length (Name svc) + 13 < SUN_PATH_LEN"
  shows "\<exists>argv. spawn_buddy cfg svc w = Inr (w\<lparr>spawned := spawned w @ [UpkBuddyPath cfg # argv]\<rparr>) \<and>
    (if BuddyVerbosity cfg = 0 then
       \<exists>prefix fs' b path. buddy_main argv t fs = Inr (Some (prefix, fs', b)) \<and>
         buddy_sock_path cfg svc = Inr path \<and> stat_file fs' path = Some Socket
     else buddy_main argv t fs = Inl Abort)"
proof -
  let ?dir = "SvcRunPath cfg @ ''/'' @ Name svc" and ?v = "BuddyVerbosity cfg"
  let ?argv = "[buddy_verbosity ?v, ''--buddy_uuid'', upk_uuid_to_string (UUID svc), ''--buddy_path'', ?dir, Name svc]"
  have len: "length ?dir + length (Name svc) + 12 < SUN_PATH_LEN" using assms(6) by simp
  then have short: "length (Name svc) < UPK_MAX_STRING_LEN" "length ?dir < UPK_MAX_PATH_LEN"
    by (simp_all add: SUN_PATH_LEN_def UPK_MAX_STRING_LEN_def UPK_MAX_PATH_LEN_def)
  have spawn: "spawn_buddy cfg svc w = Inr (w\<lparr>spawned := spawned w @ [UpkBuddyPath cfg # ?argv]\<rparr>)"
    using short(2) by (simp add: spawn_buddy_def path_buf_def)
  define name where "name = first_word ?v (Name svc)"
  have name_len: "length name \<le> length (Name svc)"
    using assms(3) by (cases "Name svc") (simp_all add: name_def first_word_def plain_def)
  obtain g where g: "opt_parse ?argv main_opts = (True, g)" "buddy_root_path g = ?dir" "buddy_service_name g = Some name"
    using controller_opts [OF assms(4,5) short, of ?v] unfolding name_def by fastforce
  define prefix where "prefix = ?dir @ ''/'' @ name"
  have init: "buddy_init_paths g = Inr prefix"
    using len name_len by (simp add: prefix_def buddy_init_paths_def g SUN_PATH_LEN_def UPK_MAX_PATH_LEN_def UPK_MAX_STRING_LEN_def)
  have path: "buddy_path prefix s = prefix @ ''/'' @ s" if "length s \<le> 12" for s
    using len name_len that by (simp add: prefix_def buddy_path_def SUN_PATH_LEN_def UPK_MAX_PATH_LEN_def)
  have sock_len: "length (buddy_path prefix ''buddy.sock'') < SUN_PATH_LEN"
    using len name_len by (simp add: path) (simp add: prefix_def)
  have dirs: "real_dirs fs D" using assms(2) by (simp add: ready_dir_def real_dirs_snoc)
  let ?logs = "open_append (buddy_path prefix ''log/buddyerr'') (open_append (buddy_path prefix ''log/buddyout'') fs)"
  have main: "buddy_main ?argv t fs = bind_c (buddy_init_socket prefix ?logs)
      (\<lambda>fs. Inr (Some (prefix, fs, buddy_init (buddy_cfg.truncate g) t)))"
    unfolding buddy_main_def g(1) by (simp add: start_buddy_def init bind_c_assoc Let_def)
  show ?thesis
  proof (cases "?v = 0")
    case True
    then have none: "name = ''''" by (simp add: name_def first_word_def)
    have sp: "spells prefix D" using spells_slash_end [OF assms(1)] by (simp add: prefix_def none)
    have log: "spells (buddy_path prefix (''log/'' @ f)) (D @ [''log'', f])" if "f \<in> {''buddyout'', ''buddyerr''}" for f
      using spells_below [OF sp, of "''log''" f] that by (auto simp: path plain_def)
    have "ready_dir ?logs D (Name svc)"
      using append_log [OF append_log [OF assms(2) log] log, of "''buddyout''" "''buddyerr''"] by simp
    moreover have "spells (buddy_path prefix ''buddy.sock'') (D @ [''buddy.sock''])"
      using spells_snoc [OF sp, of "''buddy.sock''"] by (simp add: path plain_def)
    ultimately obtain fs' where fs': "buddy_init_socket prefix ?logs = Inr fs'" "real_dirs fs' D"
      "node_at fs' (D @ [''buddy.sock'']) = Some Socket"
      using socket_bound sock_len by blast
    have "spells (?dir @ ''/buddy.sock'') (D @ [''buddy.sock''])"
      using spells_snoc [OF assms(1), of "''buddy.sock''"] by (simp add: plain_def)
    then have "stat_file fs' (?dir @ ''/buddy.sock'') = Some Socket"
      using namei_last [OF _ fs'(2)] fs'(3) by (simp add: stat_file_def is_link_def)
    moreover have "buddy_sock_path cfg svc = Inr (?dir @ ''/buddy.sock'')"
      using len by (simp add: buddy_sock_path_def path_buf_def SUN_PATH_LEN_def UPK_MAX_PATH_LEN_def)
    ultimately show ?thesis using True spawn main fs'(1) by auto
  next
    case False
    then have name: "plain name" "nothing_at fs (D @ [name])"
      using assms(2,3) by (auto simp: name_def first_word_def ready_dir_def plain_def)
    have sp: "spells prefix (D @ [name])" using spells_snoc [OF assms(1) name(1)] by (simp add: prefix_def)
    have "open_append (buddy_path prefix (''log/'' @ f)) fs = fs" if "f \<in> {''buddyout'', ''buddyerr''}" for f
    proof -
      have "spells (buddy_path prefix (''log/'' @ f)) (D @ [name, ''log'', f])"
        using spells_below [OF sp, of "''log''" f] that by (auto simp: path plain_def)
      then have "namei fs (buddy_path prefix (''log/'' @ f)) = Some (D @ [name, ''log'', f])"
        using nothing_at_link [OF name(2)] by (intro walk_nothing [OF _ dirs]) simp_all
      moreover have "node_at fs (D @ [name, ''log'']) = None"
        using name(2) by (auto simp: nothing_at_def dest: spec [of _ "[''log'']"])
      ultimately show ?thesis by (simp add: open_append_def can_create_def butlast_append)
    qed
    from this [of "''buddyout''"] this [of "''buddyerr''"] have "?logs = fs" by simp
    moreover have "spells (buddy_path prefix ''buddy.sock'') (D @ [name, ''buddy.sock''])"
      using spells_snoc [OF sp, of "''buddy.sock''"] by (simp add: path plain_def)
    ultimately have "buddy_main ?argv t fs = Inl Abort"
      using socket_lost [OF dirs name(2) _ sock_len] unfolding main by simp
    then show ?thesis using False spawn by auto
  qed
qed

text \<open>The service \<open>a\<close>, whose directory has been set up, without verbosity and with two levels of it.\<close>

definition sample_run :: fs where
  "sample_run = [([''r''], Dir), ([''r'', ''a''], Dir), ([''r'', ''a'', ''log''], Dir)]"

lemma sample_run_ready: "ready_dir sample_run [''r'', ''a''] ''a''"
  by (auto simp: ready_dir_def real_dirs_def nothing_at_def is_link_def node_at_def sample_run_def take_Cons' split: if_splits)

theorem buddy_meets_controller_witness:
  "(\<exists>argv. spawn_buddy sample_ctrl_cfg (sample_svc\<lparr>Name := ''a''\<rparr>) sample_ctrl =
       Inr (sample_ctrl\<lparr>spawned := [''/b'' # argv]\<rparr>) \<and>
     (\<exists>prefix fs' b. buddy_main argv 0 sample_run = Inr (Some (prefix, fs', b)) \<and>
       stat_file fs' ''/r/a/buddy.sock'' = Some Socket)) \<and>
   (\<exists>argv. spawn_buddy (sample_ctrl_cfg\<lparr>BuddyVerbosity := 2\<rparr>) (sample_svc\<lparr>Name := ''a''\<rparr>) sample_ctrl =
       Inr (sample_ctrl\<lparr>spawned := [''/b'' # argv]\<rparr>) \<and> buddy_main argv 0 sample_run = Inl Abort)"
proof -
  have facts: "spells ''/r/a'' [''r'', ''a'']" "plain ''a''" "length (uu_node (UUID sample_svc)) = 6"
    "spawned sample_ctrl = []" "''/r'' @ ''/'' @ ''a'' = ''/r/a''"
    by (simp_all add: spells_def plain_def sample_svc_def upk_svc_desc_clear_def zero_uuid_def sample_ctrl_def)
  show ?thesis
    using buddy_meets_controller [of sample_ctrl_cfg "sample_svc\<lparr>Name := ''a''\<rparr>" "[''r'', ''a'']" sample_run sample_ctrl 0]
      buddy_meets_controller [of "sample_ctrl_cfg\<lparr>BuddyVerbosity := 2\<rparr>" "sample_svc\<lparr>Name := ''a''\<rparr>" "[''r'', ''a'']"
        sample_run sample_ctrl 0] facts sample_run_ready
    by (auto simp: sample_ctrl_cfg_def SUN_PATH_LEN_def buddy_sock_path_def path_buf_def UPK_MAX_PATH_LEN_def)
qed

text \<open>A numeric option that is valid makes the options before it valid, whatever they were.\<close>

lemma number_forgives:
  assumes "upk_numeric_string s = Some num" and "c \<in> set ''RruglwMLk''"
  shows "fst (handle_opt (Opt c (Some s)) (v, g))"
  using assms(2) unfolding list.set insert_iff empty_iff
  by (elim disjE) (simp_all add: handle_opt_def with_number_def assms(1))

text \<open>Zero is no number, so that a buddy cannot be told not to retry, or to keep the identity of the superuser.\<close>

lemma zero_is_invalid:
  assumes "c \<in> set ''RruglwMLk''"
  shows "handle_opt (Opt c (Some ''0'')) (v, g) = (False, g)"
  using assms unfolding list.set insert_iff empty_iff
  by (elim disjE) (simp_all add: handle_opt_def with_number_def numeric_string_zero)

end
