(* ===== verification/Buddy_Safety.thy ===== *)
theory Buddy_Safety
  imports Buddy_Loop
begin

text \<open>
  What holds in every state the buddy can reach.  The invariants of interest speak of the ring, the pid
  of the service and the signal mask, and are closed under the few ways the code changes these; the
  locale \<open>core_invariant\<close> says which, and proves the preservation by every operation and every step once.
  It is interpreted on three invariants: the ring is well formed, the mask never shrinks, and a buddy
  that has blocked \<open>SIGCHLD\<close> never sees its service end.
\<close>

section \<open>The order of masks\<close>

definition mask_rank :: "sigmask \<Rightarrow> nat" where
  "mask_rank m = (case m of Unblocked \<Rightarrow> 0 | Chld_blocked \<Rightarrow> 1 | All_blocked \<Rightarrow> 2)"

instantiation sigmask :: linorder
begin

definition less_eq_sigmask :: "sigmask \<Rightarrow> sigmask \<Rightarrow> bool" where
  "less_eq_sigmask m m' \<longleftrightarrow> mask_rank m \<le> mask_rank m'"

definition less_sigmask :: "sigmask \<Rightarrow> sigmask \<Rightarrow> bool" where
  "less_sigmask m m' \<longleftrightarrow> mask_rank m < mask_rank m'"

instance
  by standard (auto simp: less_eq_sigmask_def less_sigmask_def mask_rank_def split: sigmask.splits)

end

lemma mask_le [simp]: "m \<le> All_blocked" "Unblocked \<le> m" "m \<le> block_chld m"
  "Chld_blocked \<le> m \<longleftrightarrow> m \<noteq> Unblocked" "All_blocked \<le> m \<longleftrightarrow> m = All_blocked"
  by (cases m; simp add: less_eq_sigmask_def mask_rank_def block_chld_def)+

section \<open>Invariants of every operation\<close>

lemma same_program_core:
  assumes "same_program_state b b'"
  shows "info_ringbuffer b' = info_ringbuffer b" and "proc_pid b' = proc_pid b" and "mask b' = mask b"
  using assms [unfolded same_program_state_def, THEN arg_cong, of info_ringbuffer]
    assms [unfolded same_program_state_def, THEN arg_cong, of proc_pid]
    assms [unfolded same_program_state_def, THEN arg_cong, of mask]
  by simp_all

locale core_invariant =
  fixes sz :: nat
    and I :: "ring \<Rightarrow> int \<Rightarrow> sigmask \<Rightarrow> bool"
  assumes ring: "I r p m \<Longrightarrow> ring_ok sz r"
    and other_ring: "I r p m \<Longrightarrow> ring_ok sz r' \<Longrightarrow> I r' p m"
    and reaped: "I r p Unblocked \<Longrightarrow> I r 0 Unblocked"
    and started: "I r 0 m \<Longrightarrow> I r p m"
    and mask_up: "I r p m \<Longrightarrow> m \<le> m' \<Longrightarrow> I r p m'"
    and mask_back: "I r p m \<Longrightarrow> I r' p' m' \<Longrightarrow> I r' p' m"
begin

definition holds :: "buddy \<Rightarrow> bool" where
  "holds b \<longleftrightarrow> I (info_ringbuffer b) (proc_pid b) (mask b)"

lemma holds_frame [simp]:
  "holds (b\<lparr>stop_n := n\<rparr>) = holds b" "holds (b\<lparr>exec_stat := k\<rparr>) = holds b" "holds (b\<lparr>naps := ns\<rparr>) = holds b"
  "holds (b\<lparr>trace := t\<rparr>) = holds b" "holds (b\<lparr>desired_state := d\<rparr>) = holds b"
  "holds (b\<lparr>last_command := c\<rparr>) = holds b" "holds (b\<lparr>this_command := c\<rparr>) = holds b"
  "holds (b\<lparr>buddy_shutdown := sh\<rparr>) = holds b" "holds (b\<lparr>chld_terminated := ct\<rparr>) = holds b"
  "holds (b\<lparr>jitter := j\<rparr>) = holds b" "holds (b\<lparr>force_ratelimit := f\<rparr>) = holds b"
  "holds (b\<lparr>rapid_respawn_count := rc\<rparr>) = holds b" "holds (b\<lparr>respawn_timestamp := ts\<rparr>) = holds b"
  "holds (b\<lparr>buddy_ctrlfd := fd\<rparr>) = holds b" "holds (b\<lparr>flush_ack := c\<rparr>) = holds b"
  "holds (b\<lparr>reads := rs\<rparr>) = holds b" "holds (b\<lparr>writes := ws\<rparr>) = holds b"
  "holds (b\<lparr>connects := cs\<rparr>) = holds b" "holds (b\<lparr>read_ncount := i\<rparr>) = holds b"
  "holds (b\<lparr>write_ncount := i\<rparr>) = holds b" "holds (emit e b) = holds b"
  by (simp_all add: holds_def emit_def)

lemma holds_mask:
  "holds b \<Longrightarrow> mask b \<le> m \<Longrightarrow> holds (b\<lparr>mask := m\<rparr>)"
  by (auto simp: holds_def intro: mask_up)

lemma holds_mask_back:
  "holds b \<Longrightarrow> holds b' \<Longrightarrow> holds (b'\<lparr>mask := mask b\<rparr>)"
  by (auto simp: holds_def intro: mask_back)

lemma holds_ring:
  "holds b \<Longrightarrow> ring_ok sz r \<Longrightarrow> holds (b\<lparr>info_ringbuffer := r\<rparr>)"
  by (auto simp: holds_def intro: other_ring)

lemma holds_record_event:
  assumes "ringbuffer_size cfg = sz" and "holds b"
  shows "holds (record_event cfg wpid info status b)"
  unfolding record_event_def
  by (rule holds_ring [OF assms(2)])
    (use assms ring in \<open>auto simp: holds_def intro: ring_ok_log_event(1)\<close>)

lemma holds_reap:
  assumes "ringbuffer_size cfg = sz" and "holds b" and "mask b = Unblocked"
  shows "holds (reap cfg info b w)"
proof -
  have "holds (b\<lparr>proc_pid := 0\<rparr>)"
    using assms(2,3) by (auto simp: holds_def intro: reaped)
  then have "holds (b\<lparr>chld_terminated := True, proc_pid := 0\<rparr>)"
    by (simp add: holds_def)
  then show ?thesis
    using assms(1,2) by (simp add: reap_def Let_def holds_record_event)
qed

lemma holds_reaps:
  "ringbuffer_size cfg = sz \<Longrightarrow> holds b \<Longrightarrow> mask b = Unblocked \<Longrightarrow> holds (foldl (reap cfg info) b ws)"
proof (induction ws arbitrary: b)
  case (Cons w ws)
  then show ?case
    using holds_reap [of cfg b info w] Cons.IH [of "reap cfg info b w"] by simp
qed simp

lemma holds_sigaction:
  "ringbuffer_size cfg = sz \<Longrightarrow> holds b \<Longrightarrow> sig = SIGCHLD \<longrightarrow> mask b = Unblocked \<Longrightarrow>
     holds (sa_sigaction_func cfg sig info ws b)"
  by (simp add: sa_sigaction_func_def holds_reaps)

lemma holds_nanosleep:
  "ringbuffer_size cfg = sz \<Longrightarrow> holds b \<Longrightarrow> holds (nanosleep cfg b)"
  by (auto simp: nanosleep_def Let_def emit_def intro!: holds_sigaction split: list.split)

lemma holds_exec_action: "holds b \<Longrightarrow> holds (snd (buddy_exec_action path b))"
  by (simp add: buddy_exec_action_def Let_def holds_mask)

lemma exec_action_pid: "proc_pid (snd (buddy_exec_action path b)) = proc_pid b"
  by (simp add: buddy_exec_action_def emit_def Let_def)

text \<open>A start runs with \<open>SIGCHLD\<close> blocked until the new pid is recorded.\<close>

lemma holds_start_proc:
  assumes cfg: "ringbuffer_size cfg = sz" and b: "holds b"
  shows "holds (snd (buddy_start_proc cfg b))"
proof (cases "proc_pid b = 0")
  case True
  define count where "count = (if now b < respawn_timestamp b + uint (user_restart_window cfg)
    then rapid_respawn_count b + 1 else 0)"
  define b1 where "b1 = b\<lparr>mask := block_chld (mask b), rapid_respawn_count := count\<rparr>"
  have b1: "holds b1" unfolding b1_def using holds_mask [OF b, of "block_chld (mask b)"] by simp
  obtain pid b2 where e: "buddy_exec_action ''actions/start'' b1 = (pid, b2)"
    by (cases "buddy_exec_action ''actions/start'' b1")
  have b2: "holds b2" "proc_pid b2 = 0"
    using holds_exec_action [OF b1, of "''actions/start''"] e True
      exec_action_pid [of "''actions/start''" b1] by (simp_all add: b1_def)
  define b3 where "b3 = record_event cfg 0 0 0 (b2\<lparr>proc_pid := pid, respawn_timestamp := now b2\<rparr>)"
  have "holds b3"
    unfolding b3_def by (rule holds_record_event [OF cfg])
      (use b2 in \<open>auto simp: holds_def intro: started\<close>)
  then have b4: "holds (b3\<lparr>mask := mask b\<rparr>)" by (rule holds_mask_back [OF b])
  have "snd (buddy_start_proc cfg b) =
      (if user_max_restarts cfg < count then b1\<lparr>force_ratelimit := True\<rparr> else b3\<lparr>mask := mask b\<rparr>)"
    using True e unfolding b1_def b3_def count_def
    by (cases "now b < respawn_timestamp b + uint (user_restart_window cfg)")
      (simp_all add: buddy_start_proc_def Let_def)
  then show ?thesis using b1 b4 by simp
qed (use b in \<open>simp add: buddy_start_proc_def\<close>)

lemma holds_wait_loop:
  "ringbuffer_size cfg = sz \<Longrightarrow> holds b \<Longrightarrow> holds (wait_loop cfg lim b)"
proof (induction cfg lim b rule: wait_loop.induct)
  case (1 cfg lim b)
  then show ?case
    using holds_nanosleep [of cfg "b\<lparr>stop_n := stop_n b + 1\<rparr>"]
    by (subst wait_loop.simps) simp
qed

lemma holds_stop_proc:
  assumes "ringbuffer_size cfg = sz" and "holds b"
  shows "holds (buddy_stop_proc cfg b)"
  using assms(2)
  by (simp add: buddy_stop_proc_def Let_def holds_wait_loop [OF assms(1)] holds_exec_action)

lemma holds_handle_cmnd:
  assumes "ringbuffer_size cfg = sz" and "holds b"
  shows "holds (handle_cmnd cfg c b)"
  using assms(2)
  by (cases c) (simp_all add: buddy_reload_proc_def buddy_cust_action_def holds_exec_action
      holds_start_proc [OF assms(1)] holds_stop_proc [OF assms(1)])

lemma holds_handle_flags:
  assumes "ringbuffer_size cfg = sz" and "holds b"
  shows "holds (snd (buddy_handle_flags cfg rnd b))"
proof -
  have start: "holds (snd (buddy_start_proc cfg (b'\<lparr>force_ratelimit := f\<rparr>)))" if "holds b'" for b' f
    by (rule holds_start_proc [OF assms(1)]) (use that in simp)
  then have start': "buddy_start_proc cfg (b'\<lparr>force_ratelimit := f\<rparr>) = (s, b'') \<Longrightarrow> holds b' \<Longrightarrow> holds b''"
    for b' f s b'' by (metis snd_conv)
  show ?thesis
    using assms(2)
    by (auto simp: buddy_handle_flags_def Let_def split: prod.split dest: start')
qed

lemma holds_phone_home:
  assumes "ringbuffer_size cfg = sz" and "holds b"
  shows "holds (phone_home_if_appropriate cfg b)"
proof -
  have dial: "holds (snd (buddy_phone_home b))" if "holds b" for b
    using that by (simp add: buddy_phone_home_def split: list.split)
  have "holds (phone_home_loop cfg n b)" for n
    using assms(2)
  proof (induction n arbitrary: b)
    case (Suc n)
    show ?case
      using Suc.prems dial [OF Suc.prems] Suc.IH holds_nanosleep [OF assms(1)]
      by (auto simp: split_beta)
  qed simp
  then show ?thesis using assms(2) by (simp add: phone_home_if_appropriate_def)
qed

text \<open>The exchanges of a flush do not touch the ring, the pid or the mask.\<close>

lemma holds_deliver: "holds b \<Longrightarrow> holds (snd (deliver is b))"
proof (induction "is" arbitrary: b)
  case (Cons i "is")
  have "holds (snd (send_entry (i\<lparr>remaining := length is\<rparr>) b))"
    using Cons.prems
    by (simp add: send_entry_def write_ctrl_def read_ctrl_def buddy_disconnect_def Let_def
        split: list.split write_outcome.split read_outcome.split)
  with Cons.IH show ?case by (auto simp: split_beta)
qed simp

lemma holds_flush:
  assumes "ringbuffer_size cfg = sz" and "holds b"
  obtains b' where "buddy_flush_ringbuffer cfg b = Some b'" and "holds b'"
proof -
  define b0 where "b0 = phone_home_if_appropriate cfg (b\<lparr>flush_ack := this_command b\<rparr>)"
  have b0: "holds b0"
    unfolding b0_def by (rule holds_phone_home [OF assms(1)]) (simp add: assms(2))
  let ?b1 = "b0\<lparr>mask := All_blocked\<rparr>"
  have b1: "holds ?b1" by (rule holds_mask [OF b0]) simp
  then have "ring_ok sz (info_ringbuffer ?b1)" by (simp add: holds_def ring)
  then obtain r where loop: "flush_loop (length (rb_nodes (info_ringbuffer b0)))
      (current_addr (info_ringbuffer b0)) ?b1 =
        Some ((snd (deliver (events (info_ringbuffer b0)) ?b1))\<lparr>info_ringbuffer := r\<rparr>)"
    and r: "ring_ok sz r"
    by (rule flush_loop_ok) auto
  define b2 where "b2 = (snd (deliver (events (info_ringbuffer b0)) ?b1))\<lparr>info_ringbuffer := r\<rparr>"
  have "holds b2" unfolding b2_def by (rule holds_ring [OF holds_deliver [OF b1] r])
  then have "holds (b2\<lparr>mask := mask b0\<rparr>)" by (rule holds_mask_back [OF b0])
  then show thesis
  proof (cases "0 \<le> buddy_ctrlfd b0")
    case True
    then have "buddy_flush_ringbuffer cfg b =
        Some (b2\<lparr>buddy_ctrlfd := - 1, this_command := this_command b, mask := mask b0\<rparr>)"
      using loop
      by (simp add: buddy_flush_ringbuffer_def buddy_disconnect_def Let_def flip: b0_def b2_def)
    then show thesis
      by (rule that) (use \<open>holds (b2\<lparr>mask := mask b0\<rparr>)\<close> in \<open>simp add: holds_def\<close>)
  next
    case False
    then have "buddy_flush_ringbuffer cfg b = Some b0"
      by (simp add: buddy_flush_ringbuffer_def Let_def flip: b0_def)
    then show thesis using b0 by (rule that)
  qed
qed

lemma holds_turn:
  assumes "ringbuffer_size cfg = sz" and "holds b"
  obtains fin b' where "buddy_event_loop_turn cfg sel rnd b = Some (fin, b')" and "holds b'"
proof -
  let ?b = "b\<lparr>this_command := UPK_CTRL_NONE\<rparr>"
  have flags: "\<exists>fin b''. Some (buddy_handle_flags cfg rnd b') = Some (fin, b'') \<and> holds b''"
    if "holds b'" for b'
    using holds_handle_flags [OF assms(1) that] by (metis prod.collapse)
  have "\<exists>b'. (if 0 < buddy_ctrlfd ?b then event_loop_command cfg ?b else Some ?b) = Some b' \<and> holds b'"
  proof -
    obtain n c b1 where rd: "read_ctrl (this_command ?b) ?b = (n, c, b1)"
      by (cases "read_ctrl (this_command ?b) ?b")
    have "holds b1"
      using rd assms(2)
      by (auto simp: read_ctrl_def buddy_disconnect_def split: if_splits list.splits read_outcome.splits)
    then have "holds (buddy_handle_command cfg (b1\<lparr>this_command := c\<rparr>))"
      unfolding buddy_handle_command_def by (intro holds_handle_cmnd [OF assms(1)]) simp
    then obtain b2 where "buddy_flush_ringbuffer cfg (buddy_handle_command cfg (b1\<lparr>this_command := c\<rparr>)) = Some b2"
      "holds b2" by (rule holds_flush [OF assms(1)])
    with \<open>holds b1\<close> rd assms(2) show ?thesis
      by (auto simp: event_loop_command_def Let_def)
  qed
  then obtain b' where cmd: "(if 0 < buddy_ctrlfd ?b then event_loop_command cfg ?b else Some ?b) = Some b'"
    "holds b'" by blast
  have "\<exists>fin b''. buddy_event_loop_turn cfg sel rnd b = Some (fin, b'') \<and> holds b''"
  proof (cases sel)
    case Sel_nothing
    then show ?thesis using flags [of ?b] assms(2) by (simp add: buddy_event_loop_turn_def)
  next
    case (Sel_accept fd)
    then show ?thesis using assms(2)
      by (intro exI [of _ False]) (simp add: buddy_event_loop_turn_def buddy_accept_def)
  next
    case Sel_ctrl
    then show ?thesis
      using flags [OF cmd(2)] unfolding buddy_event_loop_turn_def Let_def by (simp only: cmd(1)) simp
  qed
  then show thesis using that by blast
qed

lemma holds_step:
  assumes "ringbuffer_size cfg = sz" and "holds b" and "buddy_step cfg b b'"
  shows "holds b'"
  using assms(3)
proof cases
  case (turn sel rnd)
  then show ?thesis using holds_turn [OF assms(1,2), of sel rnd] by auto
next
  case (chld info ws)
  then show ?thesis by (simp add: holds_sigaction [OF assms(1,2)])
next
  case (stop_signal sig info)
  then show ?thesis by (simp add: holds_sigaction [OF assms(1,2)])
next
  case world
  then show ?thesis using assms(2) same_program_core by (simp add: holds_def)
qed

lemma holds_steps:
  assumes "(buddy_step cfg)\<^sup>*\<^sup>* b b'" and "ringbuffer_size cfg = sz" and "holds b"
  shows "holds b'"
  using assms(1,3) by (induction rule: rtranclp_induct) (auto intro: holds_step [OF assms(2)])

end

interpretation ring_inv: core_invariant sz "\<lambda>r p m. ring_ok sz r" for sz
  by unfold_locales

interpretation mask_inv: core_invariant sz "\<lambda>r p m. ring_ok sz r \<and> m0 \<le> m" for sz m0
  by unfold_locales auto

interpretation blind_inv: core_invariant sz
    "\<lambda>r p m. ring_ok sz r \<and> p = p0 \<and> p0 \<noteq> 0 \<and> m \<noteq> Unblocked" for sz p0
  by unfold_locales (auto simp: less_eq_sigmask_def mask_rank_def split: sigmask.splits)


section \<open>Properties\<close>

text \<open>C8: in every reachable state the ring buffer is well formed and its count right, and the next turn
  of the event loop returns, whatever \<open>select\<close> reports: no flush runs forever.\<close>

theorem reachable_ok:
  assumes "buddy_reachable cfg b" and "0 < ringbuffer_size cfg"
  shows "ring_ok (ringbuffer_size cfg) (info_ringbuffer b) \<and>
    buddy_event_loop_turn cfg sel rnd b \<noteq> None"
proof -
  have "ring_inv.holds (ringbuffer_size cfg) b"
    using assms(1)
  proof induction
    case (init t)
    show ?case using assms(2) by (simp add: ring_inv.holds_def buddy_init_def init_ring_ok)
  next
    case (step b b')
    show ?case using step.IH step.hyps(2) by (rule ring_inv.holds_step [OF refl])
  qed
  moreover from this obtain fin b' where "buddy_event_loop_turn cfg sel rnd b = Some (fin, b')"
    by (rule ring_inv.holds_turn [OF refl])
  ultimately show ?thesis by (simp add: ring_inv.holds_def)
qed

lemma reachable_ok_witness:
  "buddy_event_loop_turn sample_cfg Sel_ctrl 0 (buddy_init sample_cfg 0) \<noteq> None"
  using reachable_ok [OF buddy_reachable.init] by (simp add: sample_cfg_def)

text \<open>C12: no step ever unblocks a signal: \<open>buddy_start_proc\<close> and \<open>buddy_flush_ringbuffer\<close> put back the mask
  they found, and what the early returns leave blocked stays blocked.\<close>

theorem mask_only_grows:
  assumes "(buddy_step cfg)\<^sup>*\<^sup>* b b'" and "ring_ok (ringbuffer_size cfg) (info_ringbuffer b)"
  shows "mask b \<le> mask b'"
  using mask_inv.holds_steps [OF assms(1) refl, of "mask b"] assms(2)
  by (simp add: mask_inv.holds_def)

lemma mask_only_grows_witness:
  "mask (buddy_init sample_cfg 0) \<le>
     mask (sa_sigaction_func sample_cfg SIGCHLD 0 [] (buddy_init sample_cfg 0))"
proof (rule mask_only_grows)
  show "(buddy_step sample_cfg)\<^sup>*\<^sup>* (buddy_init sample_cfg 0)
      (sa_sigaction_func sample_cfg SIGCHLD 0 [] (buddy_init sample_cfg 0))"
    by (intro r_into_rtranclp buddy_step.chld) (simp add: buddy_init_def)
  show "ring_ok (ringbuffer_size sample_cfg) (info_ringbuffer (buddy_init sample_cfg 0))"
    by (simp add: buddy_init_def sample_cfg_def init_ring_ok)
qed

text \<open>C40: after a custom action whose script is there but not a regular or not an executable file, every
  signal stays blocked, and whatever happens next the buddy believes its service to be the process it was
  then: it is never reaped, so it is never restarted and its end is never logged.  A script that is missing
  does the same when the last script that was found was not executable; when it was, the mode of that one
  is still in the static structure, a child is forked for the missing one, and the mask is put back.\<close>

theorem unusable_action_blinds:
  assumes "proc_pid b \<noteq> 0" and "ring_ok (ringbuffer_size cfg) (info_ringbuffer b)"
    and "(buddy_step cfg)\<^sup>*\<^sup>* (handle_cmnd cfg (UPK_CTRL_CUSTOM_ACTION n) b) b'"
  shows "(case execs b (''actions/'' @ fixed_digits 10 2 n) of
      Missing pid \<Rightarrow>
        if exec_stat b = Script
        then mask (handle_cmnd cfg (UPK_CTRL_CUSTOM_ACTION n) b) = mask b \<and>
          trace (handle_cmnd cfg (UPK_CTRL_CUSTOM_ACTION n) b) = trace b @ [Exec (''actions/'' @ fixed_digits 10 2 n)]
        else mask b' = All_blocked \<and> proc_pid b' = proc_pid b
    | Forked pid \<Rightarrow> mask (handle_cmnd cfg (UPK_CTRL_CUSTOM_ACTION n) b) = mask b
    | _ \<Rightarrow> mask b' = All_blocked \<and> proc_pid b' = proc_pid b)"
proof -
  let ?b = "handle_cmnd cfg (UPK_CTRL_CUSTOM_ACTION n) b"
  have blinds: "mask b' = All_blocked \<and> proc_pid b' = proc_pid b" if "mask ?b = All_blocked"
  proof -
    have "proc_pid ?b = proc_pid b" "info_ringbuffer ?b = info_ringbuffer b"
      by (simp_all add: buddy_cust_action_def buddy_exec_action_def emit_def Let_def)
    then have "blind_inv.holds (ringbuffer_size cfg) (proc_pid b) ?b"
      "mask_inv.holds (ringbuffer_size cfg) All_blocked ?b"
      unfolding blind_inv.holds_def mask_inv.holds_def using assms(1,2) that by simp_all
    then have "blind_inv.holds (ringbuffer_size cfg) (proc_pid b) b'"
      "mask_inv.holds (ringbuffer_size cfg) All_blocked b'"
      using blind_inv.holds_steps [OF assms(3) refl] mask_inv.holds_steps [OF assms(3) refl] by blast+
    then show ?thesis unfolding blind_inv.holds_def mask_inv.holds_def by simp
  qed
  show ?thesis
  proof (cases "stat_script (execs b (''actions/'' @ fixed_digits 10 2 n)) (exec_stat b) = Script")
    case True
    then show ?thesis
      by (auto simp: buddy_cust_action_def buddy_exec_action_def emit_def stat_script_def split: exec_outcome.splits)
  next
    case False
    then have "mask ?b = All_blocked" by (simp add: buddy_cust_action_def buddy_exec_action_def Let_def)
    from blinds [OF this] False show ?thesis by (auto simp: stat_script_def split: exec_outcome.splits)
  qed
qed

lemma unusable_action_blinds_witness:
  "mask (handle_cmnd sample_cfg (UPK_CTRL_CUSTOM_ACTION 7) ((buddy_init sample_cfg 0)\<lparr>proc_pid := 42\<rparr>)) =
     All_blocked"
  using unusable_action_blinds [of "(buddy_init sample_cfg 0)\<lparr>proc_pid := 42\<rparr>" sample_cfg 7]
  by (simp add: buddy_init_def sample_cfg_def init_ring_ok)

text \<open>The effect of a start: beyond the number of rapid restarts, and when the script cannot be run, nothing is
  started and signals stay blocked.\<close>

definition start_refused :: "buddy_cfg \<Rightarrow> buddy \<Rightarrow> bool" where
  "start_refused cfg b \<longleftrightarrow> now b < respawn_timestamp b + uint (user_restart_window cfg) \<and>
     user_max_restarts cfg < rapid_respawn_count b + 1"

definition start_script_runs :: "buddy \<Rightarrow> bool" where
  "start_script_runs b \<longleftrightarrow> stat_script (execs b ''actions/start'') (exec_stat b) = Script"

lemma start_proc_effect:
  assumes "proc_pid b = 0"
  shows "trace (snd (buddy_start_proc cfg b)) =
      (if \<not> start_refused cfg b \<and> start_script_runs b then trace b @ [Exec ''actions/start''] else trace b)"
  using assms
  by (auto simp: buddy_start_proc_def buddy_exec_action_def record_event_def emit_def Let_def start_refused_def
      start_script_runs_def)

text \<open>Once a start has been refused for too many rapid restarts, \<open>SIGCHLD\<close> stays blocked, and a
  service started after that is never reaped: its pid never changes again.\<close>

theorem refused_start_blinds:
  assumes "proc_pid b = 0" and "ring_ok (ringbuffer_size cfg) (info_ringbuffer b)"
    and "now b < respawn_timestamp b + uint (user_restart_window cfg)"
    and "user_max_restarts cfg < rapid_respawn_count b + 1"
    and "(buddy_step cfg)\<^sup>*\<^sup>* (snd (buddy_start_proc cfg b)) b'" and "proc_pid b' \<noteq> 0"
    and "(buddy_step cfg)\<^sup>*\<^sup>* b' b''"
  shows "mask b' \<noteq> Unblocked \<and> proc_pid b'' = proc_pid b'"
proof -
  let ?b = "snd (buddy_start_proc cfg b)"
  have "mask ?b = block_chld (mask b)" "info_ringbuffer ?b = info_ringbuffer b"
    using assms(1,3,4) by (simp_all add: buddy_start_proc_def Let_def)
  moreover have "block_chld (mask b) \<noteq> Unblocked" by (simp add: block_chld_def)
  ultimately have "mask_inv.holds (ringbuffer_size cfg) Chld_blocked ?b"
    unfolding mask_inv.holds_def using assms(2) by simp
  then have "mask_inv.holds (ringbuffer_size cfg) Chld_blocked b'"
    by (rule mask_inv.holds_steps [OF assms(5) refl])
  then have b': "mask b' \<noteq> Unblocked" "ring_ok (ringbuffer_size cfg) (info_ringbuffer b')"
    unfolding mask_inv.holds_def by simp_all
  then have "blind_inv.holds (ringbuffer_size cfg) (proc_pid b') b'"
    unfolding blind_inv.holds_def using assms(6) by simp
  then have "blind_inv.holds (ringbuffer_size cfg) (proc_pid b') b''"
    by (rule blind_inv.holds_steps [OF assms(7) refl])
  with b'(1) show ?thesis unfolding blind_inv.holds_def by simp
qed

lemma refused_start_blinds_witness:
  "\<exists>b b'. (buddy_step sample_cfg)\<^sup>*\<^sup>* (snd (buddy_start_proc sample_cfg b)) b' \<and> mask b' \<noteq> Unblocked \<and>
     proc_pid b' = 42"
proof -
  let ?b = "(buddy_init sample_cfg 0)\<lparr>rapid_respawn_count := 10, execs := (\<lambda>_. Forked 42),
    desired_state := BUDDY_RUNNING, chld_terminated := True\<rparr>"
  let ?b1 = "snd (buddy_start_proc sample_cfg ?b)"
  let ?b2 = "?b1\<lparr>now := 400\<rparr>"
  let ?b3 = "snd (buddy_handle_flags sample_cfg 0 (?b2\<lparr>this_command := UPK_CTRL_NONE\<rparr>))"
  have "buddy_step sample_cfg ?b1 ?b2"
    by (rule buddy_step.world)
      (simp_all add: same_program_state_def buddy_start_proc_def buddy_init_def sample_cfg_def Let_def)
  moreover have b3: "fst (buddy_handle_flags sample_cfg 0 (?b2\<lparr>this_command := UPK_CTRL_NONE\<rparr>)) = False"
    "proc_pid ?b3 = 42"
    by (simp_all add: buddy_handle_flags_def buddy_start_proc_def buddy_exec_action_def stat_script_def fork_result_def record_event_def
        emit_def buddy_init_def sample_cfg_def Let_def)
  then have "buddy_step sample_cfg ?b2 ?b3"
    by (intro buddy_step.turn [of _ Sel_nothing 0])
      (simp add: buddy_event_loop_turn_def prod_eq_iff)
  ultimately have steps: "(buddy_step sample_cfg)\<^sup>*\<^sup>* ?b1 ?b3" by simp
  have "mask ?b3 \<noteq> Unblocked \<and> proc_pid ?b3 = proc_pid ?b3"
    by (rule refused_start_blinds [OF _ _ _ _ steps])
      (simp_all only: b3, simp_all add: buddy_init_def sample_cfg_def init_ring_ok)
  with steps b3 show ?thesis by blast
qed

text \<open>C11: when exactly the flags of the event loop make the buddy run the start script by itself: it is not
  shutting down, the service was reaped, is wanted running and is not running, the user's rate limit with
  its jitter (drawn anew when it is randomized, the old one otherwise) has passed since the last start, the
  runaway limit has passed if it was imposed, the number of rapid restarts is not exceeded, and the script
  is executable as far as the last \<open>stat\<close> that succeeded can tell.\<close>

theorem restart_policy:
  "trace (snd (buddy_handle_flags cfg rnd b)) =
    (if buddy_shutdown b \<le> 0 \<and> chld_terminated b \<and> desired_state b = BUDDY_RUNNING \<and> proc_pid b = 0 \<and>
        (user_ratelimit cfg = 0 \<or>
         respawn_timestamp b + uint (user_ratelimit cfg) +
           uint (if randomize_ratelimit cfg then user_ratelimit cfg + rnd else jitter b) \<le> now b) \<and>
        (if force_ratelimit b then respawn_timestamp b + uint (runaway_ratelimit cfg) \<le> now b else True) \<and>
        \<not> (now b < respawn_timestamp b + uint (user_restart_window cfg) \<and>
           user_max_restarts cfg < rapid_respawn_count b + 1) \<and>
        (case execs b ''actions/start'' of Forked _ \<Rightarrow> True | Missing _ \<Rightarrow> exec_stat b = Script | _ \<Rightarrow> False)
     then trace b @ [Exec ''actions/start''] else trace b)"
proof (cases "proc_pid b = 0")
  case True
  have runs: "start_script_runs b' \<longleftrightarrow>
      (case execs b' ''actions/start'' of Forked _ \<Rightarrow> True | Missing _ \<Rightarrow> exec_stat b' = Script | _ \<Rightarrow> False)" for b'
    by (simp add: start_script_runs_def stat_script_def split: exec_outcome.split)
  have "trace (snd (buddy_start_proc cfg (b'\<lparr>force_ratelimit := False\<rparr>))) =
      (if \<not> start_refused cfg b' \<and> start_script_runs b' then trace b' @ [Exec ''actions/start''] else trace b')"
    if "proc_pid b' = 0" for b'
    using start_proc_effect [of "b'\<lparr>force_ratelimit := False\<rparr>" cfg] that
    by (simp add: start_refused_def start_script_runs_def)
  note started = this
  have "start_script_runs (b\<lparr>jitter := j\<rparr>) = start_script_runs b" for j by (simp add: start_script_runs_def)
  then show ?thesis
    using started [of b] started [of "b\<lparr>jitter := user_ratelimit cfg + rnd\<rparr>"] True
    unfolding runs [of b, symmetric]
    by (auto simp: buddy_handle_flags_def Let_def split_beta start_refused_def)
next
  case False
  then show ?thesis by (auto simp: buddy_handle_flags_def buddy_start_proc_def Let_def)
qed

text \<open>A randomized limit of 60 seconds holds back a service that ended 100 seconds after its start.\<close>

lemma restart_policy_witness:
  "trace (snd (buddy_handle_flags (sample_cfg\<lparr>user_ratelimit := 60, randomize_ratelimit := True\<rparr>) 20
     ((buddy_init sample_cfg 100)\<lparr>desired_state := BUDDY_RUNNING, chld_terminated := True, execs := (\<lambda>_. Forked 42)\<rparr>))) = []"
  by (simp add: restart_policy) (simp add: buddy_init_def sample_cfg_def)


text \<open>Waiting for a process that does not end: one nap per count left.\<close>

lemma wait_stubborn:
  assumes "proc_pid b \<noteq> 0" and "naps b = []" and "stop_n b \<le> lim"
  shows "wait_loop cfg lim b =
    b\<lparr>stop_n := lim + 1, trace := trace b @ replicate (unat lim - unat (stop_n b)) Nap\<rparr>"
  using assms
proof (induction cfg lim b rule: wait_loop.induct)
  case (1 cfg lim b)
  show ?case
  proof (cases "stop_n b < lim")
    case True
    then have n: "unat (stop_n b + 1) = unat (stop_n b) + 1" by (rule unat_suc_less)
    with True have "stop_n b + 1 \<le> lim" "unat lim - unat (stop_n b) = Suc (unat lim - unat (stop_n b + 1))"
      by (simp_all add: word_le_nat_alt word_less_nat_alt)
    then show ?thesis
      using 1 True by (subst wait_loop.simps) (simp add: nanosleep_def emit_def)
  next
    case False
    then have "stop_n b = lim" using 1(4) by simp
    then show ?thesis using 1(2) by (subst wait_loop.simps) simp
  qed
qed

lemma wait_exhausted:
  assumes "proc_pid b \<noteq> 0" and "\<not> stop_n b < lim"
  shows "wait_loop cfg lim b = b\<lparr>stop_n := stop_n b + 1\<rparr>"
  using assms by (subst wait_loop.simps) simp

text \<open>C34: the first stop of a service that does not end naps ten times before \<open>SIGTERM\<close> and nine times
  before \<open>SIGKILL\<close>; since the counter is static and never reset, the next stop of such a service sends
  both signals at once.  Any timeout other than zero kills, the negative ones included.\<close>

theorem stop_grace:
  assumes "proc_pid b = p" and "p \<noteq> 0" and "naps b = []" and "stop_n b = 0" and "kill_timeout cfg \<noteq> 0"
    and "execs b ''actions/stop'' = Forked q"
  shows "trace (buddy_stop_proc cfg b) = trace b @ Exec ''actions/stop'' # replicate 10 Nap @
      Kill p SIGTERM # replicate 9 Nap @ [Kill p SIGKILL] \<and>
    trace (buddy_stop_proc cfg (buddy_stop_proc cfg b)) = trace (buddy_stop_proc cfg b) @
      [Exec ''actions/stop'', Kill p SIGTERM, Kill p SIGKILL]"
proof -
  have b1: "buddy_stop_proc cfg b = b\<lparr>stop_n := 21, exec_stat := Script, trace := trace b @ Exec ''actions/stop'' #
      replicate 10 Nap @ Kill p SIGTERM # replicate 9 Nap @ [Kill p SIGKILL]\<rparr>"
    using assms by (simp add: buddy_stop_proc_def exec_action_forked wait_stubborn emit_def)
  have "trace (buddy_stop_proc cfg b') = trace b' @
      [Exec ''actions/stop'', Kill p SIGTERM, Kill p SIGKILL]"
    if "stop_n b' = 21" "proc_pid b' = p" "execs b' ''actions/stop'' = Forked q" for b'
    using that assms(2,5)
    by (simp add: buddy_stop_proc_def exec_action_forked wait_exhausted emit_def)
  then have "trace (buddy_stop_proc cfg (buddy_stop_proc cfg b)) = trace (buddy_stop_proc cfg b) @
      [Exec ''actions/stop'', Kill p SIGTERM, Kill p SIGKILL]"
    using assms(1,6) by (simp only: b1) simp
  then show ?thesis by (simp add: b1)
qed

lemma stop_grace_witness:
  "\<exists>ks. trace (buddy_stop_proc sample_cfg ((buddy_init sample_cfg 0)\<lparr>proc_pid := 42, execs := (\<lambda>_. Forked 43)\<rparr>)) =
     Exec ''actions/stop'' # replicate 10 Nap @ Kill 42 SIGTERM # ks"
  using stop_grace [of "(buddy_init sample_cfg 0)\<lparr>proc_pid := 42, execs := (\<lambda>_. Forked 43)\<rparr>" 42 sample_cfg 43]
  by (simp add: buddy_init_def sample_cfg_def)

end
