(* ===== verification/Upk_Messages.thy ===== *)
theory Upk_Messages
  imports Upk_Wire
begin

text \<open>
  The data of the protocol: the enumerations and packet structures of
  \<open>libupkeeper/upkeeper/upk_protocol.h\<close> and the version 0 message structures of
  \<open>libupkeeper/upkeeper/upk_v0_protocol_structs.h\<close>.  Every message starts with its \<open>msgtype\<close>, so the
  records extend \<open>generic_msg\<close>, the structure through which the code reads that member of any
  payload.  The \<open>upk_\<close> and \<open>v0_\<close> types of the same message are declared from the same macro and are
  one type here.  Array members are byte lists, enumerations the 32-bit words the code casts them to.
\<close>

section \<open>Enumerations\<close>

named_theorems msgtypes \<open>the values of the packet and message type enumerations\<close>

definition PKT_REQUEST :: u32 where [msgtypes]: "PKT_REQUEST = 1"
definition PKT_REPLY :: u32 where [msgtypes]: "PKT_REPLY = 2"
definition PKT_PUBMSG :: u32 where [msgtypes]: "PKT_PUBMSG = 3"
definition PKT_V0_PROTO_LIMIT :: u32 where [msgtypes]: "PKT_V0_PROTO_LIMIT = 4"

definition UPK_REQ_ORIGIN :: u32 where [msgtypes]: "UPK_REQ_ORIGIN = 1"
definition UPK_REQ_PREAMBLE :: u32 where [msgtypes]: "UPK_REQ_PREAMBLE = 1"
definition UPK_REQ_SEQ_START :: u32 where [msgtypes]: "UPK_REQ_SEQ_START = 2"
definition UPK_REQ_SEQ_END :: u32 where [msgtypes]: "UPK_REQ_SEQ_END = 3"
definition UPK_REQ_ACTION :: u32 where [msgtypes]: "UPK_REQ_ACTION = 4"
definition UPK_REQ_SIGNAL :: u32 where [msgtypes]: "UPK_REQ_SIGNAL = 5"
definition UPK_REQ_LIST :: u32 where [msgtypes]: "UPK_REQ_LIST = 6"
definition UPK_REQ_STATUS :: u32 where [msgtypes]: "UPK_REQ_STATUS = 7"
definition UPK_REQ_SUBSCRIBE :: u32 where [msgtypes]: "UPK_REQ_SUBSCRIBE = 8"
definition UPK_REQ_UNSUBSCRIBE :: u32 where [msgtypes]: "UPK_REQ_UNSUBSCRIBE = 9"
definition UPK_REQ_DISCONNECT :: u32 where [msgtypes]: "UPK_REQ_DISCONNECT = 10"
definition UPK_REQ_V0_PROTO_LIMIT :: u32 where [msgtypes]: "UPK_REQ_V0_PROTO_LIMIT = 11"
definition UPK_REQ_LIMIT :: u32 where [msgtypes]: "UPK_REQ_LIMIT = 12"

definition UPK_REPL_ORIGIN :: u32 where [msgtypes]: "UPK_REPL_ORIGIN = 4096"
definition UPK_REPL_PREAMBLE :: u32 where [msgtypes]: "UPK_REPL_PREAMBLE = 4096"
definition UPK_REPL_SEQ_START :: u32 where [msgtypes]: "UPK_REPL_SEQ_START = 4097"
definition UPK_REPL_SEQ_END :: u32 where [msgtypes]: "UPK_REPL_SEQ_END = 4098"
definition UPK_REPL_RESULT :: u32 where [msgtypes]: "UPK_REPL_RESULT = 4099"
definition UPK_REPL_LISTING :: u32 where [msgtypes]: "UPK_REPL_LISTING = 4100"
definition UPK_REPL_SVCINFO :: u32 where [msgtypes]: "UPK_REPL_SVCINFO = 4101"
definition UPK_REPL_ACK :: u32 where [msgtypes]: "UPK_REPL_ACK = 4102"
definition UPK_REPL_ERROR :: u32 where [msgtypes]: "UPK_REPL_ERROR = 4103"
definition UPK_REPL_V0_PROTO_LIMIT :: u32 where [msgtypes]: "UPK_REPL_V0_PROTO_LIMIT = 4104"
definition UPK_REPL_LIMIT :: u32 where [msgtypes]: "UPK_REPL_LIMIT = 4105"

definition UPK_PUB_ORIGIN :: u32 where [msgtypes]: "UPK_PUB_ORIGIN = 8192"
definition UPK_PUB_PUBLICATION :: u32 where [msgtypes]: "UPK_PUB_PUBLICATION = 8192"
definition UPK_PUB_CANCELATION :: u32 where [msgtypes]: "UPK_PUB_CANCELATION = 8193"
definition UPK_PUB_V0_PROTO_LIMIT :: u32 where [msgtypes]: "UPK_PUB_V0_PROTO_LIMIT = 8194"
definition UPK_PUB_LIMIT :: u32 where [msgtypes]: "UPK_PUB_LIMIT = 8195"

section \<open>Messages\<close>

record generic_msg =
  msgtype :: u32

record upk_req_preamble = generic_msg +
  pre_min_supported_ver :: u32
  pre_max_supported_ver :: u32
  pre_client_name_len :: u32
  pre_client_name :: bytes

record v0_req_seq_start = generic_msg +
  rss_msg_seq_type :: u32
  rss_msg_seq_count :: u32

record v0_req_seq_end = generic_msg +
  rse_commit :: bool

record v0_req_action = generic_msg +
  act_svc_id_len :: u32
  act_svc_id :: bytes
  act_action_len :: u32
  act_action :: bytes

record v0_req_signal = generic_msg +
  sig_signal :: u32
  sig_signal_sid :: bool
  sig_signal_pgrp :: bool
  sig_svc_id_len :: u32
  sig_svc_id :: bytes

type_synonym v0_req_list = generic_msg

record v0_req_status = generic_msg +
  sta_svc_id_len :: u32
  sta_svc_id :: bytes
  sta_restart_window_seconds :: u32

record v0_req_subscribe = generic_msg +
  sub_all_svcs :: bool
  sub_svc_id_len :: u32
  sub_svc_id :: bytes

record v0_req_unsubscribe = generic_msg +
  uns_all_svcs :: bool
  uns_svc_id_len :: u32
  uns_svc_id :: bytes

type_synonym v0_req_disconnect = generic_msg

record upk_repl_preamble = generic_msg +
  rpre_best_version :: u32

record v0_repl_seq_start = generic_msg +
  pss_msg_seq_type :: u32
  pss_msg_seq_count :: u32

record v0_repl_seq_end = generic_msg +
  pse_commit :: bool

record v0_repl_result = generic_msg +
  res_successful :: bool
  res_msg_len :: u32
  res_msg :: bytes

record v0_repl_listing = generic_msg +
  lst_svc_id_len :: u32
  lst_svc_id :: bytes

text \<open>The service information, a structure of its own inside the reply.\<close>

record v0_svcinfo =
  si_last_action_time :: u32
  si_last_action_status :: u32
  si_last_action_name_len :: u32
  si_last_action_name :: bytes
  si_last_signal_time :: u32
  si_last_signal_status :: u32
  si_last_signal_name :: u32
  si_buddy_pid :: u32
  si_proc_pid :: u32
  si_current_state :: u32
  si_prior_state :: u32
  si_n_recorded_restarts :: u32

record v0_repl_svcinfo = generic_msg +
  inf_svcinfo_len :: u32
  inf_svcinfo :: v0_svcinfo
  inf_svc_id_len :: u32
  inf_svc_id :: bytes

type_synonym v0_repl_ack = generic_msg

record v0_repl_error = generic_msg +
  err_errlevel :: u32
  err_uerrno :: u32
  err_msg_len :: u32
  err_msg :: bytes
  err_svc_id_len :: u32
  err_svc_id :: bytes

type_synonym v0_pub_publication = generic_msg

type_synonym v0_pub_cancelation = generic_msg

section \<open>Payloads and packets\<close>

text \<open>What \<open>void *payload\<close> points to.\<close>

datatype upk_payload =
    is_req_preamble: Req_preamble (the_req_preamble: upk_req_preamble)
  | is_req_seq_start: Req_seq_start (the_req_seq_start: v0_req_seq_start)
  | is_req_seq_end: Req_seq_end (the_req_seq_end: v0_req_seq_end)
  | is_req_action: Req_action (the_req_action: v0_req_action)
  | is_req_signal: Req_signal (the_req_signal: v0_req_signal)
  | is_req_list: Req_list (the_req_list: v0_req_list)
  | is_req_status: Req_status (the_req_status: v0_req_status)
  | is_req_subscribe: Req_subscribe (the_req_subscribe: v0_req_subscribe)
  | is_req_unsubscribe: Req_unsubscribe (the_req_unsubscribe: v0_req_unsubscribe)
  | is_req_disconnect: Req_disconnect (the_req_disconnect: v0_req_disconnect)
  | is_repl_preamble: Repl_preamble (the_repl_preamble: upk_repl_preamble)
  | is_repl_seq_start: Repl_seq_start (the_repl_seq_start: v0_repl_seq_start)
  | is_repl_seq_end: Repl_seq_end (the_repl_seq_end: v0_repl_seq_end)
  | is_repl_result: Repl_result (the_repl_result: v0_repl_result)
  | is_repl_listing: Repl_listing (the_repl_listing: v0_repl_listing)
  | is_repl_svcinfo: Repl_svcinfo (the_repl_svcinfo: v0_repl_svcinfo)
  | is_repl_ack: Repl_ack (the_repl_ack: v0_repl_ack)
  | is_repl_error: Repl_error (the_repl_error: v0_repl_error)
  | is_pub_publication: Pub_publication (the_pub_publication: v0_pub_publication)
  | is_pub_cancelation: Pub_cancelation (the_pub_cancelation: v0_pub_cancelation)

text \<open>The member \<open>msgtype\<close> read through \<open>upk_generic_msg_t *\<close>.\<close>

primrec payload_msgtype :: "upk_payload \<Rightarrow> u32" where
  "payload_msgtype (Req_preamble d) = msgtype d"
| "payload_msgtype (Req_seq_start d) = msgtype d"
| "payload_msgtype (Req_seq_end d) = msgtype d"
| "payload_msgtype (Req_action d) = msgtype d"
| "payload_msgtype (Req_signal d) = msgtype d"
| "payload_msgtype (Req_list d) = msgtype d"
| "payload_msgtype (Req_status d) = msgtype d"
| "payload_msgtype (Req_subscribe d) = msgtype d"
| "payload_msgtype (Req_unsubscribe d) = msgtype d"
| "payload_msgtype (Req_disconnect d) = msgtype d"
| "payload_msgtype (Repl_preamble d) = msgtype d"
| "payload_msgtype (Repl_seq_start d) = msgtype d"
| "payload_msgtype (Repl_seq_end d) = msgtype d"
| "payload_msgtype (Repl_result d) = msgtype d"
| "payload_msgtype (Repl_listing d) = msgtype d"
| "payload_msgtype (Repl_svcinfo d) = msgtype d"
| "payload_msgtype (Repl_ack d) = msgtype d"
| "payload_msgtype (Repl_error d) = msgtype d"
| "payload_msgtype (Pub_publication d) = msgtype d"
| "payload_msgtype (Pub_cancelation d) = msgtype d"

record upk_packet =
  pkt_payload_len :: u32
  pkt_version_id :: u32
  pkt_seq_num :: u32
  pkt_pkttype :: u32
  pkt_payload :: "upk_payload option"
  pkt_crc32 :: u32

end
