(* ===== verification/Upk_Serializer.thy ===== *)
theory Upk_Serializer
  imports Upk_Messages
begin

text \<open>
  \<open>libupkeeper/upkeeper/upk_v0_protocol_serializer.c\<close>, and the two preamble messages of
  \<open>upk_protocol_serializer.c\<close>: for every message the function that lays it out in a fresh buffer and
  the function that reads it back, then the dispatch tables of function pointers that choose them by
  packet and message type.

  The locale \<open>message_codec\<close> is the contract of such a pair.  It is interpreted for each of the twenty
  messages, and the round trip of the dispatch rests on these interpretations alone.
\<close>

section \<open>Deserializers\<close>

definition upk_deserialize_req_preamble :: "bytes \<Rightarrow> upk_req_preamble cres" where
  "upk_deserialize_req_preamble p =
     bind_c (fetch_enum p) (\<lambda>(msgtype, p).
     bind_c (fetch_uint32 p) (\<lambda>(min_supported_ver, p).
     bind_c (fetch_uint32 p) (\<lambda>(max_supported_ver, p).
     bind_c (fetch_uint32 p) (\<lambda>(client_name_len, p).
     bind_c (fetch_string client_name_len p) (\<lambda>(client_name, p).
       Inr \<lparr>msgtype = msgtype, pre_min_supported_ver = min_supported_ver,
            pre_max_supported_ver = max_supported_ver,
            pre_client_name_len = client_name_len, pre_client_name = client_name\<rparr>)))))"

definition deserial_req_seq_start :: "bytes \<Rightarrow> v0_req_seq_start cres" where
  "deserial_req_seq_start p =
     bind_c (fetch_enum p) (\<lambda>(msgtype, p).
     bind_c (fetch_enum p) (\<lambda>(msg_seq_type, p).
     bind_c (fetch_uint32 p) (\<lambda>(msg_seq_count, p).
       Inr \<lparr>msgtype = msgtype, rss_msg_seq_type = msg_seq_type,
            rss_msg_seq_count = msg_seq_count\<rparr>)))"

definition deserial_req_seq_end :: "bytes \<Rightarrow> v0_req_seq_end cres" where
  "deserial_req_seq_end p =
     bind_c (fetch_enum p) (\<lambda>(msgtype, p).
     bind_c (fetch_bool p) (\<lambda>(commit, p).
       Inr \<lparr>msgtype = msgtype, rse_commit = commit\<rparr>))"

definition deserial_req_action :: "bytes \<Rightarrow> v0_req_action cres" where
  "deserial_req_action p =
     bind_c (fetch_enum p) (\<lambda>(msgtype, p).
     bind_c (fetch_uint32 p) (\<lambda>(svc_id_len, p).
     bind_c (fetch_string svc_id_len p) (\<lambda>(svc_id, p).
     bind_c (fetch_uint32 p) (\<lambda>(action_len, p).
     bind_c (fetch_string action_len p) (\<lambda>(action, p).
       Inr \<lparr>msgtype = msgtype, act_svc_id_len = svc_id_len, act_svc_id = svc_id,
            act_action_len = action_len, act_action = action\<rparr>)))))"

definition deserial_req_signal :: "bytes \<Rightarrow> v0_req_signal cres" where
  "deserial_req_signal p =
     bind_c (fetch_enum p) (\<lambda>(msgtype, p).
     bind_c (fetch_enum p) (\<lambda>(sig, p).
     bind_c (fetch_bool p) (\<lambda>(signal_sid, p).
     bind_c (fetch_bool p) (\<lambda>(signal_pgrp, p).
     bind_c (fetch_uint32 p) (\<lambda>(svc_id_len, p).
     bind_c (fetch_string svc_id_len p) (\<lambda>(svc_id, p).
       Inr \<lparr>msgtype = msgtype, sig_signal = sig, sig_signal_sid = signal_sid,
            sig_signal_pgrp = signal_pgrp, sig_svc_id_len = svc_id_len, sig_svc_id = svc_id\<rparr>))))))"

definition deserial_req_list :: "bytes \<Rightarrow> v0_req_list cres" where
  "deserial_req_list p =
     bind_c (fetch_enum p) (\<lambda>(msgtype, p).
       Inr \<lparr>msgtype = msgtype\<rparr>)"

definition deserial_req_status :: "bytes \<Rightarrow> v0_req_status cres" where
  "deserial_req_status p =
     bind_c (fetch_enum p) (\<lambda>(msgtype, p).
     bind_c (fetch_uint32 p) (\<lambda>(svc_id_len, p).
     bind_c (fetch_string svc_id_len p) (\<lambda>(svc_id, p).
     bind_c (fetch_uint32 p) (\<lambda>(restart_window_seconds, p).
       Inr \<lparr>msgtype = msgtype, sta_svc_id_len = svc_id_len, sta_svc_id = svc_id,
            sta_restart_window_seconds = restart_window_seconds\<rparr>))))"

definition deserial_req_subscribe :: "bytes \<Rightarrow> v0_req_subscribe cres" where
  "deserial_req_subscribe p =
     bind_c (fetch_enum p) (\<lambda>(msgtype, p).
     bind_c (fetch_bool p) (\<lambda>(all_svcs, p).
     bind_c (fetch_uint32 p) (\<lambda>(svc_id_len, p).
     bind_c (fetch_string svc_id_len p) (\<lambda>(svc_id, p).
       Inr \<lparr>msgtype = msgtype, sub_all_svcs = all_svcs, sub_svc_id_len = svc_id_len,
            sub_svc_id = svc_id\<rparr>))))"

definition deserial_req_unsub :: "bytes \<Rightarrow> v0_req_unsubscribe cres" where
  "deserial_req_unsub p =
     bind_c (fetch_enum p) (\<lambda>(msgtype, p).
     bind_c (fetch_bool p) (\<lambda>(all_svcs, p).
     bind_c (fetch_uint32 p) (\<lambda>(svc_id_len, p).
     bind_c (fetch_string svc_id_len p) (\<lambda>(svc_id, p).
       Inr \<lparr>msgtype = msgtype, uns_all_svcs = all_svcs, uns_svc_id_len = svc_id_len,
            uns_svc_id = svc_id\<rparr>))))"

definition deserial_req_disconnect :: "bytes \<Rightarrow> v0_req_disconnect cres" where
  "deserial_req_disconnect p =
     bind_c (fetch_enum p) (\<lambda>(msgtype, p).
       Inr \<lparr>msgtype = msgtype\<rparr>)"

definition upk_deserialize_repl_preamble :: "bytes \<Rightarrow> upk_repl_preamble cres" where
  "upk_deserialize_repl_preamble p =
     bind_c (fetch_enum p) (\<lambda>(msgtype, p).
     bind_c (fetch_uint32 p) (\<lambda>(best_version, p).
       Inr \<lparr>msgtype = msgtype, rpre_best_version = best_version\<rparr>))"

definition deserial_repl_seq_start :: "bytes \<Rightarrow> v0_repl_seq_start cres" where
  "deserial_repl_seq_start p =
     bind_c (fetch_enum p) (\<lambda>(msgtype, p).
     bind_c (fetch_enum p) (\<lambda>(msg_seq_type, p).
     bind_c (fetch_uint32 p) (\<lambda>(msg_seq_count, p).
       Inr \<lparr>msgtype = msgtype, pss_msg_seq_type = msg_seq_type,
            pss_msg_seq_count = msg_seq_count\<rparr>)))"

definition deserial_repl_seq_end :: "bytes \<Rightarrow> v0_repl_seq_end cres" where
  "deserial_repl_seq_end p =
     bind_c (fetch_enum p) (\<lambda>(msgtype, p).
     bind_c (fetch_bool p) (\<lambda>(commit, p).
       Inr \<lparr>msgtype = msgtype, pse_commit = commit\<rparr>))"

definition deserial_repl_result :: "bytes \<Rightarrow> v0_repl_result cres" where
  "deserial_repl_result p =
     bind_c (fetch_enum p) (\<lambda>(msgtype, p).
     bind_c (fetch_bool p) (\<lambda>(successful, p).
     bind_c (fetch_uint32 p) (\<lambda>(msg_len, p).
     bind_c (fetch_string msg_len p) (\<lambda>(msg, p).
       Inr \<lparr>msgtype = msgtype, res_successful = successful, res_msg_len = msg_len,
            res_msg = msg\<rparr>))))"

definition deserial_repl_listing :: "bytes \<Rightarrow> v0_repl_listing cres" where
  "deserial_repl_listing p =
     bind_c (fetch_enum p) (\<lambda>(msgtype, p).
     bind_c (fetch_uint32 p) (\<lambda>(svc_id_len, p).
     bind_c (fetch_string svc_id_len p) (\<lambda>(svc_id, p).
       Inr \<lparr>msgtype = msgtype, lst_svc_id_len = svc_id_len, lst_svc_id = svc_id\<rparr>)))"

definition deserial_svcinfo_data :: "bytes \<Rightarrow> v0_svcinfo cres" where
  "deserial_svcinfo_data p =
     bind_c (fetch_uint32 p) (\<lambda>(last_action_time, p).
     bind_c (fetch_uint32 p) (\<lambda>(last_action_status, p).
     bind_c (fetch_uint32 p) (\<lambda>(last_action_name_len, p).
     bind_c (fetch_array last_action_name_len p) (\<lambda>(last_action_name, p).
     bind_c (fetch_uint32 p) (\<lambda>(last_signal_time, p).
     bind_c (fetch_uint32 p) (\<lambda>(last_signal_status, p).
     bind_c (fetch_enum p) (\<lambda>(last_signal_name, p).
     bind_c (fetch_uint32 p) (\<lambda>(buddy_pid, p).
     bind_c (fetch_uint32 p) (\<lambda>(proc_pid, p).
     bind_c (fetch_enum p) (\<lambda>(current_state, p).
     bind_c (fetch_enum p) (\<lambda>(prior_state, p).
     bind_c (fetch_uint32 p) (\<lambda>(n_recorded_restarts, p).
       Inr \<lparr>si_last_action_time = last_action_time, si_last_action_status = last_action_status,
            si_last_action_name_len = last_action_name_len,
            si_last_action_name = last_action_name, si_last_signal_time = last_signal_time,
            si_last_signal_status = last_signal_status, si_last_signal_name = last_signal_name,
            si_buddy_pid = buddy_pid, si_proc_pid = proc_pid, si_current_state = current_state,
            si_prior_state = prior_state, si_n_recorded_restarts = n_recorded_restarts\<rparr>))))))))))))"

definition deserial_repl_svcinfo :: "bytes \<Rightarrow> v0_repl_svcinfo cres" where
  "deserial_repl_svcinfo p =
     bind_c (fetch_enum p) (\<lambda>(msgtype, p).
     bind_c (fetch_uint32 p) (\<lambda>(svcinfo_len, p).
     bind_c (fetch_data_to_buf svcinfo_len p) (\<lambda>(data, p).
     bind_c (deserial_svcinfo_data data) (\<lambda>svcinfo.
     bind_c (fetch_uint32 p) (\<lambda>(svc_id_len, p).
     bind_c (fetch_string svc_id_len p) (\<lambda>(svc_id, p).
       Inr \<lparr>msgtype = msgtype, inf_svcinfo_len = svcinfo_len, inf_svcinfo = svcinfo,
            inf_svc_id_len = svc_id_len, inf_svc_id = svc_id\<rparr>))))))"

definition deserial_repl_ack :: "bytes \<Rightarrow> v0_repl_ack cres" where
  "deserial_repl_ack p =
     bind_c (fetch_enum p) (\<lambda>(msgtype, p).
       Inr \<lparr>msgtype = msgtype\<rparr>)"

definition deserial_repl_err :: "bytes \<Rightarrow> v0_repl_error cres" where
  "deserial_repl_err p =
     bind_c (fetch_enum p) (\<lambda>(msgtype, p).
     bind_c (fetch_enum p) (\<lambda>(errlevel, p).
     bind_c (fetch_enum p) (\<lambda>(uerrno, p).
     bind_c (fetch_uint32 p) (\<lambda>(msg_len, p).
     bind_c (fetch_string msg_len p) (\<lambda>(msg, p).
     bind_c (fetch_uint32 p) (\<lambda>(svc_id_len, p).
     bind_c (fetch_string svc_id_len p) (\<lambda>(svc_id, p).
       Inr \<lparr>msgtype = msgtype, err_errlevel = errlevel, err_uerrno = uerrno,
            err_msg_len = msg_len, err_msg = msg, err_svc_id_len = svc_id_len,
            err_svc_id = svc_id\<rparr>)))))))"

definition deserial_pub_pub :: "bytes \<Rightarrow> v0_pub_publication cres" where
  "deserial_pub_pub p =
     bind_c (fetch_enum p) (\<lambda>(msgtype, p).
       Inr \<lparr>msgtype = msgtype\<rparr>)"

definition deserial_pub_cancel :: "bytes \<Rightarrow> v0_pub_cancelation cres" where
  "deserial_pub_cancel p =
     bind_c (fetch_enum p) (\<lambda>(msgtype, p).
       Inr \<lparr>msgtype = msgtype\<rparr>)"

section \<open>Serializers\<close>

definition upk_serialize_req_preamble :: "upk_req_preamble \<Rightarrow> nat \<Rightarrow> bytes cres" where
  "upk_serialize_req_preamble d len = serialize_buf len
       [put_enum (msgtype d), put_uint32 (pre_min_supported_ver d),
        put_uint32 (pre_max_supported_ver d), put_uint32 (pre_client_name_len d),
        put_string (pre_client_name d)]"

definition serial_req_seq_start :: "v0_req_seq_start \<Rightarrow> nat \<Rightarrow> bytes cres" where
  "serial_req_seq_start d len = serialize_buf len
       [put_enum (msgtype d), put_enum (rss_msg_seq_type d), put_uint32 (rss_msg_seq_count d)]"

definition serial_req_seq_end :: "v0_req_seq_end \<Rightarrow> nat \<Rightarrow> bytes cres" where
  "serial_req_seq_end d len = serialize_buf len
       [put_enum (msgtype d), put_bool (rse_commit d)]"

definition serial_req_action :: "v0_req_action \<Rightarrow> nat \<Rightarrow> bytes cres" where
  "serial_req_action d len = serialize_buf len
       [put_enum (msgtype d), put_uint32 (act_svc_id_len d), put_string (act_svc_id d),
        put_uint32 (act_action_len d), put_string (act_action d)]"

definition serial_req_signal :: "v0_req_signal \<Rightarrow> nat \<Rightarrow> bytes cres" where
  "serial_req_signal d len = serialize_buf len
       [put_enum (msgtype d), put_enum (sig_signal d), put_bool (sig_signal_sid d),
        put_bool (sig_signal_pgrp d), put_uint32 (sig_svc_id_len d), put_string (sig_svc_id d)]"

definition serial_req_list :: "v0_req_list \<Rightarrow> nat \<Rightarrow> bytes cres" where
  "serial_req_list d len = serialize_buf len
       [put_enum (msgtype d)]"

definition serial_req_status :: "v0_req_status \<Rightarrow> nat \<Rightarrow> bytes cres" where
  "serial_req_status d len = serialize_buf len
       [put_enum (msgtype d), put_uint32 (sta_svc_id_len d), put_string (sta_svc_id d),
        put_uint32 (sta_restart_window_seconds d)]"

definition serial_req_subscribe :: "v0_req_subscribe \<Rightarrow> nat \<Rightarrow> bytes cres" where
  "serial_req_subscribe d len = serialize_buf len
       [put_enum (msgtype d), put_bool (sub_all_svcs d), put_uint32 (sub_svc_id_len d),
        put_string (sub_svc_id d)]"

definition serial_req_unsub :: "v0_req_unsubscribe \<Rightarrow> nat \<Rightarrow> bytes cres" where
  "serial_req_unsub d len = serialize_buf len
       [put_enum (msgtype d), put_bool (uns_all_svcs d), put_uint32 (uns_svc_id_len d),
        put_string (uns_svc_id d)]"

definition serial_req_disconnect :: "v0_req_disconnect \<Rightarrow> nat \<Rightarrow> bytes cres" where
  "serial_req_disconnect d len = serialize_buf len
       [put_enum (msgtype d)]"

definition upk_serialize_repl_preamble :: "upk_repl_preamble \<Rightarrow> nat \<Rightarrow> bytes cres" where
  "upk_serialize_repl_preamble d len = serialize_buf len
       [put_enum (msgtype d), put_uint32 (rpre_best_version d)]"

definition serial_repl_seq_start :: "v0_repl_seq_start \<Rightarrow> nat \<Rightarrow> bytes cres" where
  "serial_repl_seq_start d len = serialize_buf len
       [put_enum (msgtype d), put_enum (pss_msg_seq_type d), put_uint32 (pss_msg_seq_count d)]"

definition serial_repl_seq_end :: "v0_repl_seq_end \<Rightarrow> nat \<Rightarrow> bytes cres" where
  "serial_repl_seq_end d len = serialize_buf len
       [put_enum (msgtype d), put_bool (pse_commit d)]"

definition serial_repl_result :: "v0_repl_result \<Rightarrow> nat \<Rightarrow> bytes cres" where
  "serial_repl_result d len = serialize_buf len
       [put_enum (msgtype d), put_bool (res_successful d), put_uint32 (res_msg_len d),
        put_string (res_msg d)]"

definition serial_repl_listing :: "v0_repl_listing \<Rightarrow> nat \<Rightarrow> bytes cres" where
  "serial_repl_listing d len = serialize_buf len
       [put_enum (msgtype d), put_uint32 (lst_svc_id_len d), put_string (lst_svc_id d)]"

definition serial_svcinfo_data :: "v0_svcinfo \<Rightarrow> nat \<Rightarrow> bytes cres" where
  "serial_svcinfo_data d len = put_all len []
     (map Inr
       [put_uint32 (si_last_action_time d), put_uint32 (si_last_action_status d),
        put_uint32 (si_last_action_name_len d)] @
      put_array (si_last_action_name d) (si_last_action_name_len d) #
      map Inr
       [put_uint32 (si_last_signal_time d), put_uint32 (si_last_signal_status d),
        put_enum (si_last_signal_name d), put_uint32 (si_buddy_pid d), put_uint32 (si_proc_pid d),
        put_enum (si_current_state d), put_enum (si_prior_state d),
        put_uint32 (si_n_recorded_restarts d)])"

text \<open>The two fields before the nested buffer are written before it is built.\<close>

definition serial_repl_svcinfo :: "v0_repl_svcinfo \<Rightarrow> nat \<Rightarrow> bytes cres" where
  "serial_repl_svcinfo d len = put_all len []
     (map Inr [put_enum (msgtype d), put_uint32 (inf_svcinfo_len d)] @
      bind_c (serial_svcinfo_data (inf_svcinfo d) (unat (inf_svcinfo_len d)))
        (\<lambda>data. put_data_from_buf data (inf_svcinfo_len d)) #
      map Inr [put_uint32 (inf_svc_id_len d), put_string (inf_svc_id d)])"

definition serial_repl_ack :: "v0_repl_ack \<Rightarrow> nat \<Rightarrow> bytes cres" where
  "serial_repl_ack d len = serialize_buf len
       [put_enum (msgtype d)]"

definition serial_repl_err :: "v0_repl_error \<Rightarrow> nat \<Rightarrow> bytes cres" where
  "serial_repl_err d len = serialize_buf len
       [put_enum (msgtype d), put_enum (err_errlevel d), put_enum (err_uerrno d),
        put_uint32 (err_msg_len d), put_string (err_msg d), put_uint32 (err_svc_id_len d),
        put_string (err_svc_id d)]"

definition serial_pub_pub :: "v0_pub_publication \<Rightarrow> nat \<Rightarrow> bytes cres" where
  "serial_pub_pub d len = serialize_buf len
       [put_enum (msgtype d)]"

definition serial_pub_cancel :: "v0_pub_cancelation \<Rightarrow> nat \<Rightarrow> bytes cres" where
  "serial_pub_cancel d len = serialize_buf len
       [put_enum (msgtype d)]"

section \<open>The contract of a serializer\<close>

text \<open>\<open>serial m n\<close> lays the message out in a buffer of \<open>n\<close> bytes.  A well-formed message that needs
  \<open>wire_len m\<close> bytes fits exactly when the buffer is that long, and is read back unchanged; bytes
  behind the message are not looked at.  The message identifier comes first on the wire.\<close>

locale message_codec =
  fixes serial :: "'m \<Rightarrow> nat \<Rightarrow> bytes cres"
    and deserial :: "bytes \<Rightarrow> 'm cres"
    and wf :: "'m \<Rightarrow> bool"
    and wire_len :: "'m \<Rightarrow> nat"
    and ident :: "'m \<Rightarrow> u32"
  assumes serial_short: "wf m \<Longrightarrow> n < wire_len m \<Longrightarrow> serial m n = Inl Oob_write"
    and serial_fits: "wf m \<Longrightarrow> wire_len m \<le> n \<Longrightarrow>
      \<exists>b. serial m n = Inr b \<and> length b = n \<and> (\<forall>p. deserial (b @ p) = Inr m) \<and>
        (\<forall>p. \<exists>q. fetch_enum (b @ p) = Inr (ident m, q))"
begin

lemma serial_Inr_iff: "wf m \<Longrightarrow> (\<exists>b. serial m n = Inr b) \<longleftrightarrow> wire_len m \<le> n"
  using serial_short [of m n] serial_fits [of m n] by (cases "wire_len m \<le> n") auto

lemma serial_length: "wf m \<Longrightarrow> serial m n = Inr b \<Longrightarrow> length b = n"
  using serial_short [of m n] serial_fits [of m n] by (cases "wire_len m \<le> n") auto

lemma round_trip: "wf m \<Longrightarrow> serial m n = Inr b \<Longrightarrow> deserial (b @ p) = Inr m"
  using serial_short [of m n] serial_fits [of m n] by (cases "wire_len m \<le> n") auto

lemma round_trip_exact: "wf m \<Longrightarrow> serial m n = Inr b \<Longrightarrow> deserial b = Inr m"
  using round_trip [of m n b "[]"] by simp

lemma fetch_ident: "wf m \<Longrightarrow> serial m n = Inr b \<Longrightarrow> \<exists>q. fetch_enum (b @ p) = Inr (ident m, q)"
  using serial_short [of m n] serial_fits [of m n] by (cases "wire_len m \<le> n") auto

text \<open>The contract carries over to functions that behave like the pair on a message, up to a constructor
  around it: this is how the dispatch tables inherit it.\<close>

lemma lifted:
  assumes "wf m" and "\<And>n. S n = serial m n"
    and "\<And>p q. fetch_enum p = Inr (ident m, q) \<Longrightarrow> D p = bind_c (deserial p) (\<lambda>d. Inr (C d))"
  shows "n < wire_len m \<Longrightarrow> S n = Inl Oob_write"
    and "wire_len m \<le> n \<Longrightarrow>
      \<exists>b. S n = Inr b \<and> length b = n \<and> (\<forall>p. D (b @ p) = Inr (C m)) \<and>
        (\<forall>p. \<exists>q. fetch_enum (b @ p) = Inr (ident m, q))"
proof -
  show "n < wire_len m \<Longrightarrow> S n = Inl Oob_write"
    using assms(1,2) serial_short [of m n] by simp
  assume "wire_len m \<le> n"
  then obtain b where b: "serial m n = Inr b" "length b = n" "\<And>p. deserial (b @ p) = Inr m"
    "\<And>p. \<exists>q. fetch_enum (b @ p) = Inr (ident m, q)"
    using serial_fits [OF assms(1), of n] by blast
  have "D (b @ p) = Inr (C m)" for p
    using b(3) [of p] b(4) [of p] assms(3) by force
  with b assms(2) show "\<exists>b. S n = Inr b \<and> length b = n \<and> (\<forall>p. D (b @ p) = Inr (C m)) \<and>
        (\<forall>p. \<exists>q. fetch_enum (b @ p) = Inr (ident m, q))"
    by auto
qed

text \<open>So no two well-formed messages look the same on the wire.\<close>

lemma serial_inject:
  "wf m \<Longrightarrow> wf m' \<Longrightarrow> serial m n = Inr b \<Longrightarrow> serial m' n' = Inr b \<Longrightarrow> m = m'"
  by (metis round_trip_exact old.sum.inject(2))

end

lemmas codec_simps = serialize_buf_iff fetch_laws is_string_length_put

interpretation mc_req_preamble: message_codec upk_serialize_req_preamble upk_deserialize_req_preamble
    "\<lambda>d. is_string (pre_client_name d) (pre_client_name_len d)" "\<lambda>d. 16 + unat (pre_client_name_len d)" msgtype
  by unfold_locales (auto simp: upk_serialize_req_preamble_def upk_deserialize_req_preamble_def codec_simps)

interpretation mc_req_seq_start: message_codec serial_req_seq_start deserial_req_seq_start
    "\<lambda>_. True" "\<lambda>_. 12" msgtype
  by unfold_locales (auto simp: serial_req_seq_start_def deserial_req_seq_start_def codec_simps)

interpretation mc_req_seq_end: message_codec serial_req_seq_end deserial_req_seq_end
    "\<lambda>_. True" "\<lambda>_. 5" msgtype
  by unfold_locales (auto simp: serial_req_seq_end_def deserial_req_seq_end_def codec_simps)

interpretation mc_req_action: message_codec serial_req_action deserial_req_action
    "\<lambda>d. is_string (act_svc_id d) (act_svc_id_len d) \<and> is_string (act_action d) (act_action_len d)" "\<lambda>d. 12 + unat (act_svc_id_len d) + unat (act_action_len d)" msgtype
  by unfold_locales (auto simp: serial_req_action_def deserial_req_action_def codec_simps)

interpretation mc_req_signal: message_codec serial_req_signal deserial_req_signal
    "\<lambda>d. is_string (sig_svc_id d) (sig_svc_id_len d)" "\<lambda>d. 14 + unat (sig_svc_id_len d)" msgtype
  by unfold_locales (auto simp: serial_req_signal_def deserial_req_signal_def codec_simps)

interpretation mc_req_list: message_codec serial_req_list deserial_req_list
    "\<lambda>_. True" "\<lambda>_. 4" msgtype
  by unfold_locales (auto simp: serial_req_list_def deserial_req_list_def codec_simps)

interpretation mc_req_status: message_codec serial_req_status deserial_req_status
    "\<lambda>d. is_string (sta_svc_id d) (sta_svc_id_len d)" "\<lambda>d. 12 + unat (sta_svc_id_len d)" msgtype
  by unfold_locales (auto simp: serial_req_status_def deserial_req_status_def codec_simps)

interpretation mc_req_subscribe: message_codec serial_req_subscribe deserial_req_subscribe
    "\<lambda>d. is_string (sub_svc_id d) (sub_svc_id_len d)" "\<lambda>d. 9 + unat (sub_svc_id_len d)" msgtype
  by unfold_locales (auto simp: serial_req_subscribe_def deserial_req_subscribe_def codec_simps)

interpretation mc_req_unsubscribe: message_codec serial_req_unsub deserial_req_unsub
    "\<lambda>d. is_string (uns_svc_id d) (uns_svc_id_len d)" "\<lambda>d. 9 + unat (uns_svc_id_len d)" msgtype
  by unfold_locales (auto simp: serial_req_unsub_def deserial_req_unsub_def codec_simps)

interpretation mc_req_disconnect: message_codec serial_req_disconnect deserial_req_disconnect
    "\<lambda>_. True" "\<lambda>_. 4" msgtype
  by unfold_locales (auto simp: serial_req_disconnect_def deserial_req_disconnect_def codec_simps)

interpretation mc_repl_preamble: message_codec upk_serialize_repl_preamble upk_deserialize_repl_preamble
    "\<lambda>_. True" "\<lambda>_. 8" msgtype
  by unfold_locales (auto simp: upk_serialize_repl_preamble_def upk_deserialize_repl_preamble_def codec_simps)

interpretation mc_repl_seq_start: message_codec serial_repl_seq_start deserial_repl_seq_start
    "\<lambda>_. True" "\<lambda>_. 12" msgtype
  by unfold_locales (auto simp: serial_repl_seq_start_def deserial_repl_seq_start_def codec_simps)

interpretation mc_repl_seq_end: message_codec serial_repl_seq_end deserial_repl_seq_end
    "\<lambda>_. True" "\<lambda>_. 5" msgtype
  by unfold_locales (auto simp: serial_repl_seq_end_def deserial_repl_seq_end_def codec_simps)

interpretation mc_repl_result: message_codec serial_repl_result deserial_repl_result
    "\<lambda>d. is_string (res_msg d) (res_msg_len d)" "\<lambda>d. 9 + unat (res_msg_len d)" msgtype
  by unfold_locales (auto simp: serial_repl_result_def deserial_repl_result_def codec_simps)

interpretation mc_repl_listing: message_codec serial_repl_listing deserial_repl_listing
    "\<lambda>d. is_string (lst_svc_id d) (lst_svc_id_len d)" "\<lambda>d. 8 + unat (lst_svc_id_len d)" msgtype
  by unfold_locales (auto simp: serial_repl_listing_def deserial_repl_listing_def codec_simps)

text \<open>The nested buffer of the service information first.\<close>

interpretation mc_svcinfo: message_codec serial_svcinfo_data deserial_svcinfo_data
    "\<lambda>d. is_string (si_last_action_name d) (si_last_action_name_len d)"
    "\<lambda>d. 44 + unat (si_last_action_name_len d)" si_last_action_time
  by unfold_locales
    (auto simp: serial_svcinfo_data_def deserial_svcinfo_data_def codec_simps put_array_string
      put_all_serialize_buf simp del: list.map)

definition wf_repl_svcinfo :: "v0_repl_svcinfo \<Rightarrow> bool" where
  "wf_repl_svcinfo d \<longleftrightarrow>
     is_string (si_last_action_name (inf_svcinfo d)) (si_last_action_name_len (inf_svcinfo d)) \<and>
     44 + unat (si_last_action_name_len (inf_svcinfo d)) \<le> unat (inf_svcinfo_len d) \<and>
     is_string (inf_svc_id d) (inf_svc_id_len d)"

lemma svcinfo_data_chunk:
  assumes "wf_repl_svcinfo d"
  obtains data where
    "bind_c (serial_svcinfo_data (inf_svcinfo d) (unat (inf_svcinfo_len d)))
       (\<lambda>data. put_data_from_buf data (inf_svcinfo_len d)) = Inr data"
    and "length data = unat (inf_svcinfo_len d)"
    and "deserial_svcinfo_data data = Inr (inf_svcinfo d)"
  using assms mc_svcinfo.serial_fits [of "inf_svcinfo d" "unat (inf_svcinfo_len d)"]
    mc_svcinfo.round_trip_exact [of "inf_svcinfo d" "unat (inf_svcinfo_len d)"]
  by (auto simp: wf_repl_svcinfo_def put_data_from_buf_def put_array_def)

interpretation mc_repl_svcinfo: message_codec serial_repl_svcinfo deserial_repl_svcinfo
    wf_repl_svcinfo "\<lambda>d. 12 + unat (inf_svcinfo_len d) + unat (inf_svc_id_len d)" msgtype
proof
  fix m :: v0_repl_svcinfo and n
  assume wf: "wf_repl_svcinfo m"
  then have str: "is_string (inf_svc_id m) (inf_svc_id_len m)"
    by (simp add: wf_repl_svcinfo_def)
  obtain data where data: "bind_c (serial_svcinfo_data (inf_svcinfo m) (unat (inf_svcinfo_len m)))
       (\<lambda>data. put_data_from_buf data (inf_svcinfo_len m)) = Inr data"
    "length data = unat (inf_svcinfo_len m)" "deserial_svcinfo_data data = Inr (inf_svcinfo m)"
    using wf by (rule svcinfo_data_chunk)
  note serial = serial_repl_svcinfo_def data(1) put_all_serialize_buf codec_simps data(2) str
    is_string_length_put [OF str] fetch_put_string [OF str]
  show "serial_repl_svcinfo m n = Inl Oob_write"
    if "n < 12 + unat (inf_svcinfo_len m) + unat (inf_svc_id_len m)"
    using that by (simp add: serial del: list.map)
  show "\<exists>b. serial_repl_svcinfo m n = Inr b \<and> length b = n \<and>
      (\<forall>p. deserial_repl_svcinfo (b @ p) = Inr m) \<and>
      (\<forall>p. \<exists>q. fetch_enum (b @ p) = Inr (msgtype m, q))"
    if "12 + unat (inf_svcinfo_len m) + unat (inf_svc_id_len m) \<le> n"
    using that data
    by (simp add: serial deserial_repl_svcinfo_def fetch_data_to_buf_def fetch_bytes_append
        del: list.map)
qed

interpretation mc_repl_ack: message_codec serial_repl_ack deserial_repl_ack
    "\<lambda>_. True" "\<lambda>_. 4" msgtype
  by unfold_locales (auto simp: serial_repl_ack_def deserial_repl_ack_def codec_simps)

interpretation mc_repl_error: message_codec serial_repl_err deserial_repl_err
    "\<lambda>d. is_string (err_msg d) (err_msg_len d) \<and> is_string (err_svc_id d) (err_svc_id_len d)" "\<lambda>d. 20 + unat (err_msg_len d) + unat (err_svc_id_len d)" msgtype
  by unfold_locales (auto simp: serial_repl_err_def deserial_repl_err_def codec_simps)

interpretation mc_pub_publication: message_codec serial_pub_pub deserial_pub_pub
    "\<lambda>_. True" "\<lambda>_. 4" msgtype
  by unfold_locales (auto simp: serial_pub_pub_def deserial_pub_pub_def codec_simps)

interpretation mc_pub_cancelation: message_codec serial_pub_cancel deserial_pub_cancel
    "\<lambda>_. True" "\<lambda>_. 4" msgtype
  by unfold_locales (auto simp: serial_pub_cancel_def deserial_pub_cancel_def codec_simps)

section \<open>Dispatch\<close>

text \<open>The tables hold functions from and to \<open>void *\<close>.  A serializer casts its argument to the structure
  of its message; a deserializer returns its structure as a payload.\<close>

definition cast_arg ::
    "(upk_payload \<Rightarrow> bool) \<Rightarrow> (upk_payload \<Rightarrow> 'm) \<Rightarrow> ('m \<Rightarrow> nat \<Rightarrow> bytes cres) \<Rightarrow>
     upk_payload \<Rightarrow> nat \<Rightarrow> bytes cres" where
  "cast_arg is_m the_m serial d len =
     (if is_m d then serial (the_m d) len else Inl Type_confusion)"

definition cast_result :: "('m \<Rightarrow> upk_payload) \<Rightarrow> (bytes \<Rightarrow> 'm cres) \<Rightarrow> bytes \<Rightarrow> upk_payload cres" where
  "cast_result C deserial p = bind_c (deserial p) (\<lambda>d. Inr (C d))"

definition deserial_req_dispatch :: "(bytes \<Rightarrow> upk_payload cres) list" where
  "deserial_req_dispatch =
    [cast_result Req_preamble upk_deserialize_req_preamble,
     cast_result Req_seq_start deserial_req_seq_start,
     cast_result Req_seq_end deserial_req_seq_end,
     cast_result Req_action deserial_req_action,
     cast_result Req_signal deserial_req_signal,
     cast_result Req_list deserial_req_list,
     cast_result Req_status deserial_req_status,
     cast_result Req_subscribe deserial_req_subscribe,
     cast_result Req_unsubscribe deserial_req_unsub,
     cast_result Req_disconnect deserial_req_disconnect]"

definition deserial_repl_dispatch :: "(bytes \<Rightarrow> upk_payload cres) list" where
  "deserial_repl_dispatch =
    [cast_result Repl_preamble upk_deserialize_repl_preamble,
     cast_result Repl_seq_start deserial_repl_seq_start,
     cast_result Repl_seq_end deserial_repl_seq_end,
     cast_result Repl_result deserial_repl_result,
     cast_result Repl_listing deserial_repl_listing,
     cast_result Repl_svcinfo deserial_repl_svcinfo,
     cast_result Repl_ack deserial_repl_ack,
     cast_result Repl_error deserial_repl_err]"

definition deserial_pub_dispatch :: "(bytes \<Rightarrow> upk_payload cres) list" where
  "deserial_pub_dispatch =
    [cast_result Pub_publication deserial_pub_pub,
     cast_result Pub_cancelation deserial_pub_cancel]"

definition serial_req_dispatch :: "(upk_payload \<Rightarrow> nat \<Rightarrow> bytes cres) list" where
  "serial_req_dispatch =
    [cast_arg is_req_preamble the_req_preamble upk_serialize_req_preamble,
     cast_arg is_req_seq_start the_req_seq_start serial_req_seq_start,
     cast_arg is_req_seq_end the_req_seq_end serial_req_seq_end,
     cast_arg is_req_action the_req_action serial_req_action,
     cast_arg is_req_signal the_req_signal serial_req_signal,
     cast_arg is_req_list the_req_list serial_req_list,
     cast_arg is_req_status the_req_status serial_req_status,
     cast_arg is_req_subscribe the_req_subscribe serial_req_subscribe,
     cast_arg is_req_unsubscribe the_req_unsubscribe serial_req_unsub,
     cast_arg is_req_disconnect the_req_disconnect serial_req_disconnect]"

definition serial_repl_dispatch :: "(upk_payload \<Rightarrow> nat \<Rightarrow> bytes cres) list" where
  "serial_repl_dispatch =
    [cast_arg is_repl_preamble the_repl_preamble upk_serialize_repl_preamble,
     cast_arg is_repl_seq_start the_repl_seq_start serial_repl_seq_start,
     cast_arg is_repl_seq_end the_repl_seq_end serial_repl_seq_end,
     cast_arg is_repl_result the_repl_result serial_repl_result,
     cast_arg is_repl_listing the_repl_listing serial_repl_listing,
     cast_arg is_repl_svcinfo the_repl_svcinfo serial_repl_svcinfo,
     cast_arg is_repl_ack the_repl_ack serial_repl_ack,
     cast_arg is_repl_error the_repl_error serial_repl_err]"

definition serial_pub_dispatch :: "(upk_payload \<Rightarrow> nat \<Rightarrow> bytes cres) list" where
  "serial_pub_dispatch =
    [cast_arg is_pub_publication the_pub_publication serial_pub_pub,
     cast_arg is_pub_cancelation the_pub_cancelation serial_pub_cancel]"

text \<open>The deserializers of a packet type read the message type, assert that it has a table entry (the
  subtraction is unsigned) and call the entry.  The serializers index their table unchecked.\<close>

definition deserialize_req_payload :: "bytes \<Rightarrow> upk_payload cres" where
  "deserialize_req_payload p =
     bind_c (fetch_enum p) (\<lambda>(msgtype, _).
       if unat (msgtype - UPK_REQ_ORIGIN) < length deserial_req_dispatch
       then (deserial_req_dispatch ! unat (msgtype - UPK_REQ_ORIGIN)) p
       else Inl Abort)"

definition deserialize_repl_payload :: "bytes \<Rightarrow> upk_payload cres" where
  "deserialize_repl_payload p =
     bind_c (fetch_enum p) (\<lambda>(msgtype, _).
       if unat (msgtype - UPK_REPL_ORIGIN) < length deserial_repl_dispatch
       then (deserial_repl_dispatch ! unat (msgtype - UPK_REPL_ORIGIN)) p
       else Inl Abort)"

definition deserialize_pub_payload :: "bytes \<Rightarrow> upk_payload cres" where
  "deserialize_pub_payload p =
     bind_c (fetch_enum p) (\<lambda>(msgtype, _).
       if unat (msgtype - UPK_PUB_ORIGIN) < length deserial_pub_dispatch
       then (deserial_pub_dispatch ! unat (msgtype - UPK_PUB_ORIGIN)) p
       else Inl Abort)"

definition serialize_req_payload :: "upk_payload \<Rightarrow> nat \<Rightarrow> bytes cres" where
  "serialize_req_payload d len =
     (if unat (payload_msgtype d - UPK_REQ_ORIGIN) < length serial_req_dispatch
      then (serial_req_dispatch ! unat (payload_msgtype d - UPK_REQ_ORIGIN)) d len
      else Inl Oob_read)"

definition serialize_repl_payload :: "upk_payload \<Rightarrow> nat \<Rightarrow> bytes cres" where
  "serialize_repl_payload d len =
     (if unat (payload_msgtype d - UPK_REPL_ORIGIN) < length serial_repl_dispatch
      then (serial_repl_dispatch ! unat (payload_msgtype d - UPK_REPL_ORIGIN)) d len
      else Inl Oob_read)"

definition serialize_pub_payload :: "upk_payload \<Rightarrow> nat \<Rightarrow> bytes cres" where
  "serialize_pub_payload d len =
     (if unat (payload_msgtype d - UPK_PUB_ORIGIN) < length serial_pub_dispatch
      then (serial_pub_dispatch ! unat (payload_msgtype d - UPK_PUB_ORIGIN)) d len
      else Inl Oob_read)"

text \<open>The outer tables start at \<open>PKT_REQUEST = 1\<close>, so their entry 0 is a null pointer.\<close>

definition deserial_pkt_dispatch :: "(bytes \<Rightarrow> upk_payload cres) option list" where
  "deserial_pkt_dispatch =
     [None, Some deserialize_req_payload, Some deserialize_repl_payload,
      Some deserialize_pub_payload]"

definition serial_pkt_dispatch :: "(upk_payload \<Rightarrow> nat \<Rightarrow> bytes cres) option list" where
  "serial_pkt_dispatch =
     [None, Some serialize_req_payload, Some serialize_repl_payload, Some serialize_pub_payload]"

definition call_entry :: "'f option list \<Rightarrow> u32 \<Rightarrow> ('f \<Rightarrow> 'r cres) \<Rightarrow> 'r cres" where
  "call_entry table i call =
     (if length table \<le> unat i then Inl Oob_read
      else case table ! unat i of None \<Rightarrow> Inl Null_call | Some f \<Rightarrow> call f)"

definition v0_deserialize_payload :: "bytes \<Rightarrow> u32 \<Rightarrow> upk_payload cres" where
  "v0_deserialize_payload p pkttype = call_entry deserial_pkt_dispatch pkttype (\<lambda>f. f p)"

text \<open>The generic read of \<open>msgtype\<close> goes through the payload pointer.\<close>

definition v0_serialize_payload :: "upk_packet \<Rightarrow> bytes cres" where
  "v0_serialize_payload pkt =
     call_entry serial_pkt_dispatch (pkt_pkttype pkt)
       (\<lambda>f. case pkt_payload pkt of None \<Rightarrow> Inl Null_deref
             | Some d \<Rightarrow> f d (unat (pkt_payload_len pkt)))"

section \<open>Round trip of a payload\<close>

text \<open>The packet type and the identifier a payload of each kind belongs to.\<close>

primrec payload_kind :: "upk_payload \<Rightarrow> u32 \<times> u32" where
  "payload_kind (Req_preamble d) = (PKT_REQUEST, UPK_REQ_PREAMBLE)"
| "payload_kind (Req_seq_start d) = (PKT_REQUEST, UPK_REQ_SEQ_START)"
| "payload_kind (Req_seq_end d) = (PKT_REQUEST, UPK_REQ_SEQ_END)"
| "payload_kind (Req_action d) = (PKT_REQUEST, UPK_REQ_ACTION)"
| "payload_kind (Req_signal d) = (PKT_REQUEST, UPK_REQ_SIGNAL)"
| "payload_kind (Req_list d) = (PKT_REQUEST, UPK_REQ_LIST)"
| "payload_kind (Req_status d) = (PKT_REQUEST, UPK_REQ_STATUS)"
| "payload_kind (Req_subscribe d) = (PKT_REQUEST, UPK_REQ_SUBSCRIBE)"
| "payload_kind (Req_unsubscribe d) = (PKT_REQUEST, UPK_REQ_UNSUBSCRIBE)"
| "payload_kind (Req_disconnect d) = (PKT_REQUEST, UPK_REQ_DISCONNECT)"
| "payload_kind (Repl_preamble d) = (PKT_REPLY, UPK_REPL_PREAMBLE)"
| "payload_kind (Repl_seq_start d) = (PKT_REPLY, UPK_REPL_SEQ_START)"
| "payload_kind (Repl_seq_end d) = (PKT_REPLY, UPK_REPL_SEQ_END)"
| "payload_kind (Repl_result d) = (PKT_REPLY, UPK_REPL_RESULT)"
| "payload_kind (Repl_listing d) = (PKT_REPLY, UPK_REPL_LISTING)"
| "payload_kind (Repl_svcinfo d) = (PKT_REPLY, UPK_REPL_SVCINFO)"
| "payload_kind (Repl_ack d) = (PKT_REPLY, UPK_REPL_ACK)"
| "payload_kind (Repl_error d) = (PKT_REPLY, UPK_REPL_ERROR)"
| "payload_kind (Pub_publication d) = (PKT_PUBMSG, UPK_PUB_PUBLICATION)"
| "payload_kind (Pub_cancelation d) = (PKT_PUBMSG, UPK_PUB_CANCELATION)"

text \<open>Its strings are terminated and agree with their lengths.\<close>

primrec payload_strings :: "upk_payload \<Rightarrow> bool" where
  "payload_strings (Req_preamble d) =
     (is_string (pre_client_name d) (pre_client_name_len d))"
| "payload_strings (Req_seq_start d) = True"
| "payload_strings (Req_seq_end d) = True"
| "payload_strings (Req_action d) =
     (is_string (act_svc_id d) (act_svc_id_len d) \<and> is_string (act_action d) (act_action_len d))"
| "payload_strings (Req_signal d) =
     (is_string (sig_svc_id d) (sig_svc_id_len d))"
| "payload_strings (Req_list d) = True"
| "payload_strings (Req_status d) =
     (is_string (sta_svc_id d) (sta_svc_id_len d))"
| "payload_strings (Req_subscribe d) =
     (is_string (sub_svc_id d) (sub_svc_id_len d))"
| "payload_strings (Req_unsubscribe d) =
     (is_string (uns_svc_id d) (uns_svc_id_len d))"
| "payload_strings (Req_disconnect d) = True"
| "payload_strings (Repl_preamble d) = True"
| "payload_strings (Repl_seq_start d) = True"
| "payload_strings (Repl_seq_end d) = True"
| "payload_strings (Repl_result d) = (is_string (res_msg d) (res_msg_len d))"
| "payload_strings (Repl_listing d) =
     (is_string (lst_svc_id d) (lst_svc_id_len d))"
| "payload_strings (Repl_svcinfo d) = wf_repl_svcinfo d"
| "payload_strings (Repl_ack d) = True"
| "payload_strings (Repl_error d) =
     (is_string (err_msg d) (err_msg_len d) \<and> is_string (err_svc_id d) (err_svc_id_len d))"
| "payload_strings (Pub_publication d) = True"
| "payload_strings (Pub_cancelation d) = True"

text \<open>The bytes it takes on the wire.\<close>

primrec payload_wire_len :: "upk_payload \<Rightarrow> nat" where
  "payload_wire_len (Req_preamble d) = 16 + unat (pre_client_name_len d)"
| "payload_wire_len (Req_seq_start d) = 12"
| "payload_wire_len (Req_seq_end d) = 5"
| "payload_wire_len (Req_action d) =
     12 + unat (act_svc_id_len d) + unat (act_action_len d)"
| "payload_wire_len (Req_signal d) = 14 + unat (sig_svc_id_len d)"
| "payload_wire_len (Req_list d) = 4"
| "payload_wire_len (Req_status d) = 12 + unat (sta_svc_id_len d)"
| "payload_wire_len (Req_subscribe d) = 9 + unat (sub_svc_id_len d)"
| "payload_wire_len (Req_unsubscribe d) = 9 + unat (uns_svc_id_len d)"
| "payload_wire_len (Req_disconnect d) = 4"
| "payload_wire_len (Repl_preamble d) = 8"
| "payload_wire_len (Repl_seq_start d) = 12"
| "payload_wire_len (Repl_seq_end d) = 5"
| "payload_wire_len (Repl_result d) = 9 + unat (res_msg_len d)"
| "payload_wire_len (Repl_listing d) = 8 + unat (lst_svc_id_len d)"
| "payload_wire_len (Repl_svcinfo d) =
     12 + unat (inf_svcinfo_len d) + unat (inf_svc_id_len d)"
| "payload_wire_len (Repl_ack d) = 4"
| "payload_wire_len (Repl_error d) =
     20 + unat (err_msg_len d) + unat (err_svc_id_len d)"
| "payload_wire_len (Pub_publication d) = 4"
| "payload_wire_len (Pub_cancelation d) = 4"

definition wf_payload :: "upk_payload \<Rightarrow> bool" where
  "wf_payload d \<longleftrightarrow> payload_msgtype d = snd (payload_kind d) \<and> payload_strings d"

text \<open>The entries of the tables, and with them the contract for each of the three packet types.\<close>

lemma serialize_req_entries:
  assumes "payload_msgtype d = snd (payload_kind d)"
  shows
    "d = Req_preamble d0 \<Longrightarrow> serialize_req_payload d n = upk_serialize_req_preamble d0 n"
    "d = Req_seq_start d1 \<Longrightarrow> serialize_req_payload d n = serial_req_seq_start d1 n"
    "d = Req_seq_end d2 \<Longrightarrow> serialize_req_payload d n = serial_req_seq_end d2 n"
    "d = Req_action d3 \<Longrightarrow> serialize_req_payload d n = serial_req_action d3 n"
    "d = Req_signal d4 \<Longrightarrow> serialize_req_payload d n = serial_req_signal d4 n"
    "d = Req_list d5 \<Longrightarrow> serialize_req_payload d n = serial_req_list d5 n"
    "d = Req_status d6 \<Longrightarrow> serialize_req_payload d n = serial_req_status d6 n"
    "d = Req_subscribe d7 \<Longrightarrow> serialize_req_payload d n = serial_req_subscribe d7 n"
    "d = Req_unsubscribe d8 \<Longrightarrow> serialize_req_payload d n = serial_req_unsub d8 n"
    "d = Req_disconnect d9 \<Longrightarrow> serialize_req_payload d n = serial_req_disconnect d9 n"
  using assms
  by (simp_all add: serialize_req_payload_def serial_req_dispatch_def cast_arg_def msgtypes)

lemma deserialize_req_entries:
  "fetch_enum p = Inr (UPK_REQ_PREAMBLE, q) \<Longrightarrow>
     deserialize_req_payload p = bind_c (upk_deserialize_req_preamble p) (\<lambda>d. Inr (Req_preamble d))"
  "fetch_enum p = Inr (UPK_REQ_SEQ_START, q) \<Longrightarrow>
     deserialize_req_payload p = bind_c (deserial_req_seq_start p) (\<lambda>d. Inr (Req_seq_start d))"
  "fetch_enum p = Inr (UPK_REQ_SEQ_END, q) \<Longrightarrow>
     deserialize_req_payload p = bind_c (deserial_req_seq_end p) (\<lambda>d. Inr (Req_seq_end d))"
  "fetch_enum p = Inr (UPK_REQ_ACTION, q) \<Longrightarrow>
     deserialize_req_payload p = bind_c (deserial_req_action p) (\<lambda>d. Inr (Req_action d))"
  "fetch_enum p = Inr (UPK_REQ_SIGNAL, q) \<Longrightarrow>
     deserialize_req_payload p = bind_c (deserial_req_signal p) (\<lambda>d. Inr (Req_signal d))"
  "fetch_enum p = Inr (UPK_REQ_LIST, q) \<Longrightarrow>
     deserialize_req_payload p = bind_c (deserial_req_list p) (\<lambda>d. Inr (Req_list d))"
  "fetch_enum p = Inr (UPK_REQ_STATUS, q) \<Longrightarrow>
     deserialize_req_payload p = bind_c (deserial_req_status p) (\<lambda>d. Inr (Req_status d))"
  "fetch_enum p = Inr (UPK_REQ_SUBSCRIBE, q) \<Longrightarrow>
     deserialize_req_payload p = bind_c (deserial_req_subscribe p) (\<lambda>d. Inr (Req_subscribe d))"
  "fetch_enum p = Inr (UPK_REQ_UNSUBSCRIBE, q) \<Longrightarrow>
     deserialize_req_payload p = bind_c (deserial_req_unsub p) (\<lambda>d. Inr (Req_unsubscribe d))"
  "fetch_enum p = Inr (UPK_REQ_DISCONNECT, q) \<Longrightarrow>
     deserialize_req_payload p = bind_c (deserial_req_disconnect p) (\<lambda>d. Inr (Req_disconnect d))"
  by (simp_all add: deserialize_req_payload_def deserial_req_dispatch_def cast_result_def msgtypes)

lemma req_payload_codec:
  assumes "wf_payload d" and "fst (payload_kind d) = PKT_REQUEST"
  shows "(n < payload_wire_len d \<longrightarrow> serialize_req_payload d n = Inl Oob_write) \<and>
    (payload_wire_len d \<le> n \<longrightarrow>
      (\<exists>b. serialize_req_payload d n = Inr b \<and> length b = n \<and>
        (\<forall>p. deserialize_req_payload (b @ p) = Inr d) \<and>
        (\<forall>p. \<exists>q. fetch_enum (b @ p) = Inr (payload_msgtype d, q))))"
proof (cases d)
  case (Req_preamble m)
  with assms show ?thesis
    using mc_req_preamble.lifted [where m = m and S = "serialize_req_payload d"
        and D = deserialize_req_payload and C = Req_preamble and n = n]
    by (simp add: wf_payload_def serialize_req_entries deserialize_req_entries)
next
  case (Req_seq_start m)
  with assms show ?thesis
    using mc_req_seq_start.lifted [where m = m and S = "serialize_req_payload d"
        and D = deserialize_req_payload and C = Req_seq_start and n = n]
    by (simp add: wf_payload_def serialize_req_entries deserialize_req_entries)
next
  case (Req_seq_end m)
  with assms show ?thesis
    using mc_req_seq_end.lifted [where m = m and S = "serialize_req_payload d"
        and D = deserialize_req_payload and C = Req_seq_end and n = n]
    by (simp add: wf_payload_def serialize_req_entries deserialize_req_entries)
next
  case (Req_action m)
  with assms show ?thesis
    using mc_req_action.lifted [where m = m and S = "serialize_req_payload d"
        and D = deserialize_req_payload and C = Req_action and n = n]
    by (simp add: wf_payload_def serialize_req_entries deserialize_req_entries)
next
  case (Req_signal m)
  with assms show ?thesis
    using mc_req_signal.lifted [where m = m and S = "serialize_req_payload d"
        and D = deserialize_req_payload and C = Req_signal and n = n]
    by (simp add: wf_payload_def serialize_req_entries deserialize_req_entries)
next
  case (Req_list m)
  with assms show ?thesis
    using mc_req_list.lifted [where m = m and S = "serialize_req_payload d"
        and D = deserialize_req_payload and C = Req_list and n = n]
    by (simp add: wf_payload_def serialize_req_entries deserialize_req_entries)
next
  case (Req_status m)
  with assms show ?thesis
    using mc_req_status.lifted [where m = m and S = "serialize_req_payload d"
        and D = deserialize_req_payload and C = Req_status and n = n]
    by (simp add: wf_payload_def serialize_req_entries deserialize_req_entries)
next
  case (Req_subscribe m)
  with assms show ?thesis
    using mc_req_subscribe.lifted [where m = m and S = "serialize_req_payload d"
        and D = deserialize_req_payload and C = Req_subscribe and n = n]
    by (simp add: wf_payload_def serialize_req_entries deserialize_req_entries)
next
  case (Req_unsubscribe m)
  with assms show ?thesis
    using mc_req_unsubscribe.lifted [where m = m and S = "serialize_req_payload d"
        and D = deserialize_req_payload and C = Req_unsubscribe and n = n]
    by (simp add: wf_payload_def serialize_req_entries deserialize_req_entries)
next
  case (Req_disconnect m)
  with assms show ?thesis
    using mc_req_disconnect.lifted [where m = m and S = "serialize_req_payload d"
        and D = deserialize_req_payload and C = Req_disconnect and n = n]
    by (simp add: wf_payload_def serialize_req_entries deserialize_req_entries)
qed (use assms in \<open>simp_all add: msgtypes\<close>)

interpretation pc_req: message_codec serialize_req_payload deserialize_req_payload
    "\<lambda>d. wf_payload d \<and> fst (payload_kind d) = PKT_REQUEST" payload_wire_len payload_msgtype
  using req_payload_codec by unfold_locales blast+

lemma serialize_repl_entries:
  assumes "payload_msgtype d = snd (payload_kind d)"
  shows
    "d = Repl_preamble d0 \<Longrightarrow> serialize_repl_payload d n = upk_serialize_repl_preamble d0 n"
    "d = Repl_seq_start d1 \<Longrightarrow> serialize_repl_payload d n = serial_repl_seq_start d1 n"
    "d = Repl_seq_end d2 \<Longrightarrow> serialize_repl_payload d n = serial_repl_seq_end d2 n"
    "d = Repl_result d3 \<Longrightarrow> serialize_repl_payload d n = serial_repl_result d3 n"
    "d = Repl_listing d4 \<Longrightarrow> serialize_repl_payload d n = serial_repl_listing d4 n"
    "d = Repl_svcinfo d5 \<Longrightarrow> serialize_repl_payload d n = serial_repl_svcinfo d5 n"
    "d = Repl_ack d6 \<Longrightarrow> serialize_repl_payload d n = serial_repl_ack d6 n"
    "d = Repl_error d7 \<Longrightarrow> serialize_repl_payload d n = serial_repl_err d7 n"
  using assms
  by (simp_all add: serialize_repl_payload_def serial_repl_dispatch_def cast_arg_def msgtypes)

lemma deserialize_repl_entries:
  "fetch_enum p = Inr (UPK_REPL_PREAMBLE, q) \<Longrightarrow>
     deserialize_repl_payload p = bind_c (upk_deserialize_repl_preamble p) (\<lambda>d. Inr (Repl_preamble d))"
  "fetch_enum p = Inr (UPK_REPL_SEQ_START, q) \<Longrightarrow>
     deserialize_repl_payload p = bind_c (deserial_repl_seq_start p) (\<lambda>d. Inr (Repl_seq_start d))"
  "fetch_enum p = Inr (UPK_REPL_SEQ_END, q) \<Longrightarrow>
     deserialize_repl_payload p = bind_c (deserial_repl_seq_end p) (\<lambda>d. Inr (Repl_seq_end d))"
  "fetch_enum p = Inr (UPK_REPL_RESULT, q) \<Longrightarrow>
     deserialize_repl_payload p = bind_c (deserial_repl_result p) (\<lambda>d. Inr (Repl_result d))"
  "fetch_enum p = Inr (UPK_REPL_LISTING, q) \<Longrightarrow>
     deserialize_repl_payload p = bind_c (deserial_repl_listing p) (\<lambda>d. Inr (Repl_listing d))"
  "fetch_enum p = Inr (UPK_REPL_SVCINFO, q) \<Longrightarrow>
     deserialize_repl_payload p = bind_c (deserial_repl_svcinfo p) (\<lambda>d. Inr (Repl_svcinfo d))"
  "fetch_enum p = Inr (UPK_REPL_ACK, q) \<Longrightarrow>
     deserialize_repl_payload p = bind_c (deserial_repl_ack p) (\<lambda>d. Inr (Repl_ack d))"
  "fetch_enum p = Inr (UPK_REPL_ERROR, q) \<Longrightarrow>
     deserialize_repl_payload p = bind_c (deserial_repl_err p) (\<lambda>d. Inr (Repl_error d))"
  by (simp_all add: deserialize_repl_payload_def deserial_repl_dispatch_def cast_result_def msgtypes)

lemma repl_payload_codec:
  assumes "wf_payload d" and "fst (payload_kind d) = PKT_REPLY"
  shows "(n < payload_wire_len d \<longrightarrow> serialize_repl_payload d n = Inl Oob_write) \<and>
    (payload_wire_len d \<le> n \<longrightarrow>
      (\<exists>b. serialize_repl_payload d n = Inr b \<and> length b = n \<and>
        (\<forall>p. deserialize_repl_payload (b @ p) = Inr d) \<and>
        (\<forall>p. \<exists>q. fetch_enum (b @ p) = Inr (payload_msgtype d, q))))"
proof (cases d)
  case (Repl_preamble m)
  with assms show ?thesis
    using mc_repl_preamble.lifted [where m = m and S = "serialize_repl_payload d"
        and D = deserialize_repl_payload and C = Repl_preamble and n = n]
    by (simp add: wf_payload_def serialize_repl_entries deserialize_repl_entries)
next
  case (Repl_seq_start m)
  with assms show ?thesis
    using mc_repl_seq_start.lifted [where m = m and S = "serialize_repl_payload d"
        and D = deserialize_repl_payload and C = Repl_seq_start and n = n]
    by (simp add: wf_payload_def serialize_repl_entries deserialize_repl_entries)
next
  case (Repl_seq_end m)
  with assms show ?thesis
    using mc_repl_seq_end.lifted [where m = m and S = "serialize_repl_payload d"
        and D = deserialize_repl_payload and C = Repl_seq_end and n = n]
    by (simp add: wf_payload_def serialize_repl_entries deserialize_repl_entries)
next
  case (Repl_result m)
  with assms show ?thesis
    using mc_repl_result.lifted [where m = m and S = "serialize_repl_payload d"
        and D = deserialize_repl_payload and C = Repl_result and n = n]
    by (simp add: wf_payload_def serialize_repl_entries deserialize_repl_entries)
next
  case (Repl_listing m)
  with assms show ?thesis
    using mc_repl_listing.lifted [where m = m and S = "serialize_repl_payload d"
        and D = deserialize_repl_payload and C = Repl_listing and n = n]
    by (simp add: wf_payload_def serialize_repl_entries deserialize_repl_entries)
next
  case (Repl_svcinfo m)
  with assms show ?thesis
    using mc_repl_svcinfo.lifted [where m = m and S = "serialize_repl_payload d"
        and D = deserialize_repl_payload and C = Repl_svcinfo and n = n]
    by (simp add: wf_payload_def serialize_repl_entries deserialize_repl_entries)
next
  case (Repl_ack m)
  with assms show ?thesis
    using mc_repl_ack.lifted [where m = m and S = "serialize_repl_payload d"
        and D = deserialize_repl_payload and C = Repl_ack and n = n]
    by (simp add: wf_payload_def serialize_repl_entries deserialize_repl_entries)
next
  case (Repl_error m)
  with assms show ?thesis
    using mc_repl_error.lifted [where m = m and S = "serialize_repl_payload d"
        and D = deserialize_repl_payload and C = Repl_error and n = n]
    by (simp add: wf_payload_def serialize_repl_entries deserialize_repl_entries)
qed (use assms in \<open>simp_all add: msgtypes\<close>)

interpretation pc_repl: message_codec serialize_repl_payload deserialize_repl_payload
    "\<lambda>d. wf_payload d \<and> fst (payload_kind d) = PKT_REPLY" payload_wire_len payload_msgtype
  using repl_payload_codec by unfold_locales blast+

lemma serialize_pub_entries:
  assumes "payload_msgtype d = snd (payload_kind d)"
  shows
    "d = Pub_publication d0 \<Longrightarrow> serialize_pub_payload d n = serial_pub_pub d0 n"
    "d = Pub_cancelation d1 \<Longrightarrow> serialize_pub_payload d n = serial_pub_cancel d1 n"
  using assms
  by (simp_all add: serialize_pub_payload_def serial_pub_dispatch_def cast_arg_def msgtypes)

lemma deserialize_pub_entries:
  "fetch_enum p = Inr (UPK_PUB_PUBLICATION, q) \<Longrightarrow>
     deserialize_pub_payload p = bind_c (deserial_pub_pub p) (\<lambda>d. Inr (Pub_publication d))"
  "fetch_enum p = Inr (UPK_PUB_CANCELATION, q) \<Longrightarrow>
     deserialize_pub_payload p = bind_c (deserial_pub_cancel p) (\<lambda>d. Inr (Pub_cancelation d))"
  by (simp_all add: deserialize_pub_payload_def deserial_pub_dispatch_def cast_result_def msgtypes)

lemma pub_payload_codec:
  assumes "wf_payload d" and "fst (payload_kind d) = PKT_PUBMSG"
  shows "(n < payload_wire_len d \<longrightarrow> serialize_pub_payload d n = Inl Oob_write) \<and>
    (payload_wire_len d \<le> n \<longrightarrow>
      (\<exists>b. serialize_pub_payload d n = Inr b \<and> length b = n \<and>
        (\<forall>p. deserialize_pub_payload (b @ p) = Inr d) \<and>
        (\<forall>p. \<exists>q. fetch_enum (b @ p) = Inr (payload_msgtype d, q))))"
proof (cases d)
  case (Pub_publication m)
  with assms show ?thesis
    using mc_pub_publication.lifted [where m = m and S = "serialize_pub_payload d"
        and D = deserialize_pub_payload and C = Pub_publication and n = n]
    by (simp add: wf_payload_def serialize_pub_entries deserialize_pub_entries)
next
  case (Pub_cancelation m)
  with assms show ?thesis
    using mc_pub_cancelation.lifted [where m = m and S = "serialize_pub_payload d"
        and D = deserialize_pub_payload and C = Pub_cancelation and n = n]
    by (simp add: wf_payload_def serialize_pub_entries deserialize_pub_entries)
qed (use assms in \<open>simp_all add: msgtypes\<close>)

interpretation pc_pub: message_codec serialize_pub_payload deserialize_pub_payload
    "\<lambda>d. wf_payload d \<and> fst (payload_kind d) = PKT_PUBMSG" payload_wire_len payload_msgtype
  using pub_payload_codec by unfold_locales blast+

text \<open>The outer dispatch tables on the three packet types.\<close>

lemma payload_kind_pkttype:
  "fst (payload_kind d) \<in> {PKT_REQUEST, PKT_REPLY, PKT_PUBMSG}"
  by (cases d) simp_all

lemma pkttype_cases:
  "\<not> (t = 0 \<or> PKT_V0_PROTO_LIMIT \<le> t) \<Longrightarrow> t \<in> {PKT_REQUEST, PKT_REPLY, PKT_PUBMSG}"
proof -
  assume "\<not> (t = 0 \<or> PKT_V0_PROTO_LIMIT \<le> t)"
  then have "unat t \<noteq> 0" and "unat t < 4"
    by (auto simp: msgtypes word_le_nat_alt unat_eq_0)
  then have "unat t = 1 \<or> unat t = 2 \<or> unat t = 3" by linarith
  then have "t = of_nat 1 \<or> t = of_nat 2 \<or> t = of_nat 3"
    by (metis of_nat_unat ucast_id)
  then show ?thesis by (auto simp: msgtypes)
qed

lemma call_entry_pkt:
  "call_entry deserial_pkt_dispatch PKT_REQUEST k = k deserialize_req_payload"
  "call_entry deserial_pkt_dispatch PKT_REPLY k = k deserialize_repl_payload"
  "call_entry deserial_pkt_dispatch PKT_PUBMSG k = k deserialize_pub_payload"
  "call_entry serial_pkt_dispatch PKT_REQUEST k' = k' serialize_req_payload"
  "call_entry serial_pkt_dispatch PKT_REPLY k' = k' serialize_repl_payload"
  "call_entry serial_pkt_dispatch PKT_PUBMSG k' = k' serialize_pub_payload"
  by (simp_all add: call_entry_def deserial_pkt_dispatch_def serial_pkt_dispatch_def msgtypes)

lemma payload_fits:
  assumes "wf_payload d" and "pkt_payload pkt = Some d" and "pkt_pkttype pkt = fst (payload_kind d)"
    and "payload_wire_len d \<le> unat (pkt_payload_len pkt)"
  shows "\<exists>b. v0_serialize_payload pkt = Inr b \<and> length b = unat (pkt_payload_len pkt) \<and>
    v0_deserialize_payload b (pkt_pkttype pkt) = Inr d"
  using payload_kind_pkttype [of d] assms pc_req.serial_fits [OF _ assms(4)]
    pc_repl.serial_fits [OF _ assms(4)] pc_pub.serial_fits [OF _ assms(4)]
  by (auto simp: v0_serialize_payload_def v0_deserialize_payload_def call_entry_pkt)
     (metis append_Nil2)+

section \<open>Faults of the deserializers\<close>

lemma deserial_svcinfo_data_faults: "faults_in mem_faults (deserial_svcinfo_data p)"
  unfolding deserial_svcinfo_data_def
  by (intro faults_in_bind_pair fetch_faults faults_in_simps)

lemma deserial_faults:
  "faults_in mem_faults (upk_deserialize_req_preamble p)"
  "faults_in mem_faults (deserial_req_seq_start p)"
  "faults_in mem_faults (deserial_req_seq_end p)"
  "faults_in mem_faults (deserial_req_action p)"
  "faults_in mem_faults (deserial_req_signal p)"
  "faults_in mem_faults (deserial_req_list p)"
  "faults_in mem_faults (deserial_req_status p)"
  "faults_in mem_faults (deserial_req_subscribe p)"
  "faults_in mem_faults (deserial_req_unsub p)"
  "faults_in mem_faults (deserial_req_disconnect p)"
  "faults_in mem_faults (upk_deserialize_repl_preamble p)"
  "faults_in mem_faults (deserial_repl_seq_start p)"
  "faults_in mem_faults (deserial_repl_seq_end p)"
  "faults_in mem_faults (deserial_repl_result p)"
  "faults_in mem_faults (deserial_repl_listing p)"
  "faults_in mem_faults (deserial_repl_svcinfo p)"
  "faults_in mem_faults (deserial_repl_ack p)"
  "faults_in mem_faults (deserial_repl_err p)"
  "faults_in mem_faults (deserial_pub_pub p)"
  "faults_in mem_faults (deserial_pub_cancel p)"
  unfolding upk_deserialize_req_preamble_def
    deserial_req_seq_start_def
    deserial_req_seq_end_def
    deserial_req_action_def
    deserial_req_signal_def
    deserial_req_list_def
    deserial_req_status_def
    deserial_req_subscribe_def
    deserial_req_unsub_def
    deserial_req_disconnect_def
    upk_deserialize_repl_preamble_def
    deserial_repl_seq_start_def
    deserial_repl_seq_end_def
    deserial_repl_result_def
    deserial_repl_listing_def
    deserial_repl_svcinfo_def
    deserial_repl_ack_def
    deserial_repl_err_def
    deserial_pub_pub_def
    deserial_pub_cancel_def
  by (intro faults_in_bind_pair faults_in_bind deserial_svcinfo_data_faults fetch_faults
      faults_in_simps)+

lemma cast_result_faults:
  "faults_in mem_faults (deserial p) \<Longrightarrow> faults_in mem_faults (cast_result C deserial p)"
  unfolding cast_result_def by (intro faults_in_bind faults_in_simps)

lemma dispatch_faults:
  "f \<in> set deserial_req_dispatch \<union> set deserial_repl_dispatch \<union> set deserial_pub_dispatch \<Longrightarrow>
     faults_in mem_faults (f p)"
  by (auto simp: deserial_req_dispatch_def deserial_repl_dispatch_def deserial_pub_dispatch_def
      intro!: cast_result_faults deserial_faults simp del: insert_iff)

text \<open>The message types with an entry in the table of a packet type.\<close>

definition valid_msgtype :: "u32 \<Rightarrow> u32 \<Rightarrow> bool" where
  "valid_msgtype pkttype t \<longleftrightarrow>
     (pkttype = PKT_REQUEST \<and> UPK_REQ_ORIGIN \<le> t \<and> t < UPK_REQ_V0_PROTO_LIMIT) \<or>
     (pkttype = PKT_REPLY \<and> UPK_REPL_ORIGIN \<le> t \<and> t < UPK_REPL_V0_PROTO_LIMIT) \<or>
     (pkttype = PKT_PUBMSG \<and> UPK_PUB_ORIGIN \<le> t \<and> t < UPK_PUB_V0_PROTO_LIMIT)"

text \<open>The unsigned subtraction and comparison of the assertion are the range test.\<close>

lemma unsigned_range: "unat (t - a) < n \<longleftrightarrow> unat a \<le> unat t \<and> unat t < unat a + n"
  if "unat a + n \<le> 2 ^ 32" for t a :: u32
  using that by (auto simp: unat_sub_if' split: if_splits)

lemma dispatch_lengths:
  "length deserial_req_dispatch = 10" "length deserial_repl_dispatch = 8"
  "length deserial_pub_dispatch = 2"
  by (simp_all add: deserial_req_dispatch_def deserial_repl_dispatch_def deserial_pub_dispatch_def)

lemma valid_msgtype_index:
  "valid_msgtype PKT_REQUEST t \<longleftrightarrow> unat (t - UPK_REQ_ORIGIN) < length deserial_req_dispatch"
  "valid_msgtype PKT_REPLY t \<longleftrightarrow> unat (t - UPK_REPL_ORIGIN) < length deserial_repl_dispatch"
  "valid_msgtype PKT_PUBMSG t \<longleftrightarrow> unat (t - UPK_PUB_ORIGIN) < length deserial_pub_dispatch"
  by (simp_all add: valid_msgtype_def dispatch_lengths unsigned_range msgtypes word_le_nat_alt
      word_less_nat_alt)

lemma fetch_enum_take: "4 \<le> length p \<Longrightarrow> fetch_enum p = Inr (of_be32 (take 4 p), drop 4 p)"
  by (simp add: fetch_enum_def fetch_uint32_def fetch_bytes_def)

lemma payload_verdict:
  assumes "4 \<le> length p" and "t \<in> {PKT_REQUEST, PKT_REPLY, PKT_PUBMSG}"
  shows "if valid_msgtype t (of_be32 (take 4 p)) then faults_in mem_faults (v0_deserialize_payload p t)
    else v0_deserialize_payload p t = Inl Abort"
proof -
  have "faults_in mem_faults (f p)"
    if "f \<in> set deserial_req_dispatch \<or> f \<in> set deserial_repl_dispatch \<or> f \<in> set deserial_pub_dispatch"
    for f
    using that by (intro dispatch_faults) blast
  then show ?thesis
    using assms
    by (auto simp: v0_deserialize_payload_def call_entry_pkt valid_msgtype_index fetch_enum_take
        deserialize_req_payload_def deserialize_repl_payload_def deserialize_pub_payload_def
        simp del: insert_iff)
qed

lemma payload_faults:
  "if t = 0 then v0_deserialize_payload p t = Inl Null_call
   else if PKT_V0_PROTO_LIMIT \<le> t \<or> length p < 4 then v0_deserialize_payload p t = Inl Oob_read
   else if \<not> valid_msgtype t (of_be32 (take 4 p)) then v0_deserialize_payload p t = Inl Abort
   else faults_in mem_faults (v0_deserialize_payload p t)"
proof (cases "t = 0 \<or> PKT_V0_PROTO_LIMIT \<le> t")
  case True
  then show ?thesis
    by (auto simp: v0_deserialize_payload_def call_entry_def deserial_pkt_dispatch_def msgtypes
        word_le_nat_alt)
next
  case False
  then have t: "t \<in> {PKT_REQUEST, PKT_REPLY, PKT_PUBMSG}"
    by (rule pkttype_cases)
  show ?thesis
  proof (cases "length p < 4")
    case True
    then have "v0_deserialize_payload p t = Inl Oob_read"
      using t by (auto simp: v0_deserialize_payload_def call_entry_pkt fetch_enum_def
          fetch_uint32_short deserialize_req_payload_def deserialize_repl_payload_def
          deserialize_pub_payload_def)
    with True False show ?thesis by simp
  next
    case long: False
    then show ?thesis
      using payload_verdict [OF _ t, of p] False by (auto split: if_splits)
  qed
qed

section \<open>Properties\<close>

text \<open>C37: what can go wrong in the version 0 deserializer, for every buffer and packet type: packet
  type 0 calls the null entry of the table, an unknown packet type reads behind it, an unknown
  message type fails the assertion, and otherwise the only faults are reads behind the payload and
  writes behind a string member.\<close>

theorem v0_deserialize_payload_faults:
  "if t = 0 then v0_deserialize_payload p t = Inl Null_call
   else if PKT_V0_PROTO_LIMIT \<le> t \<or> length p < 4 then v0_deserialize_payload p t = Inl Oob_read
   else if \<not> valid_msgtype t (of_be32 (take 4 p)) then v0_deserialize_payload p t = Inl Abort
   else faults_in {Oob_read, Oob_write} (v0_deserialize_payload p t)"
  by (rule payload_faults)

text \<open>C39: the string length of a request is not checked: an action request that announces more than
  \<open>UPK_MAX_STRING_LEN\<close> bytes of service name is copied over the end of the array in the message,
  whatever the rest of the packet holds.\<close>

theorem action_request_overflow:
  assumes "UPK_MAX_STRING_LEN < unat len"
  shows "v0_deserialize_payload (put_enum UPK_REQ_ACTION @ put_uint32 len @ p) PKT_REQUEST =
    Inl Oob_write"
  using assms
  by (simp add: v0_deserialize_payload_def call_entry_pkt deserialize_req_entries deserial_req_action_def
      fetch_laws fetch_string_overflow)

lemma action_request_overflow_witness:
  "v0_deserialize_payload (put_enum UPK_REQ_ACTION @ put_uint32 2049 @ replicate 3000 0x41) PKT_REQUEST =
    Inl Oob_write"
  by (rule action_request_overflow) (simp add: UPK_MAX_STRING_LEN_def)

end
