(* ===== verification/Upk_Crc32.thy ===== *)
theory Upk_Crc32
  imports Upk_Prelude
begin

text \<open>
  The checksum of \<open>libupkeeper/upkeeper/upk_crc32.c\<close>: the generator of the lookup table, the
  table the source carries, the table-driven checksum and its verification.  The lemmas show that
  the literal table is the generated one, that the table-driven loop computes the bitwise division
  by the CRC polynomial, and that the checksum separates any two blocks that differ in one byte.
\<close>

section \<open>The source\<close>

text \<open>The polynomial of \<open>upk_create_crc32_table\<close> and the body of its inner loop.\<close>

definition crc_magic :: u32 where
  "crc_magic = 0xEDB88320"

definition crc_bit :: "u32 \<Rightarrow> u32" where
  "crc_bit crc = (if crc AND 1 \<noteq> 0 then drop_bit 1 crc XOR crc_magic else drop_bit 1 crc)"

text \<open>The inner loop runs \<open>j\<close> times; the outer loop starts entry \<open>i\<close> from \<open>crc = i\<close>.\<close>

fun crc_bits :: "nat \<Rightarrow> u32 \<Rightarrow> u32" where
  "crc_bits 0 crc = crc"
| "crc_bits (Suc j) crc = crc_bits j (crc_bit crc)"

definition upk_create_crc32_table :: "u32 list" where
  "upk_create_crc32_table = map (\<lambda>i. crc_bits 8 (of_nat i)) [0..<256]"

definition crc_table :: "u32 list" where
  "crc_table =
    [0x00000000, 0x77073096, 0xEE0E612C, 0x990951BA, 0x076DC419, 0x706AF48F, 0xE963A535, 0x9E6495A3,
     0x0EDB8832, 0x79DCB8A4, 0xE0D5E91E, 0x97D2D988, 0x09B64C2B, 0x7EB17CBD, 0xE7B82D07, 0x90BF1D91,
     0x1DB71064, 0x6AB020F2, 0xF3B97148, 0x84BE41DE, 0x1ADAD47D, 0x6DDDE4EB, 0xF4D4B551, 0x83D385C7,
     0x136C9856, 0x646BA8C0, 0xFD62F97A, 0x8A65C9EC, 0x14015C4F, 0x63066CD9, 0xFA0F3D63, 0x8D080DF5,
     0x3B6E20C8, 0x4C69105E, 0xD56041E4, 0xA2677172, 0x3C03E4D1, 0x4B04D447, 0xD20D85FD, 0xA50AB56B,
     0x35B5A8FA, 0x42B2986C, 0xDBBBC9D6, 0xACBCF940, 0x32D86CE3, 0x45DF5C75, 0xDCD60DCF, 0xABD13D59,
     0x26D930AC, 0x51DE003A, 0xC8D75180, 0xBFD06116, 0x21B4F4B5, 0x56B3C423, 0xCFBA9599, 0xB8BDA50F,
     0x2802B89E, 0x5F058808, 0xC60CD9B2, 0xB10BE924, 0x2F6F7C87, 0x58684C11, 0xC1611DAB, 0xB6662D3D,
     0x76DC4190, 0x01DB7106, 0x98D220BC, 0xEFD5102A, 0x71B18589, 0x06B6B51F, 0x9FBFE4A5, 0xE8B8D433,
     0x7807C9A2, 0x0F00F934, 0x9609A88E, 0xE10E9818, 0x7F6A0DBB, 0x086D3D2D, 0x91646C97, 0xE6635C01,
     0x6B6B51F4, 0x1C6C6162, 0x856530D8, 0xF262004E, 0x6C0695ED, 0x1B01A57B, 0x8208F4C1, 0xF50FC457,
     0x65B0D9C6, 0x12B7E950, 0x8BBEB8EA, 0xFCB9887C, 0x62DD1DDF, 0x15DA2D49, 0x8CD37CF3, 0xFBD44C65,
     0x4DB26158, 0x3AB551CE, 0xA3BC0074, 0xD4BB30E2, 0x4ADFA541, 0x3DD895D7, 0xA4D1C46D, 0xD3D6F4FB,
     0x4369E96A, 0x346ED9FC, 0xAD678846, 0xDA60B8D0, 0x44042D73, 0x33031DE5, 0xAA0A4C5F, 0xDD0D7CC9,
     0x5005713C, 0x270241AA, 0xBE0B1010, 0xC90C2086, 0x5768B525, 0x206F85B3, 0xB966D409, 0xCE61E49F,
     0x5EDEF90E, 0x29D9C998, 0xB0D09822, 0xC7D7A8B4, 0x59B33D17, 0x2EB40D81, 0xB7BD5C3B, 0xC0BA6CAD,
     0xEDB88320, 0x9ABFB3B6, 0x03B6E20C, 0x74B1D29A, 0xEAD54739, 0x9DD277AF, 0x04DB2615, 0x73DC1683,
     0xE3630B12, 0x94643B84, 0x0D6D6A3E, 0x7A6A5AA8, 0xE40ECF0B, 0x9309FF9D, 0x0A00AE27, 0x7D079EB1,
     0xF00F9344, 0x8708A3D2, 0x1E01F268, 0x6906C2FE, 0xF762575D, 0x806567CB, 0x196C3671, 0x6E6B06E7,
     0xFED41B76, 0x89D32BE0, 0x10DA7A5A, 0x67DD4ACC, 0xF9B9DF6F, 0x8EBEEFF9, 0x17B7BE43, 0x60B08ED5,
     0xD6D6A3E8, 0xA1D1937E, 0x38D8C2C4, 0x4FDFF252, 0xD1BB67F1, 0xA6BC5767, 0x3FB506DD, 0x48B2364B,
     0xD80D2BDA, 0xAF0A1B4C, 0x36034AF6, 0x41047A60, 0xDF60EFC3, 0xA867DF55, 0x316E8EEF, 0x4669BE79,
     0xCB61B38C, 0xBC66831A, 0x256FD2A0, 0x5268E236, 0xCC0C7795, 0xBB0B4703, 0x220216B9, 0x5505262F,
     0xC5BA3BBE, 0xB2BD0B28, 0x2BB45A92, 0x5CB36A04, 0xC2D7FFA7, 0xB5D0CF31, 0x2CD99E8B, 0x5BDEAE1D,
     0x9B64C2B0, 0xEC63F226, 0x756AA39C, 0x026D930A, 0x9C0906A9, 0xEB0E363F, 0x72076785, 0x05005713,
     0x95BF4A82, 0xE2B87A14, 0x7BB12BAE, 0x0CB61B38, 0x92D28E9B, 0xE5D5BE0D, 0x7CDCEFB7, 0x0BDBDF21,
     0x86D3D2D4, 0xF1D4E242, 0x68DDB3F8, 0x1FDA836E, 0x81BE16CD, 0xF6B9265B, 0x6FB077E1, 0x18B74777,
     0x88085AE6, 0xFF0F6A70, 0x66063BCA, 0x11010B5C, 0x8F659EFF, 0xF862AE69, 0x616BFFD3, 0x166CCF45,
     0xA00AE278, 0xD70DD2EE, 0x4E048354, 0x3903B3C2, 0xA7672661, 0xD06016F7, 0x4969474D, 0x3E6E77DB,
     0xAED16A4A, 0xD9D65ADC, 0x40DF0B66, 0x37D83BF0, 0xA9BCAE53, 0xDEBB9EC5, 0x47B2CF7F, 0x30B5FFE9,
     0xBDBDF21C, 0xCABAC28A, 0x53B39330, 0x24B4A3A6, 0xBAD03605, 0xCDD70693, 0x54DE5729, 0x23D967BF,
     0xB3667A2E, 0xC4614AB8, 0x5D681B02, 0x2A6F2B94, 0xB40BBE37, 0xC30C8EA1, 0x5A05DF1B, 0x2D02EF8D]"

text \<open>One turn of the loop of \<open>upk_crc32\<close>, and the loop over the block.\<close>

definition crc_step :: "u32 \<Rightarrow> u8 \<Rightarrow> u32" where
  "crc_step crc b =
     (drop_bit 8 crc AND 0x00FFFFFF) XOR crc_table ! unat ((crc XOR ucast b) AND 0xFF)"

text \<open>The block is the list of its \<open>len\<close> bytes; a shorter block is read past its end.\<close>

definition upk_crc32 :: "bytes \<Rightarrow> u32 \<Rightarrow> u32 cres" where
  "upk_crc32 block len =
     (if length block < unat len then Inl Oob_read
      else Inr (foldl crc_step 0 (take (unat len) block) XOR 0xFFFFFFFF))"

definition upk_verify_crc32 :: "bytes \<Rightarrow> u32 \<Rightarrow> u32 \<Rightarrow> bool cres" where
  "upk_verify_crc32 block crc32 len = bind_c (upk_crc32 block len) (\<lambda>c. Inr (c = crc32))"

section \<open>The table\<close>

lemma crc_table_length [simp]: "length crc_table = 256"
  by (simp add: crc_table_def)

text \<open>The generated entries, in sixteen groups of sixteen.\<close>

lemma crc_bits_8:
  "crc_bits 8 x = crc_bit (crc_bit (crc_bit (crc_bit (crc_bit (crc_bit (crc_bit (crc_bit x)))))))"
  by (simp add: numeral_eq_Suc)

lemmas crc_eval =
  crc_bits_8 [of 0] crc_bits_8 [of 1] crc_bits_8 [of "numeral k" for k] crc_bit_def crc_magic_def

lemma upt_0_16: "[0..<16] = [0, 1, 2, 3, 4, 5, 6, 7, 8, 9, 10, 11, 12, 13, 14, 15]"
  by (simp add: upt_rec)

lemma crc_group_0:
  "map (\<lambda>i. crc_bits 8 (of_nat i)) [0..<16] =
     [0x00000000, 0x77073096, 0xEE0E612C, 0x990951BA, 0x076DC419, 0x706AF48F, 0xE963A535, 0x9E6495A3,
      0x0EDB8832, 0x79DCB8A4, 0xE0D5E91E, 0x97D2D988, 0x09B64C2B, 0x7EB17CBD, 0xE7B82D07, 0x90BF1D91]"
  by (simp add: upt_0_16 crc_eval)

lemma crc_group_1:
  "map (\<lambda>i. crc_bits 8 (of_nat i)) [16..<32] =
     [0x1DB71064, 0x6AB020F2, 0xF3B97148, 0x84BE41DE, 0x1ADAD47D, 0x6DDDE4EB, 0xF4D4B551, 0x83D385C7,
      0x136C9856, 0x646BA8C0, 0xFD62F97A, 0x8A65C9EC, 0x14015C4F, 0x63066CD9, 0xFA0F3D63, 0x8D080DF5]"
  by (simp add: crc_eval)

lemma crc_group_2:
  "map (\<lambda>i. crc_bits 8 (of_nat i)) [32..<48] =
     [0x3B6E20C8, 0x4C69105E, 0xD56041E4, 0xA2677172, 0x3C03E4D1, 0x4B04D447, 0xD20D85FD, 0xA50AB56B,
      0x35B5A8FA, 0x42B2986C, 0xDBBBC9D6, 0xACBCF940, 0x32D86CE3, 0x45DF5C75, 0xDCD60DCF, 0xABD13D59]"
  by (simp add: crc_eval)

lemma crc_group_3:
  "map (\<lambda>i. crc_bits 8 (of_nat i)) [48..<64] =
     [0x26D930AC, 0x51DE003A, 0xC8D75180, 0xBFD06116, 0x21B4F4B5, 0x56B3C423, 0xCFBA9599, 0xB8BDA50F,
      0x2802B89E, 0x5F058808, 0xC60CD9B2, 0xB10BE924, 0x2F6F7C87, 0x58684C11, 0xC1611DAB, 0xB6662D3D]"
  by (simp add: crc_eval)

lemma crc_group_4:
  "map (\<lambda>i. crc_bits 8 (of_nat i)) [64..<80] =
     [0x76DC4190, 0x01DB7106, 0x98D220BC, 0xEFD5102A, 0x71B18589, 0x06B6B51F, 0x9FBFE4A5, 0xE8B8D433,
      0x7807C9A2, 0x0F00F934, 0x9609A88E, 0xE10E9818, 0x7F6A0DBB, 0x086D3D2D, 0x91646C97, 0xE6635C01]"
  by (simp add: crc_eval)

lemma crc_group_5:
  "map (\<lambda>i. crc_bits 8 (of_nat i)) [80..<96] =
     [0x6B6B51F4, 0x1C6C6162, 0x856530D8, 0xF262004E, 0x6C0695ED, 0x1B01A57B, 0x8208F4C1, 0xF50FC457,
      0x65B0D9C6, 0x12B7E950, 0x8BBEB8EA, 0xFCB9887C, 0x62DD1DDF, 0x15DA2D49, 0x8CD37CF3, 0xFBD44C65]"
  by (simp add: crc_eval)

lemma crc_group_6:
  "map (\<lambda>i. crc_bits 8 (of_nat i)) [96..<112] =
     [0x4DB26158, 0x3AB551CE, 0xA3BC0074, 0xD4BB30E2, 0x4ADFA541, 0x3DD895D7, 0xA4D1C46D, 0xD3D6F4FB,
      0x4369E96A, 0x346ED9FC, 0xAD678846, 0xDA60B8D0, 0x44042D73, 0x33031DE5, 0xAA0A4C5F, 0xDD0D7CC9]"
  by (simp add: crc_eval)

lemma crc_group_7:
  "map (\<lambda>i. crc_bits 8 (of_nat i)) [112..<128] =
     [0x5005713C, 0x270241AA, 0xBE0B1010, 0xC90C2086, 0x5768B525, 0x206F85B3, 0xB966D409, 0xCE61E49F,
      0x5EDEF90E, 0x29D9C998, 0xB0D09822, 0xC7D7A8B4, 0x59B33D17, 0x2EB40D81, 0xB7BD5C3B, 0xC0BA6CAD]"
  by (simp add: crc_eval)

lemma crc_group_8:
  "map (\<lambda>i. crc_bits 8 (of_nat i)) [128..<144] =
     [0xEDB88320, 0x9ABFB3B6, 0x03B6E20C, 0x74B1D29A, 0xEAD54739, 0x9DD277AF, 0x04DB2615, 0x73DC1683,
      0xE3630B12, 0x94643B84, 0x0D6D6A3E, 0x7A6A5AA8, 0xE40ECF0B, 0x9309FF9D, 0x0A00AE27, 0x7D079EB1]"
  by (simp add: crc_eval)

lemma crc_group_9:
  "map (\<lambda>i. crc_bits 8 (of_nat i)) [144..<160] =
     [0xF00F9344, 0x8708A3D2, 0x1E01F268, 0x6906C2FE, 0xF762575D, 0x806567CB, 0x196C3671, 0x6E6B06E7,
      0xFED41B76, 0x89D32BE0, 0x10DA7A5A, 0x67DD4ACC, 0xF9B9DF6F, 0x8EBEEFF9, 0x17B7BE43, 0x60B08ED5]"
  by (simp add: crc_eval)

lemma crc_group_10:
  "map (\<lambda>i. crc_bits 8 (of_nat i)) [160..<176] =
     [0xD6D6A3E8, 0xA1D1937E, 0x38D8C2C4, 0x4FDFF252, 0xD1BB67F1, 0xA6BC5767, 0x3FB506DD, 0x48B2364B,
      0xD80D2BDA, 0xAF0A1B4C, 0x36034AF6, 0x41047A60, 0xDF60EFC3, 0xA867DF55, 0x316E8EEF, 0x4669BE79]"
  by (simp add: crc_eval)

lemma crc_group_11:
  "map (\<lambda>i. crc_bits 8 (of_nat i)) [176..<192] =
     [0xCB61B38C, 0xBC66831A, 0x256FD2A0, 0x5268E236, 0xCC0C7795, 0xBB0B4703, 0x220216B9, 0x5505262F,
      0xC5BA3BBE, 0xB2BD0B28, 0x2BB45A92, 0x5CB36A04, 0xC2D7FFA7, 0xB5D0CF31, 0x2CD99E8B, 0x5BDEAE1D]"
  by (simp add: crc_eval)

lemma crc_group_12:
  "map (\<lambda>i. crc_bits 8 (of_nat i)) [192..<208] =
     [0x9B64C2B0, 0xEC63F226, 0x756AA39C, 0x026D930A, 0x9C0906A9, 0xEB0E363F, 0x72076785, 0x05005713,
      0x95BF4A82, 0xE2B87A14, 0x7BB12BAE, 0x0CB61B38, 0x92D28E9B, 0xE5D5BE0D, 0x7CDCEFB7, 0x0BDBDF21]"
  by (simp add: crc_eval)

lemma crc_group_13:
  "map (\<lambda>i. crc_bits 8 (of_nat i)) [208..<224] =
     [0x86D3D2D4, 0xF1D4E242, 0x68DDB3F8, 0x1FDA836E, 0x81BE16CD, 0xF6B9265B, 0x6FB077E1, 0x18B74777,
      0x88085AE6, 0xFF0F6A70, 0x66063BCA, 0x11010B5C, 0x8F659EFF, 0xF862AE69, 0x616BFFD3, 0x166CCF45]"
  by (simp add: crc_eval)

lemma crc_group_14:
  "map (\<lambda>i. crc_bits 8 (of_nat i)) [224..<240] =
     [0xA00AE278, 0xD70DD2EE, 0x4E048354, 0x3903B3C2, 0xA7672661, 0xD06016F7, 0x4969474D, 0x3E6E77DB,
      0xAED16A4A, 0xD9D65ADC, 0x40DF0B66, 0x37D83BF0, 0xA9BCAE53, 0xDEBB9EC5, 0x47B2CF7F, 0x30B5FFE9]"
  by (simp add: crc_eval)

lemma crc_group_15:
  "map (\<lambda>i. crc_bits 8 (of_nat i)) [240..<256] =
     [0xBDBDF21C, 0xCABAC28A, 0x53B39330, 0x24B4A3A6, 0xBAD03605, 0xCDD70693, 0x54DE5729, 0x23D967BF,
      0xB3667A2E, 0xC4614AB8, 0x5D681B02, 0x2A6F2B94, 0xB40BBE37, 0xC30C8EA1, 0x5A05DF1B, 0x2D02EF8D]"
  by (simp add: crc_eval)

lemmas crc_groups =
  crc_group_0 crc_group_1 crc_group_2 crc_group_3 crc_group_4 crc_group_5 crc_group_6 crc_group_7
  crc_group_8 crc_group_9 crc_group_10 crc_group_11 crc_group_12 crc_group_13 crc_group_14 crc_group_15

lemma upt_256: "[0..<256] =
      [0..<16] @ [16..<32] @ [32..<48] @ [48..<64] @ [64..<80] @ [80..<96] @
      [96..<112] @ [112..<128] @ [128..<144] @ [144..<160] @ [160..<176] @ [176..<192]
      @ [192..<208] @ [208..<224] @ [224..<240] @ [240..<256]"
  by (simp only: upt_split le0 numeral_le_iff semiring_norm order_refl)

lemma crc_table_generated: "upk_create_crc32_table = crc_table"
  by (simp only: upk_create_crc32_table_def upt_256 map_append crc_groups crc_table_def append.simps)

lemma crc_table_nth: "n < 256 \<Longrightarrow> crc_table ! n = crc_bits 8 (of_nat n)"
  by (simp add: crc_table_generated [symmetric] upk_create_crc32_table_def)

section \<open>The loop as polynomial division\<close>

text \<open>The bitwise algorithm: a byte is added to the remainder and eight bits are divided out.\<close>

definition crc_byte :: "u32 \<Rightarrow> u8 \<Rightarrow> u32" where
  "crc_byte crc b = crc_bits 8 (crc XOR ucast b)"

lemma and_1_nonzero: "(x :: u32) AND 1 \<noteq> 0 \<longleftrightarrow> bit x 0"
  by (simp add: and_one_eq odd_iff_mod_2_eq_one bit_0)

lemma crc_bit_if: "crc_bit x = (if bit x 0 then drop_bit 1 x XOR crc_magic else drop_bit 1 x)"
  by (simp only: crc_bit_def and_1_nonzero)

lemma crc_bit_xor: "crc_bit (x XOR y) = crc_bit x XOR crc_bit y"
proof -
  have "drop_bit 1 (x XOR y) = drop_bit 1 x XOR drop_bit 1 y"
    by (rule bit_word_eqI) (simp add: bit_simps)
  then show ?thesis
    by (simp add: crc_bit_if bit_simps xor.left_commute xor.commute xor.assoc)
qed

lemma crc_bits_xor: "crc_bits n (x XOR y) = crc_bits n x XOR crc_bits n y"
  by (induction n arbitrary: x y) (simp_all add: crc_bit_xor)

lemma crc_bits_high: "take_bit n x = 0 \<Longrightarrow> crc_bits n x = drop_bit n x"
proof (induction n arbitrary: x)
  case (Suc n)
  have b: "\<not> bit x k" if "k < Suc n" for k
    using Suc.prems that by (metis bit_0_eq bit_take_bit_iff bot_apply bot_bool_def)
  then have "crc_bit x = drop_bit 1 x"
    by (simp add: crc_bit_if)
  moreover have "take_bit n (drop_bit 1 x) = 0"
    using b by (intro bit_word_eqI) (auto simp: bit_simps)
  ultimately show ?case
    using Suc.IH by (simp add: add.commute)
qed simp

lemma crc_step_byte: "crc_step crc b = crc_byte crc b"
proof -
  define low high where "low = (crc XOR ucast b) AND 0xFF"
    and "high = crc AND NOT 0xFF"
  have mask: "(0xFF :: u32) = mask 8" "(0x00FFFFFF :: u32) = mask 24"
    by (simp_all add: mask_eq_exp_minus_1)
  have "crc XOR ucast b = high XOR low"
    unfolding low_def high_def mask by (rule bit_word_eqI) (auto simp: bit_simps not_bit_u8)
  moreover have "take_bit 8 high = 0"
    unfolding high_def mask by (rule bit_word_eqI) (auto simp: bit_simps)
  moreover have "drop_bit 8 high = drop_bit 8 crc AND 0x00FFFFFF"
    unfolding high_def mask by (rule bit_word_eqI) (auto simp: bit_simps dest: bit_imp_le_length)
  moreover have "unat low < 256"
    unfolding low_def mask by (simp add: and_mask_lt_256)
  ultimately have "crc_byte crc b = drop_bit 8 crc AND 0x00FFFFFF XOR crc_table ! unat low"
    by (simp only: crc_byte_def crc_bits_xor crc_bits_high crc_table_nth of_nat_unat ucast_id)
  then show ?thesis
    by (simp only: crc_step_def low_def)
qed

lemma foldl_crc_step: "foldl crc_step = foldl crc_byte"
  by (simp add: crc_step_byte [abs_def] fun_eq_iff)

section \<open>Error detection\<close>

text \<open>Dividing out one bit is injective, because the top bit of the polynomial is set.\<close>

lemma crc_bit_inject: "crc_bit x = crc_bit y \<longleftrightarrow> x = y"
proof
  assume eq: "crc_bit x = crc_bit y"
  have top: "bit (crc_bit z) 31 = bit z 0" for z
    by (auto simp: crc_bit_if bit_simps crc_magic_def dest: bit_imp_le_length)
  have "bit x 0 = bit y 0"
    using top [of x] top [of y] eq by simp
  moreover from this eq have "drop_bit 1 x = drop_bit 1 y"
    by (auto simp: crc_bit_if simp del: One_nat_def split: if_splits)
  then have "bit x (Suc k) = bit y (Suc k)" for k
    by (metis bit_drop_bit_eq comp_apply plus_1_eq_Suc)
  ultimately show "x = y"
    by (metis bit_eqI old.nat.exhaust)
qed simp

lemma crc_bits_inject: "crc_bits n x = crc_bits n y \<longleftrightarrow> x = y"
  by (induction n arbitrary: x y) (simp_all add: crc_bit_inject)

lemma crc_bits_add: "crc_bits n (crc_bits m x) = crc_bits (m + n) x"
  by (induction m arbitrary: x) simp_all

lemma foldl_crc_byte_inject: "foldl crc_byte c xs = foldl crc_byte d xs \<longleftrightarrow> c = d"
proof (induction xs arbitrary: c d)
  case (Cons b xs)
  have "crc_byte c b = crc_byte d b \<longleftrightarrow> c = d"
    by (simp add: crc_byte_def crc_bits_inject)
  with Cons.IH show ?case by simp
qed simp

text \<open>The little-endian word of up to four bytes; they are divided out at once.\<close>

fun of_le :: "bytes \<Rightarrow> u32" where
  "of_le [] = 0"
| "of_le (b # bs) = ucast b XOR push_bit 8 (of_le bs)"

lemma bit_of_le: "bit (of_le bs) k \<Longrightarrow> k < 8 * length bs"
proof (induction bs arbitrary: k)
  case (Cons b bs)
  show ?case
    using Cons.prems Cons.IH [of "k - 8"]
    by (cases "k < 8") (auto simp: bit_push_ucast_u8 bit_xor_iff bit_push_bit_iff)
qed simp

lemma foldl_crc_byte_le:
  "length bs \<le> 4 \<Longrightarrow> foldl crc_byte c bs = crc_bits (8 * length bs) (c XOR of_le bs)"
proof (induction bs arbitrary: c)
  case (Cons b bs)
  have "take_bit 8 (push_bit 8 (of_le bs)) = 0"
    by (rule bit_word_eqI) (auto simp: bit_simps)
  moreover have "drop_bit 8 (push_bit 8 (of_le bs)) = of_le bs"
    using Cons.prems
    by (intro bit_word_eqI) (auto simp: bit_simps dest: bit_of_le)
  ultimately have "crc_byte c b XOR of_le bs = crc_bits 8 (c XOR of_le (b # bs))"
    by (simp add: crc_byte_def crc_bits_xor crc_bits_high xor.assoc)
  then show ?case
    using Cons.prems by (simp add: Cons.IH crc_bits_add)
qed simp

lemma of_le_inject:
  "length xs = length ys \<Longrightarrow> length xs \<le> 4 \<Longrightarrow> of_le xs = of_le ys \<Longrightarrow> xs = ys"
proof (induction xs ys rule: list_induct2)
  case (Cons x xs y ys)
  have bit: "bit (of_le (a # as)) k \<longleftrightarrow> (if k < 8 then bit a k else k < 32 \<and> bit (of_le as) (k - 8))"
    for a as k
    by (auto simp: bit_push_ucast_u8 bit_xor_iff bit_push_bit_iff dest: bit_imp_le_length)
  have "bit x k = bit y k" for k
    using bit [of x xs k] bit [of y ys k] Cons.prems(2) not_bit_u8 [of k x] not_bit_u8 [of k y]
    by (cases "k < 8") auto
  then have "x = y"
    by (simp add: bit_eq_iff)
  moreover have "bit (of_le xs) k = bit (of_le ys) k" for k
    using bit [of x xs "k + 8"] bit [of y ys "k + 8"] Cons.hyps Cons.prems
      bit_of_le [of xs k] bit_of_le [of ys k]
    by (cases "k < 24") auto
  then have "of_le xs = of_le ys"
    by (simp add: bit_eq_iff)
  then have "xs = ys"
    using Cons.prems Cons.IH by simp
  ultimately show ?case by simp
qed simp

lemma foldl_crc_byte_burst:
  assumes "length xs = length ys" and "length xs \<le> 4"
    and "foldl crc_byte c (pre @ xs @ post) = foldl crc_byte c (pre @ ys @ post)"
  shows "xs = ys"
proof -
  let ?c = "foldl crc_byte c pre"
  have "foldl crc_byte ?c xs = foldl crc_byte ?c ys"
    using assms(3) by (simp add: foldl_crc_byte_inject)
  then have "?c XOR of_le xs = ?c XOR of_le ys"
    using assms(1,2) by (simp add: foldl_crc_byte_le crc_bits_inject)
  then have "of_le xs = of_le ys"
    by simp
  with assms(1,2) show ?thesis by (rule of_le_inject)
qed

lemma verify_burst:
  assumes "upk_verify_crc32 (pre @ xs @ post) crc len = Inr True"
    and "unat len = length (pre @ xs @ post)"
    and "length ys = length xs" and "length xs \<le> 4" and "ys \<noteq> xs"
  shows "upk_verify_crc32 (pre @ ys @ post) crc len = Inr False"
proof -
  have "foldl crc_byte 0 (pre @ xs @ post) \<noteq> foldl crc_byte 0 (pre @ ys @ post)"
    using foldl_crc_byte_burst [of xs ys 0 pre post] assms(3-5) by metis
  then show ?thesis
    using assms(1-3) by (auto simp: upk_verify_crc32_def upk_crc32_def foldl_crc_step)
qed

section \<open>Properties\<close>

text \<open>C38: the table the source carries and its byte-wise loop compute the bit-wise division by the
  polynomial: the checksum of a block that is long enough is the remainder that dividing out its
  bytes one bit at a time leaves, complemented.\<close>

theorem upk_crc32_bitwise:
  "upk_crc32 block len =
     (if length block < unat len then Inl Oob_read
      else Inr (NOT (foldl (\<lambda>crc b. crc_bits 8 (crc XOR ucast b)) 0 (take (unat len) block))))"
proof -
  have "x XOR 0xFFFFFFFF = NOT x" for x :: u32
  proof -
    have "(0xFFFFFFFF :: u32) = - 1" by simp
    then show ?thesis by (simp only: bit.xor_one_right)
  qed
  then show ?thesis
    by (simp add: upk_crc32_def foldl_crc_step crc_byte_def [abs_def])
qed

end
