(* ===== verification/Upk_Packet.thy ===== *)
theory Upk_Packet
  imports Upk_Serializer Upk_Crc32
begin

text \<open>
  \<open>libupkeeper/upkeeper/upk_protocol_serializer.c\<close>: packets.  A packet is a header of four words, the
  payload and a checksum.  The version switches choose the payload serializers; there is one version.

  The lemmas follow a packet through the serializer and back, and say which packets the deserializer
  refuses and what it returns then.
\<close>

section \<open>Constants\<close>

definition UPK_MAX_PACKET_SIZE :: nat where "UPK_MAX_PACKET_SIZE = 65536"
definition UPK_PACKET_HEADER_LEN :: nat where "UPK_PACKET_HEADER_LEN = 16"
definition UPK_PACKET_FOOTER_LEN :: nat where "UPK_PACKET_FOOTER_LEN = 4"
definition UPK_MIN_SUPPORTED_PROTO :: u32 where "UPK_MIN_SUPPORTED_PROTO = 0"
definition UPK_MAX_SUPPORTED_PROTO :: u32 where "UPK_MAX_SUPPORTED_PROTO = 0"

text \<open>The arrays indexed by protocol version.\<close>

definition upk_pkt_proto_limit :: "u32 list" where "upk_pkt_proto_limit = [PKT_V0_PROTO_LIMIT]"

text \<open>\<open>sizeof(upk_packet_t)\<close> and \<open>sizeof(void *)\<close> with 64-bit pointers.\<close>

definition sizeof_upk_packet :: nat where "sizeof_upk_packet = 32"
definition sizeof_ptr :: nat where "sizeof_ptr = 8"

section \<open>Serializer\<close>

text \<open>\<open>None\<close> is the null pointer of an unsupported version.\<close>

definition upk_serialize_payload :: "upk_packet \<Rightarrow> bytes option cres" where
  "upk_serialize_payload pkt =
     (if pkt_version_id pkt = 0 then bind_c (v0_serialize_payload pkt) (\<lambda>b. Inr (Some b))
      else Inr None)"

text \<open>Reading no byte through the null pointer is harmless, reading one is not.\<close>

definition read_buf :: "bytes option \<Rightarrow> u32 \<Rightarrow> bytes cres" where
  "read_buf b len =
     (case b of Some b \<Rightarrow> Inr b | None \<Rightarrow> if len = 0 then Inr [] else Inl Null_deref)"

text \<open>The checksum is stored in the packet on the way.  The buffer is sized by the C structure, which
  is longer than what is written to it.\<close>

definition upk_serialize_packet :: "upk_packet \<Rightarrow> (upk_packet \<times> bytes) cres" where
  "upk_serialize_packet pkt =
     bind_c (upk_serialize_payload pkt) (\<lambda>payload_ptr.
     bind_c (read_buf payload_ptr (pkt_payload_len pkt)) (\<lambda>payload_buf.
     bind_c (upk_crc32 payload_buf (pkt_payload_len pkt)) (\<lambda>crc.
     let pkt = pkt\<lparr>pkt_crc32 := crc\<rparr> in
     bind_c (put_all (sizeof_upk_packet + unat (pkt_payload_len pkt) - sizeof_ptr) []
       (map Inr [put_uint32 (pkt_payload_len pkt), put_uint32 (pkt_version_id pkt),
          put_uint32 (pkt_seq_num pkt), put_enum (pkt_pkttype pkt)] @
        put_data_from_buf payload_buf (pkt_payload_len pkt) #
        map Inr [put_uint32 (pkt_crc32 pkt)])) (\<lambda>buf.
     Inr (pkt, buf)))))"

section \<open>Deserializer\<close>

definition upk_deserialize_payload :: "bytes \<Rightarrow> u32 \<Rightarrow> u32 \<Rightarrow> upk_payload option cres" where
  "upk_deserialize_payload p pkttype version_id =
     (if version_id = 0 then bind_c (v0_deserialize_payload p pkttype) (\<lambda>d. Inr (Some d))
      else Inr None)"

text \<open>What the returned pointer points to: a packet, or a packet that was freed before the return.\<close>

datatype pkt_ptr = Pkt_null | Pkt_live upk_packet | Pkt_freed

text \<open>The failing assertion, with the error number it leaves in \<open>__upk_errno_type\<close>.\<close>

datatype upk_errno = UPK_ERR_NONE | UPK_ERR_UNSUP | UPK_ERR_INVALID_PKT

text \<open>\<open>UPK_FUNC_ASSERT\<close> jumps to the error label, which frees the packet and falls through to the
  return of the pointer.\<close>

definition upk_func_assert ::
    "bool \<Rightarrow> upk_errno \<Rightarrow> (pkt_ptr \<times> upk_errno) cres \<Rightarrow> (pkt_ptr \<times> upk_errno) cres" where
  "upk_func_assert a e rest = (if a then rest else Inr (Pkt_freed, e))"

definition upk_deserialize_packet :: "bytes \<Rightarrow> (pkt_ptr \<times> upk_errno) cres" where
  "upk_deserialize_packet p =
     bind_c (fetch_uint32 p) (\<lambda>(payload_len, p).
     upk_func_assert (unat payload_len \<le> UPK_MAX_PACKET_SIZE) UPK_ERR_INVALID_PKT (
     bind_c (fetch_uint32 p) (\<lambda>(version_id, p).
     upk_func_assert
       (UPK_MIN_SUPPORTED_PROTO \<le> version_id \<and> version_id \<le> UPK_MAX_SUPPORTED_PROTO) UPK_ERR_UNSUP (
     bind_c (fetch_uint32 p) (\<lambda>(seq_num, p).
     bind_c (fetch_enum p) (\<lambda>(pkttype, p).
     upk_func_assert (pkttype < upk_pkt_proto_limit ! unat version_id) UPK_ERR_INVALID_PKT (
     bind_c (fetch_data_to_buf payload_len p) (\<lambda>(payload_buf, p).
     bind_c (fetch_uint32 p) (\<lambda>(crc32, p).
     bind_c (upk_verify_crc32 payload_buf crc32 payload_len) (\<lambda>valid.
     upk_func_assert valid UPK_ERR_INVALID_PKT (
     bind_c (upk_deserialize_payload payload_buf pkttype version_id) (\<lambda>payload.
       Inr (Pkt_live \<lparr>pkt_payload_len = payload_len, pkt_version_id = version_id,
              pkt_seq_num = seq_num, pkt_pkttype = pkttype, pkt_payload = payload,
              pkt_crc32 = crc32\<rparr>, UPK_ERR_NONE)))))))))))))"

section \<open>The packet on the wire\<close>

lemmas packet_consts =
  UPK_MIN_SUPPORTED_PROTO_def UPK_MAX_SUPPORTED_PROTO_def upk_pkt_proto_limit_def
  sizeof_upk_packet_def sizeof_ptr_def UPK_PACKET_HEADER_LEN_def UPK_PACKET_FOOTER_LEN_def

text \<open>The header as the serializer writes it.\<close>

definition packet_header :: "upk_packet \<Rightarrow> bytes" where
  "packet_header pkt =
     put_uint32 (pkt_payload_len pkt) @ put_uint32 (pkt_version_id pkt) @
     put_uint32 (pkt_seq_num pkt) @ put_enum (pkt_pkttype pkt)"

lemma length_packet_header [simp]: "length (packet_header pkt) = UPK_PACKET_HEADER_LEN"
  by (simp add: packet_header_def packet_consts)

definition wf_packet :: "upk_packet \<Rightarrow> bool" where
  "wf_packet pkt \<longleftrightarrow>
     pkt_version_id pkt = 0 \<and> unat (pkt_payload_len pkt) \<le> UPK_MAX_PACKET_SIZE \<and>
     (case pkt_payload pkt of None \<Rightarrow> False
      | Some d \<Rightarrow> wf_payload d \<and> pkt_pkttype pkt = fst (payload_kind d) \<and>
          payload_wire_len d \<le> unat (pkt_payload_len pkt))"

text \<open>Parsing a header.\<close>

lemma deserialize_header:
  "upk_deserialize_packet (packet_header pkt @ p) =
     (if \<not> unat (pkt_payload_len pkt) \<le> UPK_MAX_PACKET_SIZE then Inr (Pkt_freed, UPK_ERR_INVALID_PKT)
      else if pkt_version_id pkt \<noteq> 0 then Inr (Pkt_freed, UPK_ERR_UNSUP)
      else if \<not> pkt_pkttype pkt < PKT_V0_PROTO_LIMIT then Inr (Pkt_freed, UPK_ERR_INVALID_PKT)
      else bind_c (fetch_data_to_buf (pkt_payload_len pkt) p) (\<lambda>(payload_buf, p).
        bind_c (fetch_uint32 p) (\<lambda>(crc32, p).
        bind_c (upk_verify_crc32 payload_buf crc32 (pkt_payload_len pkt)) (\<lambda>valid.
        if valid then
          bind_c (v0_deserialize_payload payload_buf (pkt_pkttype pkt)) (\<lambda>d.
            Inr (Pkt_live (pkt\<lparr>pkt_payload := Some d, pkt_crc32 := crc32\<rparr>), UPK_ERR_NONE))
        else Inr (Pkt_freed, UPK_ERR_INVALID_PKT)))))"
proof (cases pkt)
  case (fields payload_len version_id seq_num pkttype payload crc32)
  then show ?thesis
    by (cases "version_id = 0")
       (simp_all add: upk_deserialize_packet_def packet_header_def fetch_laws
         upk_func_assert_def packet_consts upk_deserialize_payload_def bind_c_assoc
         cong: if_cong)
qed

text \<open>Every buffer of at least sixteen bytes starts with the header of some packet.\<close>

lemma header_exists:
  assumes "length h = UPK_PACKET_HEADER_LEN"
  obtains pkt where "h = packet_header pkt" and "pkt_payload pkt = None"
proof -
  let ?w = "\<lambda>i. of_be32 (take 4 (drop (4 * i) h))"
  let ?pkt = "\<lparr>pkt_payload_len = ?w 0, pkt_version_id = ?w 1, pkt_seq_num = ?w 2,
    pkt_pkttype = ?w 3, pkt_payload = None, pkt_crc32 = 0\<rparr>"
  have len: "length h = 16" using assms by (simp add: UPK_PACKET_HEADER_LEN_def)
  have "be32 (?w i) = take 4 (drop (4 * i) h)" if "i < 4" for i
    using that len by (intro be32_of_be32) simp
  from this [of 0] this [of 1] this [of 2] this [of 3] have "packet_header ?pkt =
      take 4 h @ take 4 (drop 4 h) @ take 4 (drop 8 h) @ take 4 (drop 12 h)"
    by (simp add: packet_header_def put_uint32_def put_enum_def)
  also have "\<dots> = h"
    using len by (simp add: take_add [symmetric] flip: append_assoc)
  finally show ?thesis using that [of ?pkt] by simp
qed

lemma upk_crc32_total: "unat len \<le> length b \<Longrightarrow> \<exists>c. upk_crc32 b len = Inr c"
  by (simp add: upk_crc32_def not_less)

text \<open>What the serializer writes for a well-formed packet.\<close>

lemma serialize_packet_layout:
  assumes "wf_packet pkt"
  obtains d b crc where "pkt_payload pkt = Some d"
    and "length b = unat (pkt_payload_len pkt)"
    and "v0_deserialize_payload b (pkt_pkttype pkt) = Inr d"
    and "upk_crc32 b (pkt_payload_len pkt) = Inr crc"
    and "upk_serialize_packet pkt =
      Inr (pkt\<lparr>pkt_crc32 := crc\<rparr>, packet_header pkt @ b @ put_uint32 crc @ replicate 4 0)"
proof -
  obtain d where d: "pkt_payload pkt = Some d" "wf_payload d"
    "pkt_pkttype pkt = fst (payload_kind d)" "payload_wire_len d \<le> unat (pkt_payload_len pkt)"
    and v: "pkt_version_id pkt = 0"
    using assms by (auto simp: wf_packet_def split: option.splits)
  obtain b where b: "v0_serialize_payload pkt = Inr b" "length b = unat (pkt_payload_len pkt)"
    "v0_deserialize_payload b (pkt_pkttype pkt) = Inr d"
    using payload_fits [OF d(2,1,3,4)] by blast
  obtain crc where crc: "upk_crc32 b (pkt_payload_len pkt) = Inr crc"
    using upk_crc32_total [of "pkt_payload_len pkt" b] b(2) by auto
  have "put_data_from_buf b (pkt_payload_len pkt) = Inr b"
    using b(2) by (simp add: put_data_from_buf_def put_array_def)
  then have "upk_serialize_packet pkt =
      Inr (pkt\<lparr>pkt_crc32 := crc\<rparr>, packet_header pkt @ b @ put_uint32 crc @ replicate 4 0)"
    using v b(1,2) crc
    by (simp add: upk_serialize_packet_def upk_serialize_payload_def read_buf_def Let_def
        put_all_serialize_buf serialize_buf_iff packet_header_def packet_consts del: list.map)
  with d(1) b(2,3) crc show ?thesis by (rule that)
qed

text \<open>A valid frame and its verdict.\<close>

lemma deserialize_frame:
  assumes "length b = unat (pkt_payload_len pkt)"
  shows "upk_deserialize_packet (packet_header pkt @ b @ put_uint32 crc @ p) =
     (if \<not> unat (pkt_payload_len pkt) \<le> UPK_MAX_PACKET_SIZE then Inr (Pkt_freed, UPK_ERR_INVALID_PKT)
      else if pkt_version_id pkt \<noteq> 0 then Inr (Pkt_freed, UPK_ERR_UNSUP)
      else if \<not> pkt_pkttype pkt < PKT_V0_PROTO_LIMIT then Inr (Pkt_freed, UPK_ERR_INVALID_PKT)
      else if upk_verify_crc32 b crc (pkt_payload_len pkt) = Inr True then
        bind_c (v0_deserialize_payload b (pkt_pkttype pkt)) (\<lambda>d.
          Inr (Pkt_live (pkt\<lparr>pkt_payload := Some d, pkt_crc32 := crc\<rparr>), UPK_ERR_NONE))
      else Inr (Pkt_freed, UPK_ERR_INVALID_PKT))"
proof -
  obtain v where "upk_verify_crc32 b crc (pkt_payload_len pkt) = Inr v"
    using assms(1) by (simp add: upk_verify_crc32_def upk_crc32_def)
  then show ?thesis
    using assms(1)
    by (simp add: deserialize_header fetch_data_to_buf_def fetch_bytes_append fetch_laws
        cong: if_cong)
qed

section \<open>Properties\<close>

text \<open>The frame of a well-formed packet, and what the deserializer makes of it whatever follows.\<close>

lemma packet_frame:
  assumes "wf_packet pkt"
  obtains b crc where "length b = unat (pkt_payload_len pkt)"
    and "upk_serialize_packet pkt =
      Inr (pkt\<lparr>pkt_crc32 := crc\<rparr>, packet_header pkt @ b @ put_uint32 crc @ replicate 4 0)"
    and "\<And>rest. upk_deserialize_packet (packet_header pkt @ b @ put_uint32 crc @ rest) =
      Inr (Pkt_live (pkt\<lparr>pkt_crc32 := crc\<rparr>), UPK_ERR_NONE)"
proof -
  obtain d b crc where p: "pkt_payload pkt = Some d" and b: "length b = unat (pkt_payload_len pkt)"
    "v0_deserialize_payload b (pkt_pkttype pkt) = Inr d"
    and crc: "upk_crc32 b (pkt_payload_len pkt) = Inr crc"
    and ser: "upk_serialize_packet pkt =
      Inr (pkt\<lparr>pkt_crc32 := crc\<rparr>, packet_header pkt @ b @ put_uint32 crc @ replicate 4 0)"
    using assms by (rule serialize_packet_layout)
  have wf: "pkt_version_id pkt = 0" "unat (pkt_payload_len pkt) \<le> UPK_MAX_PACKET_SIZE"
    "pkt_pkttype pkt = fst (payload_kind d)"
    using assms p by (auto simp: wf_packet_def)
  have "pkt_pkttype pkt < PKT_V0_PROTO_LIMIT"
    using payload_kind_pkttype [of d] wf(3) by (auto simp: msgtypes)
  moreover have "pkt\<lparr>pkt_payload := Some d, pkt_crc32 := crc\<rparr> = pkt\<lparr>pkt_crc32 := crc\<rparr>"
    using p by (cases pkt) simp
  ultimately have "upk_deserialize_packet (packet_header pkt @ b @ put_uint32 crc @ rest) =
        Inr (Pkt_live (pkt\<lparr>pkt_crc32 := crc\<rparr>), UPK_ERR_NONE)" for rest
    using wf b crc by (simp add: deserialize_frame upk_verify_crc32_def)
  with b(1) ser show thesis by (rule that)
qed

text \<open>C1: a well-formed packet (a version 0 packet whose payload fits the declared length) is
  serialized into a buffer of the declared length and the sizes of header, footer and padding, and
  deserializing that buffer, whatever follows it, gives the packet back, its checksum filled in.\<close>

theorem packet_round_trip:
  assumes "wf_packet pkt"
  shows "\<exists>crc buf.
    upk_serialize_packet pkt = Inr (pkt\<lparr>pkt_crc32 := crc\<rparr>, buf) \<and>
    length buf = unat (pkt_payload_len pkt) + UPK_PACKET_HEADER_LEN + UPK_PACKET_FOOTER_LEN + 4 \<and>
    upk_deserialize_packet (buf @ rest) = Inr (Pkt_live (pkt\<lparr>pkt_crc32 := crc\<rparr>), UPK_ERR_NONE)"
proof -
  obtain b crc where "length b = unat (pkt_payload_len pkt)"
    and "upk_serialize_packet pkt =
      Inr (pkt\<lparr>pkt_crc32 := crc\<rparr>, packet_header pkt @ b @ put_uint32 crc @ replicate 4 0)"
    and "\<And>rest. upk_deserialize_packet (packet_header pkt @ b @ put_uint32 crc @ rest) =
      Inr (Pkt_live (pkt\<lparr>pkt_crc32 := crc\<rparr>), UPK_ERR_NONE)"
    using assms by (rule packet_frame) blast
  then show ?thesis
    by (intro exI [of _ crc] exI [of _ "packet_header pkt @ b @ put_uint32 crc @ replicate 4 0"])
      (simp add: packet_consts)
qed

text \<open>C9: integrity.  If the deserializer accepts a frame, it refuses the same frame with up to four
  neighbouring bytes of the payload changed, with the error number of an invalid packet.\<close>

theorem packet_burst_rejected:
  assumes "upk_deserialize_packet (h @ (pre @ xs @ post) @ put_uint32 crc @ rest) =
      Inr (Pkt_live pkt, UPK_ERR_NONE)"
    and "length h = UPK_PACKET_HEADER_LEN"
    and "unat (of_be32 (take 4 h)) = length (pre @ xs @ post)"
    and "length ys = length xs" and "length xs \<le> 4" and "ys \<noteq> xs"
  shows "upk_deserialize_packet (h @ (pre @ ys @ post) @ put_uint32 crc @ rest) =
      Inr (Pkt_freed, UPK_ERR_INVALID_PKT)"
proof -
  obtain hdr where h: "h = packet_header hdr"
    using assms(2) by (rule header_exists)
  have len: "unat (pkt_payload_len hdr) = length (pre @ xs @ post)"
    using assms(3) by (simp add: h packet_header_def put_uint32_def)
  then have len': "unat (pkt_payload_len hdr) = length (pre @ ys @ post)"
    using assms(4) by simp
  have ok: "unat (pkt_payload_len hdr) \<le> UPK_MAX_PACKET_SIZE" "pkt_version_id hdr = 0"
    "pkt_pkttype hdr < PKT_V0_PROTO_LIMIT"
    "upk_verify_crc32 (pre @ xs @ post) crc (pkt_payload_len hdr) = Inr True"
    using assms(1) unfolding h deserialize_frame [OF len [symmetric]]
    by (auto split: if_splits)
  have "upk_verify_crc32 (pre @ ys @ post) crc (pkt_payload_len hdr) = Inr False"
    by (rule verify_burst) (use ok(4) len assms(4-6) in auto)
  with ok show ?thesis
    unfolding h deserialize_frame [OF len' [symmetric]] by simp
qed

text \<open>The smallest packet, a list request, and an action request with two short names.\<close>

definition list_packet :: upk_packet where
  "list_packet =
     \<lparr>pkt_payload_len = 4, pkt_version_id = 0, pkt_seq_num = 0, pkt_pkttype = PKT_REQUEST,
      pkt_payload = Some (Req_list \<lparr>msgtype = UPK_REQ_LIST\<rparr>), pkt_crc32 = 0\<rparr>"

definition action_packet :: upk_packet where
  "action_packet =
     \<lparr>pkt_payload_len = 18, pkt_version_id = 0, pkt_seq_num = 0, pkt_pkttype = PKT_REQUEST,
      pkt_payload = Some (Req_action
        \<lparr>msgtype = UPK_REQ_ACTION, act_svc_id_len = 2,
         act_svc_id = char_array UPK_MAX_STRING_LEN [0x64, 0x62], act_action_len = 4,
         act_action = char_array UPK_MAX_STRING_LEN [0x73, 0x74, 0x6F, 0x70]\<rparr>),
      pkt_crc32 = 0\<rparr>"

lemma wf_action_packet: "wf_packet action_packet"
proof -
  have "is_string (char_array UPK_MAX_STRING_LEN [0x64, 0x62]) 2"
    using is_string_char_array [of "[0x64, 0x62]"]
    by (simp add: nul_free_def UPK_MAX_STRING_LEN_def)
  moreover have "is_string (char_array UPK_MAX_STRING_LEN [0x73, 0x74, 0x6F, 0x70]) 4"
    using is_string_char_array [of "[0x73, 0x74, 0x6F, 0x70]"]
    by (simp add: nul_free_def UPK_MAX_STRING_LEN_def)
  ultimately show ?thesis
    by (simp add: wf_packet_def action_packet_def wf_payload_def msgtypes UPK_MAX_PACKET_SIZE_def)
qed

lemma packet_round_trip_witness:
  "wf_packet action_packet \<and>
   (\<exists>crc buf. upk_serialize_packet action_packet = Inr (action_packet\<lparr>pkt_crc32 := crc\<rparr>, buf) \<and>
     length buf = 42 \<and>
     upk_deserialize_packet (buf @ [1]) =
       Inr (Pkt_live (action_packet\<lparr>pkt_crc32 := crc\<rparr>), UPK_ERR_NONE))"
  using packet_round_trip [OF wf_action_packet, of "[1]"] wf_action_packet
  by (auto simp: packet_consts action_packet_def)

text \<open>The bytes of \<open>list_packet\<close>.\<close>

lemma list_packet_accepted:
  "upk_deserialize_packet
     ([0, 0, 0, 4, 0, 0, 0, 0, 0, 0, 0, 0, 0, 0, 0, 1] @ ([0, 0, 0] @ [6] @ []) @
      put_uint32 0x169c5aca @ []) =
   Inr (Pkt_live (list_packet\<lparr>pkt_crc32 := 0x169c5aca\<rparr>), UPK_ERR_NONE)"
proof -
  have h: "packet_header list_packet = [0, 0, 0, 4, 0, 0, 0, 0, 0, 0, 0, 0, 0, 0, 0, 1]"
    by (simp add: packet_header_def list_packet_def put_uint32_def put_enum_def be32_def msgtypes)
  have "fetch_enum [0, 0, 0, 6] = Inr (UPK_REQ_LIST, [])"
    by (simp add: fetch_enum_def fetch_uint32_def fetch_bytes_def msgtypes)
  then have v: "v0_deserialize_payload [0, 0, 0, 6] PKT_REQUEST =
      Inr (Req_list \<lparr>msgtype = UPK_REQ_LIST\<rparr>)"
    by (simp add: v0_deserialize_payload_def call_entry_pkt deserialize_req_entries
        deserial_req_list_def)
  have c: "upk_verify_crc32 [0, 0, 0, 6] 0x169c5aca 4 = Inr True"
    by (simp add: upk_verify_crc32_def upk_crc32_def crc_step_def crc_table_def)
  show ?thesis
    using deserialize_frame [of "[0, 0, 0, 6]" list_packet "0x169c5aca" "[]"] c v
    by (simp add: h, simp add: list_packet_def UPK_MAX_PACKET_SIZE_def msgtypes)
qed

lemma packet_burst_rejected_witness:
  "upk_deserialize_packet
     ([0, 0, 0, 4, 0, 0, 0, 0, 0, 0, 0, 0, 0, 0, 0, 1] @ ([0, 0, 0] @ [5] @ []) @
      put_uint32 0x169c5aca @ []) = Inr (Pkt_freed, UPK_ERR_INVALID_PKT)"
  by (rule packet_burst_rejected [OF list_packet_accepted])
     (simp_all add: packet_consts)

text \<open>A call of \<open>upk_deserialize_packet\<close> that returns never returns the null pointer: it returns a
  packet exactly when every assertion held, and otherwise the packet it has just freed.\<close>

theorem deserialize_never_null:
  "case upk_deserialize_packet p of
     Inl _ \<Rightarrow> True
   | Inr (r, e) \<Rightarrow> r \<noteq> Pkt_null \<and> (r = Pkt_freed \<longleftrightarrow> e \<noteq> UPK_ERR_NONE)"
proof (cases "upk_deserialize_packet p")
  case (Inr re)
  then show ?thesis
    by (auto simp: upk_deserialize_packet_def bind_c_Inr_iff upk_func_assert_def split: if_splits)
qed simp

text \<open>Packet type 0.  A frame with a valid checksum and a supported version whose packet type passes
  the test against \<open>upk_pkt_proto_limit\<close> makes the deserializer call a null function pointer if and
  only if that type is 0: the test has no lower bound.\<close>

theorem deserialize_type_zero:
  assumes "length b = unat (pkt_payload_len pkt)" and "unat (pkt_payload_len pkt) \<le> UPK_MAX_PACKET_SIZE"
    and "pkt_version_id pkt = 0" and "pkt_pkttype pkt < PKT_V0_PROTO_LIMIT"
    and "upk_crc32 b (pkt_payload_len pkt) = Inr crc"
  shows "upk_deserialize_packet (packet_header pkt @ b @ put_uint32 crc @ rest) = Inl Null_call \<longleftrightarrow>
    pkt_pkttype pkt = 0"
proof -
  have "v0_deserialize_payload b (pkt_pkttype pkt) = Inl Null_call \<longleftrightarrow> pkt_pkttype pkt = 0"
    using payload_faults [where t = "pkt_pkttype pkt" and p = b] assms(4)
    by (auto split: if_splits)
  then show ?thesis
    using assms by (auto simp: deserialize_frame upk_verify_crc32_def bind_c_Inl_iff)
qed

lemma deserialize_type_zero_witness:
  "upk_deserialize_packet
     (packet_header (list_packet\<lparr>pkt_pkttype := 0\<rparr>) @ [0, 0, 0, 6] @ put_uint32 0x169c5aca @ []) =
     Inl Null_call"
proof -
  have "upk_crc32 [0, 0, 0, 6] 4 = Inr 0x169c5aca"
    by (simp add: upk_crc32_def crc_step_def crc_table_def)
  then show ?thesis
    using deserialize_type_zero
        [of "[0, 0, 0, 6]" "list_packet\<lparr>pkt_pkttype := 0\<rparr>" "0x169c5aca" "[]"]
    by (simp add: list_packet_def UPK_MAX_PACKET_SIZE_def msgtypes)
qed

end
