(* ===== verification/Upk_Create.thy ===== *)
theory Upk_Create
  imports Upk_Packet
begin

text \<open>
  The constructors of packets: the helper macros and the \<open>v0_create_\<close> functions of
  \<open>libupkeeper/upkeeper/upk_v0_protocol.c\<close>, and the version switches around them, the preambles and
  the message type utilities of \<open>libupkeeper/upkeeper/upk_protocol.c\<close>.

  A \<open>char *\<close> argument is the list of the bytes from the pointer to the end of its object.  A created
  packet is well formed, so it survives the wire; a string without a terminator in its first
  \<open>UPK_MAX_STRING_LEN\<close> bytes overruns the message instead.
\<close>

section \<open>Helper macros\<close>

text \<open>\<open>UPK_HELPER_ANSISTRING\<close>: the copy takes the terminator along.  It gives the array member and its
  length, which \<open>UPK_HELPER_STRING\<close> stores in the length member.\<close>

definition helper_string :: "bytes \<Rightarrow> (bytes \<times> u32) cres" where
  "helper_string src =
     (let n = strnlen src UPK_MAX_STRING_LEN in
      if length src < n + 1 then Inl Oob_read
      else if UPK_MAX_STRING_LEN < n + 1 then Inl Oob_write
      else Inr (char_array UPK_MAX_STRING_LEN (take n src), of_nat n))"

definition upk_create_pkt :: "upk_payload \<Rightarrow> u32 \<Rightarrow> u32 \<Rightarrow> u32 \<Rightarrow> upk_packet" where
  "upk_create_pkt payload payload_len pkttype proto_ver =
     \<lparr>pkt_payload_len = payload_len, pkt_version_id = proto_ver, pkt_seq_num = 0,
      pkt_pkttype = pkttype, pkt_payload = Some payload, pkt_crc32 = 0\<rparr>"

text \<open>\<open>UPK_END_HELPER\<close>, with \<open>PROTOCOL_VERSION\<close> 0.\<close>

definition end_helper :: "upk_payload \<Rightarrow> u32 \<Rightarrow> u32 \<Rightarrow> upk_packet cres" where
  "end_helper d data_len pkttype = Inr (upk_create_pkt d data_len pkttype 0)"

section \<open>Version 0 constructors\<close>

text \<open>\<open>UPK_DATA_LEN\<close> starts at 4 for the message type and grows with each member, in 32 bits.\<close>

definition v0_create_req_seq_start :: "u32 \<Rightarrow> u32 \<Rightarrow> upk_packet cres" where
  "v0_create_req_seq_start msg_seq_type msg_seq_count =
     end_helper
       (Req_seq_start \<lparr>msgtype = UPK_REQ_SEQ_START, rss_msg_seq_type = msg_seq_type,
          rss_msg_seq_count = msg_seq_count\<rparr>)
       (4 + 4 + 4) PKT_REQUEST"

definition v0_create_req_seq_end :: "bool \<Rightarrow> upk_packet cres" where
  "v0_create_req_seq_end commit =
     end_helper
       (Req_seq_end \<lparr>msgtype = UPK_REQ_SEQ_END, rse_commit = commit\<rparr>)
       (4 + 1) PKT_REQUEST"

definition v0_create_req_action :: "bytes \<Rightarrow> bytes \<Rightarrow> upk_packet cres" where
  "v0_create_req_action svc_id action =
     bind_c (helper_string svc_id) (\<lambda>(svc_id, svc_id_len).
     bind_c (helper_string action) (\<lambda>(action, action_len).
     end_helper
       (Req_action \<lparr>msgtype = UPK_REQ_ACTION, act_svc_id_len = svc_id_len,
          act_svc_id = svc_id, act_action_len = action_len, act_action = action\<rparr>)
       (4 + (svc_id_len + 4) + (action_len + 4)) PKT_REQUEST))"

definition v0_create_req_signal :: "bytes \<Rightarrow> u32 \<Rightarrow> bool \<Rightarrow> bool \<Rightarrow> upk_packet cres" where
  "v0_create_req_signal svc_id sig signal_sid signal_pgrp =
     bind_c (helper_string svc_id) (\<lambda>(svc_id, svc_id_len).
     end_helper
       (Req_signal \<lparr>msgtype = UPK_REQ_SIGNAL, sig_signal = sig,
          sig_signal_sid = signal_sid, sig_signal_pgrp = signal_pgrp,
          sig_svc_id_len = svc_id_len, sig_svc_id = svc_id\<rparr>)
       (4 + 4 + 1 + 1 + (svc_id_len + 4)) PKT_REQUEST)"

definition v0_create_req_list :: "upk_packet cres" where
  "v0_create_req_list =
     end_helper
       (Req_list \<lparr>msgtype = UPK_REQ_LIST\<rparr>)
       4 PKT_REQUEST"

definition v0_create_req_status :: "bytes \<Rightarrow> u32 \<Rightarrow> upk_packet cres" where
  "v0_create_req_status svc_id restart_window_seconds =
     bind_c (helper_string svc_id) (\<lambda>(svc_id, svc_id_len).
     end_helper
       (Req_status \<lparr>msgtype = UPK_REQ_STATUS, sta_svc_id_len = svc_id_len,
          sta_svc_id = svc_id, sta_restart_window_seconds = restart_window_seconds\<rparr>)
       (4 + (svc_id_len + 4) + 4) PKT_REQUEST)"

definition v0_create_req_subscribe :: "bytes \<Rightarrow> bool \<Rightarrow> upk_packet cres" where
  "v0_create_req_subscribe svc_id all_svcs =
     bind_c (helper_string svc_id) (\<lambda>(svc_id, svc_id_len).
     end_helper
       (Req_subscribe \<lparr>msgtype = UPK_REQ_SUBSCRIBE, sub_all_svcs = all_svcs,
          sub_svc_id_len = svc_id_len, sub_svc_id = svc_id\<rparr>)
       (4 + 1 + (svc_id_len + 4)) PKT_REQUEST)"

definition v0_create_req_unsubscribe :: "bytes \<Rightarrow> bool \<Rightarrow> upk_packet cres" where
  "v0_create_req_unsubscribe svc_id all_svcs =
     bind_c (helper_string svc_id) (\<lambda>(svc_id, svc_id_len).
     end_helper
       (Req_unsubscribe \<lparr>msgtype = UPK_REQ_UNSUBSCRIBE, uns_all_svcs = all_svcs,
          uns_svc_id_len = svc_id_len, uns_svc_id = svc_id\<rparr>)
       (4 + 1 + (svc_id_len + 4)) PKT_REQUEST)"

definition v0_create_req_disconnect :: "upk_packet cres" where
  "v0_create_req_disconnect =
     end_helper
       (Req_disconnect \<lparr>msgtype = UPK_REQ_DISCONNECT\<rparr>)
       4 PKT_REQUEST"

definition v0_create_repl_seq_start :: "u32 \<Rightarrow> u32 \<Rightarrow> upk_packet cres" where
  "v0_create_repl_seq_start msg_seq_type msg_seq_count =
     end_helper
       (Repl_seq_start \<lparr>msgtype = UPK_REPL_SEQ_START, pss_msg_seq_type = msg_seq_type,
          pss_msg_seq_count = msg_seq_count\<rparr>)
       (4 + 4 + 4) PKT_REPLY"

definition v0_create_repl_seq_end :: "bool \<Rightarrow> upk_packet cres" where
  "v0_create_repl_seq_end commit =
     end_helper
       (Repl_seq_end \<lparr>msgtype = UPK_REPL_SEQ_END, pse_commit = commit\<rparr>)
       (4 + 1) PKT_REPLY"

definition v0_create_repl_result :: "bytes \<Rightarrow> bool \<Rightarrow> upk_packet cres" where
  "v0_create_repl_result msg successful =
     bind_c (helper_string msg) (\<lambda>(msg, msg_len).
     end_helper
       (Repl_result \<lparr>msgtype = UPK_REPL_RESULT, res_successful = successful,
          res_msg_len = msg_len, res_msg = msg\<rparr>)
       (4 + 1 + (msg_len + 4)) PKT_REPLY)"

definition v0_create_repl_listing :: "bytes \<Rightarrow> upk_packet cres" where
  "v0_create_repl_listing svc_id =
     bind_c (helper_string svc_id) (\<lambda>(svc_id, svc_id_len).
     end_helper
       (Repl_listing \<lparr>msgtype = UPK_REPL_LISTING, lst_svc_id_len = svc_id_len,
          lst_svc_id = svc_id\<rparr>)
       (4 + (svc_id_len + 4)) PKT_REPLY)"

text \<open>\<open>sizeof\<close> of the structure and of its array; the enumerations take four bytes.\<close>

definition sizeof_svcinfo :: u32 where "sizeof_svcinfo = 2092"
definition sizeof_enum :: u32 where "sizeof_enum = 4"

definition get_svcinfo_len :: "v0_svcinfo \<Rightarrow> u32" where
  "get_svcinfo_len s =
     sizeof_svcinfo + (si_last_action_name_len s - of_nat UPK_MAX_STRING_LEN) +
     (4 - sizeof_enum) + (4 - sizeof_enum)"

text \<open>The length of the action name is set in the caller's structure first, so the function returns
  that structure as well.\<close>

definition v0_create_repl_svcinfo :: "bytes \<Rightarrow> v0_svcinfo \<Rightarrow> (upk_packet \<times> v0_svcinfo) cres" where
  "v0_create_repl_svcinfo svc_id svcinfo =
     (let svcinfo = svcinfo\<lparr>si_last_action_name_len :=
            of_nat (strnlen (si_last_action_name svcinfo) UPK_MAX_STRING_LEN)\<rparr>;
          svcinfo_len = get_svcinfo_len svcinfo in
      bind_c (helper_string svc_id) (\<lambda>(svc_id, svc_id_len).
      bind_c (end_helper
       (Repl_svcinfo \<lparr>msgtype = UPK_REPL_SVCINFO, inf_svcinfo_len = svcinfo_len,
          inf_svcinfo = svcinfo, inf_svc_id_len = svc_id_len, inf_svc_id = svc_id\<rparr>)
       (4 + 4 + svcinfo_len + (svc_id_len + 4)) PKT_REPLY) (\<lambda>pkt.
      Inr (pkt, svcinfo))))"

definition v0_create_repl_ack :: "upk_packet cres" where
  "v0_create_repl_ack =
     end_helper
       (Repl_ack \<lparr>msgtype = UPK_REPL_ACK\<rparr>)
       4 PKT_REPLY"

definition v0_create_repl_error :: "bytes \<Rightarrow> u32 \<Rightarrow> bytes \<Rightarrow> u32 \<Rightarrow> upk_packet cres" where
  "v0_create_repl_error svc_id uerrno msg errlevel =
     bind_c (helper_string msg) (\<lambda>(msg, msg_len).
     bind_c (helper_string svc_id) (\<lambda>(svc_id, svc_id_len).
     end_helper
       (Repl_error \<lparr>msgtype = UPK_REPL_ERROR, err_errlevel = errlevel,
          err_uerrno = uerrno, err_msg_len = msg_len, err_msg = msg,
          err_svc_id_len = svc_id_len, err_svc_id = svc_id\<rparr>)
       (4 + 4 + 4 + (msg_len + 4) + (svc_id_len + 4)) PKT_REPLY))"

definition v0_create_pub_publication :: "upk_packet cres" where
  "v0_create_pub_publication =
     end_helper
       (Pub_publication \<lparr>msgtype = UPK_PUB_PUBLICATION\<rparr>)
       4 PKT_PUBMSG"

definition v0_create_pub_cancelation :: "upk_packet cres" where
  "v0_create_pub_cancelation =
     end_helper
       (Pub_cancelation \<lparr>msgtype = UPK_PUB_CANCELATION\<rparr>)
       4 PKT_PUBMSG"

section \<open>Preambles\<close>

text \<open>\<open>sizeof(*preamble) - sizeof(preamble->client_name)\<close> is 16.\<close>

definition req_preamble_len :: "upk_req_preamble \<Rightarrow> u32" where
  "req_preamble_len preamble = 16 + pre_client_name_len preamble"

text \<open>\<open>strncpy\<close> of one byte more than the length: it stops at the terminator and pads with zeros, which
  is the copy of \<open>helper_string\<close>.\<close>

definition upk_create_req_preamble :: "bytes \<Rightarrow> upk_packet cres" where
  "upk_create_req_preamble client_name =
     bind_c (helper_string client_name) (\<lambda>(client_name, client_name_len).
     let preamble =
       \<lparr>msgtype = UPK_REQ_PREAMBLE, pre_min_supported_ver = UPK_MIN_SUPPORTED_PROTO,
        pre_max_supported_ver = UPK_MAX_SUPPORTED_PROTO, pre_client_name_len = client_name_len,
        pre_client_name = client_name\<rparr> in
     Inr (upk_create_pkt (Req_preamble preamble) (req_preamble_len preamble) PKT_REQUEST 0))"

definition upk_create_repl_preamble :: "u32 \<Rightarrow> upk_packet cres" where
  "upk_create_repl_preamble best_version =
     Inr (upk_create_pkt
       (Repl_preamble \<lparr>msgtype = UPK_REPL_PREAMBLE, rpre_best_version = best_version\<rparr>)
       (4 + 4) PKT_REPLY 0)"

section \<open>Version switches\<close>

text \<open>\<open>switch (handle->version_id)\<close>: the functions below take that member of the handle.  \<open>None\<close> is the
  null pointer they return for a version they do not know.\<close>

definition by_version :: "u32 \<Rightarrow> 'p cres \<Rightarrow> 'p option cres" where
  "by_version version_id v0 =
     (if version_id = 0 then bind_c v0 (\<lambda>pkt. Inr (Some pkt)) else Inr None)"

definition upk_create_req_seq_start ::
    "u32 \<Rightarrow> u32 \<Rightarrow> u32 \<Rightarrow> upk_packet option cres" where
  "upk_create_req_seq_start version_id seq_type cnt =
     by_version version_id (v0_create_req_seq_start seq_type cnt)"

definition upk_create_req_seq_end :: "u32 \<Rightarrow> bool \<Rightarrow> upk_packet option cres" where
  "upk_create_req_seq_end version_id commit = by_version version_id (v0_create_req_seq_end commit)"

definition upk_create_req_action ::
    "u32 \<Rightarrow> bytes \<Rightarrow> bytes \<Rightarrow> upk_packet option cres" where
  "upk_create_req_action version_id svc_id action =
     by_version version_id (v0_create_req_action svc_id action)"

definition upk_create_req_signal ::
    "u32 \<Rightarrow> bytes \<Rightarrow> u32 \<Rightarrow> bool \<Rightarrow> bool \<Rightarrow> upk_packet option cres" where
  "upk_create_req_signal version_id svc_id sig signal_sid signal_pgrp =
     by_version version_id (v0_create_req_signal svc_id sig signal_sid signal_pgrp)"

definition upk_create_req_list :: "u32 \<Rightarrow> upk_packet option cres" where
  "upk_create_req_list version_id = by_version version_id v0_create_req_list"

definition upk_create_req_status ::
    "u32 \<Rightarrow> bytes \<Rightarrow> u32 \<Rightarrow> upk_packet option cres" where
  "upk_create_req_status version_id svc_id restart_window_seconds =
     by_version version_id (v0_create_req_status svc_id restart_window_seconds)"

definition upk_create_req_subscribe ::
    "u32 \<Rightarrow> bytes \<Rightarrow> bool \<Rightarrow> upk_packet option cres" where
  "upk_create_req_subscribe version_id svc_id all_svcs =
     by_version version_id (v0_create_req_subscribe svc_id all_svcs)"

definition upk_create_req_unsubscribe ::
    "u32 \<Rightarrow> bytes \<Rightarrow> bool \<Rightarrow> upk_packet option cres" where
  "upk_create_req_unsubscribe version_id svc_id all_svcs =
     by_version version_id (v0_create_req_unsubscribe svc_id all_svcs)"

definition upk_create_req_disconnect :: "u32 \<Rightarrow> upk_packet option cres" where
  "upk_create_req_disconnect version_id = by_version version_id v0_create_req_disconnect"

definition upk_create_repl_seq_start ::
    "u32 \<Rightarrow> u32 \<Rightarrow> u32 \<Rightarrow> upk_packet option cres" where
  "upk_create_repl_seq_start version_id seq_type cnt =
     by_version version_id (v0_create_repl_seq_start seq_type cnt)"

definition upk_create_repl_seq_end ::
    "u32 \<Rightarrow> bool \<Rightarrow> upk_packet option cres" where
  "upk_create_repl_seq_end version_id commit =
     by_version version_id (v0_create_repl_seq_end commit)"

definition upk_create_repl_result ::
    "u32 \<Rightarrow> bytes \<Rightarrow> bool \<Rightarrow> upk_packet option cres" where
  "upk_create_repl_result version_id msg successful =
     by_version version_id (v0_create_repl_result msg successful)"

definition upk_create_repl_listing ::
    "u32 \<Rightarrow> bytes \<Rightarrow> upk_packet option cres" where
  "upk_create_repl_listing version_id svc_id =
     by_version version_id (v0_create_repl_listing svc_id)"

definition upk_create_repl_svcinfo ::
    "u32 \<Rightarrow> bytes \<Rightarrow> v0_svcinfo \<Rightarrow> (upk_packet \<times> v0_svcinfo) option cres" where
  "upk_create_repl_svcinfo version_id svc_id svcinfo =
     by_version version_id (v0_create_repl_svcinfo svc_id svcinfo)"

definition upk_create_repl_ack :: "u32 \<Rightarrow> upk_packet option cres" where
  "upk_create_repl_ack version_id = by_version version_id v0_create_repl_ack"

definition upk_create_repl_error ::
    "u32 \<Rightarrow> bytes \<Rightarrow> u32 \<Rightarrow> bytes \<Rightarrow> u32 \<Rightarrow> upk_packet option cres" where
  "upk_create_repl_error version_id svc_id uerrno errmsg errlvl =
     by_version version_id (v0_create_repl_error svc_id uerrno errmsg errlvl)"

definition upk_create_pub_publication :: "u32 \<Rightarrow> upk_packet option cres" where
  "upk_create_pub_publication version_id = by_version version_id v0_create_pub_publication"

definition upk_create_pub_cancelation :: "u32 \<Rightarrow> upk_packet option cres" where
  "upk_create_pub_cancelation version_id = by_version version_id v0_create_pub_cancelation"

section \<open>Message type utilities\<close>

definition upk_get_msgtype :: "upk_packet \<Rightarrow> u32 cres" where
  "upk_get_msgtype pkt =
     (case pkt_payload pkt of None \<Rightarrow> Inl Null_deref | Some d \<Rightarrow> Inr (payload_msgtype d))"

text \<open>\<open>_UPK_N_PER_TYPE\<close> with one supported protocol, and \<open>UPK_MSGTYPE_IDX\<close>, all in unsigned words.\<close>

definition UPK_N_SUPPORTED_PROTOS :: u32 where
  "UPK_N_SUPPORTED_PROTOS = 1 + UPK_MAX_SUPPORTED_PROTO - UPK_MIN_SUPPORTED_PROTO"

definition UPK_N_REQ_TYPES :: u32 where
  "UPK_N_REQ_TYPES = UPK_REQ_LIMIT - UPK_REQ_ORIGIN - UPK_N_SUPPORTED_PROTOS"

definition UPK_N_REPL_TYPES :: u32 where
  "UPK_N_REPL_TYPES = UPK_REPL_LIMIT - UPK_REPL_ORIGIN - UPK_N_SUPPORTED_PROTOS"

definition UPK_MSGTYPE_IDX :: "u32 \<Rightarrow> u32" where
  "UPK_MSGTYPE_IDX t =
     (if t < UPK_REQ_LIMIT then (t - UPK_REQ_ORIGIN) + 0
      else if t < UPK_REPL_LIMIT then (t - UPK_REPL_ORIGIN) + UPK_N_REQ_TYPES
      else if t < UPK_PUB_LIMIT then (t - UPK_PUB_ORIGIN) + (UPK_N_REQ_TYPES + UPK_N_REPL_TYPES)
      else - 1)"

text \<open>\<open>sizeof\<close> of the message structures.\<close>

definition msgsizes :: "nat list" where
  "msgsizes =
     [2064, 12, 8, 4108, 2064, 4, 2060, 2060, 2060, 4,
      8, 12, 8, 2060, 2056, 4152, 4, 4116, 4, 4]"

text \<open>The index is unsigned, so its comparison with zero is always true.\<close>

definition upk_get_msgsize :: "u32 \<Rightarrow> nat" where
  "upk_get_msgsize t =
     (if 0 \<le> UPK_MSGTYPE_IDX t \<and> unat (UPK_MSGTYPE_IDX t) < length msgsizes
      then msgsizes ! unat (UPK_MSGTYPE_IDX t) else 0)"

section \<open>Strings\<close>

lemma length_takeWhile_less: "length (takeWhile P xs) < length xs \<longleftrightarrow> (\<exists>x\<in>set xs. \<not> P x)"
  by (induction xs) auto

lemma strnlen_less: "strnlen src n < length (take n src) \<longleftrightarrow> 0 \<in> set (take n src)"
  unfolding strnlen_def length_takeWhile_less by auto

text \<open>The string was copied if its terminator is among the first \<open>UPK_MAX_STRING_LEN\<close> bytes.\<close>

lemma helper_string_Inr_iff:
  "(\<exists>x. helper_string src = Inr x) \<longleftrightarrow> 0 \<in> set (take UPK_MAX_STRING_LEN src)"
  using strnlen_less [of src UPK_MAX_STRING_LEN] strnlen_le [of src UPK_MAX_STRING_LEN]
    strnlen_le_length [of src UPK_MAX_STRING_LEN]
  by (auto simp: helper_string_def Let_def min_def split: if_splits)

lemma helper_string_Inr:
  assumes "helper_string src = Inr (s, n)"
  shows "is_string s n" and "unat n < UPK_MAX_STRING_LEN"
proof -
  let ?n = "strnlen src UPK_MAX_STRING_LEN"
  have n: "?n < UPK_MAX_STRING_LEN" "?n < length src" "n = of_nat ?n"
    and s: "s = char_array UPK_MAX_STRING_LEN (take ?n src)"
    using assms by (auto simp: helper_string_def Let_def split: if_splits)
  then have u: "unat n = ?n"
    by (simp add: unat_of_string_length)
  show "unat n < UPK_MAX_STRING_LEN"
    using u n(1) by simp
  show "is_string s n"
    using is_string_char_array [of "take ?n src"] n s
    by (simp add: nul_free_strnlen min_absorb2 less_imp_le)
qed

lemma helper_string_ok:
  "helper_string src = Inr (s, n) \<Longrightarrow> is_string s n \<and> unat n < 2048"
  using helper_string_Inr [of src s n] by (simp add: UPK_MAX_STRING_LEN_def)

lemma helper_string_terminated:
  assumes "nul_free t" and "length t < UPK_MAX_STRING_LEN"
  shows "helper_string (t @ 0 # rest) = Inr (char_array UPK_MAX_STRING_LEN t, of_nat (length t))"
proof -
  have "take UPK_MAX_STRING_LEN (t @ 0 # rest) =
      t @ 0 # take (UPK_MAX_STRING_LEN - length t - 1) rest"
    using assms(2) by (cases "UPK_MAX_STRING_LEN - length t") auto
  then have "strnlen (t @ 0 # rest) UPK_MAX_STRING_LEN = length t"
    using assms(1) unfolding strnlen_def nul_free_def
    by (metis (mono_tags, lifting) takeWhile_append2 takeWhile.simps(2) append_Nil2)
  then show ?thesis
    using assms(2) by (simp add: helper_string_def)
qed

section \<open>Created packets are well formed\<close>

text \<open>The packets the library builds: the results of its constructors that are packets.  The array of
  the service information must be zero behind its string, as the code leaves it.\<close>

inductive created :: "upk_packet \<Rightarrow> bool" where
  req_preamble: "upk_create_req_preamble client_name = Inr pkt \<Longrightarrow> created pkt"
| repl_preamble: "upk_create_repl_preamble best_version = Inr pkt \<Longrightarrow> created pkt"
| req_seq_start: "upk_create_req_seq_start v msg_seq_type msg_seq_count = Inr (Some pkt) \<Longrightarrow> created pkt"
| req_seq_end: "upk_create_req_seq_end v commit = Inr (Some pkt) \<Longrightarrow> created pkt"
| req_action: "upk_create_req_action v svc_id action = Inr (Some pkt) \<Longrightarrow> created pkt"
| req_signal: "upk_create_req_signal v svc_id sig signal_sid signal_pgrp = Inr (Some pkt) \<Longrightarrow> created pkt"
| req_list: "upk_create_req_list v = Inr (Some pkt) \<Longrightarrow> created pkt"
| req_status: "upk_create_req_status v svc_id restart_window_seconds = Inr (Some pkt) \<Longrightarrow> created pkt"
| req_subscribe: "upk_create_req_subscribe v svc_id all_svcs = Inr (Some pkt) \<Longrightarrow> created pkt"
| req_unsubscribe: "upk_create_req_unsubscribe v svc_id all_svcs = Inr (Some pkt) \<Longrightarrow> created pkt"
| req_disconnect: "upk_create_req_disconnect v = Inr (Some pkt) \<Longrightarrow> created pkt"
| repl_seq_start: "upk_create_repl_seq_start v msg_seq_type msg_seq_count = Inr (Some pkt) \<Longrightarrow> created pkt"
| repl_seq_end: "upk_create_repl_seq_end v commit = Inr (Some pkt) \<Longrightarrow> created pkt"
| repl_result: "upk_create_repl_result v msg successful = Inr (Some pkt) \<Longrightarrow> created pkt"
| repl_listing: "upk_create_repl_listing v svc_id = Inr (Some pkt) \<Longrightarrow> created pkt"
| repl_svcinfo: "upk_create_repl_svcinfo v svc_id svcinfo = Inr (Some (pkt, svcinfo')) \<Longrightarrow> created pkt"
| repl_ack: "upk_create_repl_ack v = Inr (Some pkt) \<Longrightarrow> created pkt"
| repl_error: "upk_create_repl_error v svc_id uerrno msg errlevel = Inr (Some pkt) \<Longrightarrow> created pkt"
| pub_publication: "upk_create_pub_publication v = Inr (Some pkt) \<Longrightarrow> created pkt"
| pub_cancelation: "upk_create_pub_cancelation v = Inr (Some pkt) \<Longrightarrow> created pkt"

lemmas create_defs =
  end_helper_def upk_create_pkt_def req_preamble_len_def wf_packet_def wf_payload_def
  UPK_MAX_STRING_LEN_def UPK_MAX_PACKET_SIZE_def

lemma by_version_Some: "by_version v m = Inr (Some pkt) \<longleftrightarrow> v = 0 \<and> m = Inr pkt"
  by (auto simp: by_version_def bind_c_Inr_iff)

lemma unat_plus_small: "unat a + unat b < 2 ^ 32 \<Longrightarrow> unat (a + b :: u32) = unat a + unat b"
  by (simp add: unat_word_ariths)

lemma svcinfo_len_eq: "get_svcinfo_len s = 44 + si_last_action_name_len s"
  by (simp add: get_svcinfo_len_def sizeof_svcinfo_def sizeof_enum_def UPK_MAX_STRING_LEN_def)

section \<open>Properties\<close>

lemmas creator_defs =
  upk_create_req_preamble_def upk_create_repl_preamble_def upk_create_req_seq_start_def
  v0_create_req_seq_start_def upk_create_req_seq_end_def v0_create_req_seq_end_def
  upk_create_req_action_def v0_create_req_action_def upk_create_req_signal_def
  v0_create_req_signal_def upk_create_req_list_def v0_create_req_list_def
  upk_create_req_status_def v0_create_req_status_def upk_create_req_subscribe_def
  v0_create_req_subscribe_def upk_create_req_unsubscribe_def v0_create_req_unsubscribe_def
  upk_create_req_disconnect_def v0_create_req_disconnect_def upk_create_repl_seq_start_def
  v0_create_repl_seq_start_def upk_create_repl_seq_end_def v0_create_repl_seq_end_def
  upk_create_repl_result_def v0_create_repl_result_def upk_create_repl_listing_def
  v0_create_repl_listing_def upk_create_repl_svcinfo_def v0_create_repl_svcinfo_def
  upk_create_repl_ack_def v0_create_repl_ack_def upk_create_repl_error_def
  v0_create_repl_error_def upk_create_pub_publication_def v0_create_pub_publication_def
  upk_create_pub_cancelation_def v0_create_pub_cancelation_def

text \<open>The service information is the one message with a nested structure.\<close>

definition zero_filled :: "bytes \<Rightarrow> bool" where
  "zero_filled name \<longleftrightarrow> (\<exists>t. nul_free t \<and> length t \<le> UPK_MAX_STRING_LEN \<and> name = char_array UPK_MAX_STRING_LEN t)"

lemma created_svcinfo_payload:
  assumes "upk_create_repl_svcinfo v svc_id svcinfo = Inr (Some (pkt, svcinfo'))"
  obtains m where "pkt_payload pkt = Some (Repl_svcinfo m)"
    and "si_last_action_name (inf_svcinfo m) = si_last_action_name svcinfo"
  using assms
  by (auto simp: creator_defs by_version_Some bind_c_Inr_iff end_helper_def upk_create_pkt_def Let_def)

lemma created_svcinfo_wf:
  assumes "upk_create_repl_svcinfo v svc_id svcinfo = Inr (Some (pkt, svcinfo'))"
    and "zero_filled (si_last_action_name svcinfo)"
  shows "wf_packet pkt"
proof -
  obtain t where t: "nul_free t" "length t \<le> UPK_MAX_STRING_LEN"
    "si_last_action_name svcinfo = char_array UPK_MAX_STRING_LEN t"
    using assms(2) unfolding zero_filled_def by blast
  have si: "is_string (char_array UPK_MAX_STRING_LEN t) (of_nat (length t))"
    using t(1,2) by (rule is_string_char_array)
  have len: "unat (of_nat (length t) :: u32) = length t" "length t \<le> 2048"
    using t(2) by (simp_all add: unat_of_string_length, simp add: UPK_MAX_STRING_LEN_def)
  from assms(1) t show ?thesis
    using si len
    by (auto simp: creator_defs by_version_Some bind_c_Inr_iff create_defs Let_def strnlen_char_array
        svcinfo_len_eq wf_repl_svcinfo_def unat_plus_small dest!: helper_string_ok)
qed

lemma wf_packet_zero_filled:
  assumes "wf_packet pkt" and "pkt_payload pkt = Some (Repl_svcinfo m)"
  shows "zero_filled (si_last_action_name (inf_svcinfo m))"
  using assms by (auto simp: wf_packet_def wf_payload_def wf_repl_svcinfo_def is_string_def zero_filled_def)

lemma created_other:
  assumes "created pkt"
  shows "(\<exists>v svc_id svcinfo svcinfo'. upk_create_repl_svcinfo v svc_id svcinfo = Inr (Some (pkt, svcinfo'))) \<or>
    wf_packet pkt \<and> (\<forall>m. pkt_payload pkt \<noteq> Some (Repl_svcinfo m))"
  using assms
  by cases (auto simp: creator_defs by_version_Some bind_c_Inr_iff create_defs unat_plus_small
      dest!: helper_string_ok)

lemma created_plain:
  assumes "created pkt" and "\<And>m. pkt_payload pkt \<noteq> Some (Repl_svcinfo m)"
  shows "wf_packet pkt"
  using created_other [OF assms(1)] created_svcinfo_payload assms(2) by metis


lemma stop_request:
  "upk_create_req_action 0 [0x64, 0x62, 0] [0x73, 0x74, 0x6F, 0x70, 0] = Inr (Some action_packet)"
proof -
  have "helper_string [0x64, 0x62, 0] = Inr (char_array UPK_MAX_STRING_LEN [0x64, 0x62], 2)"
    using helper_string_terminated [of "[0x64, 0x62]" "[]"]
    by (simp add: nul_free_def UPK_MAX_STRING_LEN_def)
  moreover have "helper_string [0x73, 0x74, 0x6F, 0x70, 0] =
      Inr (char_array UPK_MAX_STRING_LEN [0x73, 0x74, 0x6F, 0x70], 4)"
    using helper_string_terminated [of "[0x73, 0x74, 0x6F, 0x70]" "[]"]
    by (simp add: nul_free_def UPK_MAX_STRING_LEN_def)
  ultimately show ?thesis
    by (simp add: upk_create_req_action_def by_version_def v0_create_req_action_def end_helper_def
        upk_create_pkt_def action_packet_def)
qed


text \<open>A version 0 action request is built exactly when both strings have their terminator within the
  first \<open>UPK_MAX_STRING_LEN\<close> bytes; any other argument is a memory fault, although the macro means to
  cut the string there.\<close>

theorem create_action_iff:
  "case upk_create_req_action 0 svc_id action of
     Inl e \<Rightarrow> e \<in> {Oob_read, Oob_write} \<and>
       \<not> (0 \<in> set (take UPK_MAX_STRING_LEN svc_id) \<and> 0 \<in> set (take UPK_MAX_STRING_LEN action))
   | Inr pkt \<Rightarrow> pkt \<noteq> None \<and>
       0 \<in> set (take UPK_MAX_STRING_LEN svc_id) \<and> 0 \<in> set (take UPK_MAX_STRING_LEN action)"
proof -
  have faults: "faults_in mem_faults (helper_string s)" for s
    by (simp add: helper_string_def Let_def)
  show ?thesis
    using helper_string_Inr_iff [of svc_id] helper_string_Inr_iff [of action]
      faults [of svc_id] faults [of action]
    by (cases "helper_string svc_id"; cases "helper_string action")
       (auto simp: upk_create_req_action_def by_version_def v0_create_req_action_def end_helper_def)
qed

text \<open>The message types \<open>upk_get_msgsize\<close> knows a size for.  They are the valid ones and, because the
  index is computed by an unsigned subtraction that wraps around, also the first number behind the
  requests and the replies and the ten or eighteen numbers below the replies and publications.\<close>

theorem msgsize_known:
  "upk_get_msgsize t \<noteq> 0 \<longleftrightarrow> unat t \<in> {1..11} \<union> {4086..4104} \<union> {8174..8193}"
proof -
  have m1: "unat (- 1 :: u32) = 4294967295"
    by (simp add: unsigned_minus_1_eq_mask mask_eq_exp_minus_1)
  have nz: "msgsizes ! i \<noteq> 0" if "i < length msgsizes" for i
  proof -
    have "\<forall>n \<in> set msgsizes. n \<noteq> 0" by (simp add: msgsizes_def)
    with that show ?thesis by simp
  qed
  have "upk_get_msgsize t \<noteq> 0 \<longleftrightarrow> unat (UPK_MSGTYPE_IDX t) < 20"
    using nz [of "unat (UPK_MSGTYPE_IDX t)"] by (auto simp: upk_get_msgsize_def msgsizes_def)
  also have "\<dots> \<longleftrightarrow> unat t \<in> {1..11} \<union> {4086..4104} \<union> {8174..8193}"
    by (auto simp: UPK_MSGTYPE_IDX_def UPK_N_REQ_TYPES_def UPK_N_REPL_TYPES_def
        UPK_N_SUPPORTED_PROTOS_def packet_consts msgtypes word_less_nat_alt unat_sub_if'
        unat_plus_if' m1 split: if_splits)
  finally show ?thesis .
qed

end
