(* ===== verification/Upk_List.thy ===== *)
theory Upk_List
  imports Upk_Prelude
begin

text \<open>
  The list macros of \<open>libupkeeper/upkeeper/upk_types.h\<close>: a list is a metanode with the two ends, a cursor
  of three pointers and a count, over nodes on the heap.  The heap is part of the list: a node is
  allocated under a new address and removed when it is freed, and an access through a pointer to a
  freed node is a fault.  \<open>tempp\<close> only ever holds a node while one macro runs and has no field.

  The lemmas say what each macro does to the chain of nodes; the macros behave as a stack (locale
  \<open>ustack\<close>), appending is correct with a settled cursor only, and unlinking inside \<open>UPKLIST_FOREACH\<close>
  keeps what the function \<open>survivors\<close> says.
\<close>

section \<open>Lists\<close>

type_synonym ptr = "nat option"

record 'a ulist =
  cells :: "nat \<Rightarrow> ('a \<times> ptr) option"
  fresh :: nat
  l_head :: ptr
  l_tail :: ptr
  prevp :: ptr
  nextp :: ptr
  thisp :: ptr
  l_count :: u32

text \<open>\<open>calloc\<close> of a metanode.\<close>

definition upklist_init :: "'a ulist" where
  "upklist_init = \<lparr>cells = (\<lambda>_. None), fresh = 0, l_head = None, l_tail = None, prevp = None,
     nextp = None, thisp = None, l_count = 0\<rparr>"

text \<open>\<open>p->next = n\<close> and reading the node at the cursor.\<close>

definition set_next :: "nat \<Rightarrow> ptr \<Rightarrow> 'a ulist \<Rightarrow> 'a ulist cres" where
  "set_next a n l =
     (case cells l a of None \<Rightarrow> Inl Use_after_free
      | Some (x, _) \<Rightarrow> Inr (l\<lparr>cells := (cells l)(a \<mapsto> (x, n))\<rparr>))"

definition nextnode :: "'a ulist \<Rightarrow> ptr cres" where
  "nextnode l =
     (case thisp l of None \<Rightarrow> Inr None
      | Some a \<Rightarrow> (case cells l a of None \<Rightarrow> Inl Use_after_free | Some (_, n) \<Rightarrow> Inr n))"

definition this_val :: "'a ulist \<Rightarrow> 'a cres" where
  "this_val l =
     (case thisp l of None \<Rightarrow> Inl Null_deref
      | Some a \<Rightarrow> (case cells l a of None \<Rightarrow> Inl Use_after_free | Some (x, _) \<Rightarrow> Inr x))"

definition set_this :: "'a \<Rightarrow> 'a ulist \<Rightarrow> 'a ulist cres" where
  "set_this x l =
     (case thisp l of None \<Rightarrow> Inl Null_deref
      | Some a \<Rightarrow> (case cells l a of None \<Rightarrow> Inl Use_after_free
          | Some (_, n) \<Rightarrow> Inr (l\<lparr>cells := (cells l)(a \<mapsto> (x, n))\<rparr>)))"

section \<open>Macros\<close>

text \<open>\<open>z\<close> is the zeroed content of a new node.\<close>

definition upklist_append_this :: "'a \<Rightarrow> 'a ulist \<Rightarrow> 'a ulist cres" where
  "upklist_append_this z l =
     (let a = fresh l;
          l = l\<lparr>cells := (cells l)(a \<mapsto> (z, nextp l)), fresh := a + 1\<rparr>;
          l = (if nextp l = None then l\<lparr>l_tail := Some a\<rparr> else l);
          l = (if prevp l = None \<and> l_count l = 0 then l\<lparr>l_head := Some a\<rparr> else l) in
      bind_c (case thisp l of None \<Rightarrow> Inr l | Some t \<Rightarrow> set_next t (Some a) l) (\<lambda>l.
      Inr (l\<lparr>l_count := l_count l + 1, thisp := Some a\<rparr>)))"

definition upklist_append :: "'a \<Rightarrow> 'a ulist \<Rightarrow> 'a ulist cres" where
  "upklist_append z l =
     bind_c (upklist_append_this z
       (l\<lparr>thisp := l_tail l, prevp := (if prevp l \<noteq> None then prevp l else l_head l)\<rparr>)) (\<lambda>l.
     Inr (l\<lparr>prevp := None\<rparr>))"

definition upklist_prepend_this :: "'a \<Rightarrow> 'a ulist \<Rightarrow> 'a ulist cres" where
  "upklist_prepend_this z l =
     (let a = fresh l;
          l = l\<lparr>cells := (cells l)(a \<mapsto> (z, thisp l)), fresh := a + 1\<rparr>;
          l = (if nextp l = None then l\<lparr>l_tail := Some a\<rparr> else l) in
      bind_c (case prevp l of None \<Rightarrow> Inr (l\<lparr>l_head := Some a\<rparr>) | Some p \<Rightarrow> set_next p (Some a) l) (\<lambda>l.
      Inr (l\<lparr>l_count := l_count l + 1, thisp := Some a\<rparr>)))"

definition upklist_prepend :: "'a \<Rightarrow> 'a ulist \<Rightarrow> 'a ulist cres" where
  "upklist_prepend z l = upklist_prepend_this z (l\<lparr>prevp := None, thisp := l_head l\<rparr>)"

definition foreach_init :: "'a ulist \<Rightarrow> 'a ulist cres" where
  "foreach_init l =
     (let l = l\<lparr>prevp := None, thisp := l_head l\<rparr> in
      bind_c (nextnode l) (\<lambda>n. Inr (l\<lparr>nextp := n\<rparr>)))"

definition foreach_continue :: "'a ulist \<Rightarrow> 'a ulist cres" where
  "foreach_continue l =
     (let l = l\<lparr>prevp := thisp l, thisp := nextp l\<rparr> in
      bind_c (nextnode l) (\<lambda>n. Inr (l\<lparr>nextp := n\<rparr>)))"

text \<open>The loop over a body that carries a state of its own; \<open>None\<close> is a loop that needs more turns.\<close>

fun foreach_loop ::
    "nat \<Rightarrow> ('s \<times> 'a ulist \<Rightarrow> ('s \<times> 'a ulist) cres) \<Rightarrow> 's \<times> 'a ulist \<Rightarrow> ('s \<times> 'a ulist) cres option" where
  "foreach_loop 0 body sl = None"
| "foreach_loop (Suc fuel) body sl =
     (if thisp (snd sl) = None then Some (Inr sl)
      else case bind_c (body sl) (\<lambda>(s, l). bind_c (foreach_continue l) (\<lambda>l. Inr (s, l))) of
        Inl e \<Rightarrow> Some (Inl e)
      | Inr sl \<Rightarrow> foreach_loop fuel body sl)"

definition upklist_foreach ::
    "nat \<Rightarrow> ('s \<times> 'a ulist \<Rightarrow> ('s \<times> 'a ulist) cres) \<Rightarrow> 's \<times> 'a ulist \<Rightarrow> ('s \<times> 'a ulist) cres option" where
  "upklist_foreach fuel body sl =
     (case foreach_init (snd sl) of Inl e \<Rightarrow> Some (Inl e)
      | Inr l \<Rightarrow> foreach_loop fuel body (fst sl, l))"

text \<open>\<open>UPKLIST_HEAD\<close> leaves the loop in its first turn, or finds the list empty.\<close>

definition upklist_head :: "'a ulist \<Rightarrow> 'a ulist cres" where
  "upklist_head = foreach_init"

definition upklist_unlink :: "'a ulist \<Rightarrow> 'a ulist cres" where
  "upklist_unlink l =
     (case thisp l of None \<Rightarrow> Inr l
      | Some a \<Rightarrow>
          bind_c (case prevp l of None \<Rightarrow> Inr (l\<lparr>l_head := nextp l\<rparr>) | Some p \<Rightarrow> set_next p (nextp l) l) (\<lambda>l.
          let l = (if nextp l = None then l\<lparr>l_tail := prevp l\<rparr> else l) in
          if cells l a = None then Inl Double_free
          else Inr (l\<lparr>cells := (cells l)(a := None), thisp := None, l_count := l_count l - 1\<rparr>)))"

text \<open>\<open>UPKLIST_FREE\<close>: the list without its metanode.\<close>

definition upklist_free :: "nat \<Rightarrow> 'a ulist \<Rightarrow> 'a ulist cres option" where
  "upklist_free fuel l =
     map_option (\<lambda>r. bind_c r (\<lambda>(_, l). Inr l))
       (upklist_foreach fuel (\<lambda>(s, l). bind_c (upklist_unlink l) (\<lambda>l. Inr (s, l))) ((), l))"

section \<open>Chains of nodes\<close>

text \<open>The nodes from one pointer up to another.\<close>

fun lseg :: "(nat \<Rightarrow> ('a \<times> ptr) option) \<Rightarrow> ptr \<Rightarrow> nat list \<Rightarrow> ptr \<Rightarrow> bool" where
  "lseg c p [] q \<longleftrightarrow> p = q"
| "lseg c p (a # as) q \<longleftrightarrow> p = Some a \<and> (case c a of None \<Rightarrow> False | Some (_, n) \<Rightarrow> lseg c n as q)"

definition val_at :: "'a ulist \<Rightarrow> nat \<Rightarrow> 'a" where
  "val_at l a = fst (the (cells l a))"

lemma lseg_append: "lseg c p (as @ bs) q \<longleftrightarrow> (\<exists>r. lseg c p as r \<and> lseg c r bs q)"
  by (induction as arbitrary: p) (auto split: option.split)

lemma lseg_update [simp]: "a \<notin> set as \<Longrightarrow> lseg (c(a := v)) p as q = lseg c p as q"
  by (induction as arbitrary: p) (auto split: option.split)

lemma lseg_dom: "lseg c p as q \<Longrightarrow> a \<in> set as \<Longrightarrow> c a \<noteq> None"
  by (induction as arbitrary: p) (auto split: option.splits)

lemma lseg_snoc:
  "lseg c p (as @ [t]) q \<longleftrightarrow> lseg c p as (Some t) \<and> (\<exists>x. c t = Some (x, q))"
  by (auto simp: lseg_append split: option.splits)

lemma lseg_hd: "lseg c p as None \<Longrightarrow> p = (if as = [] then None else Some (hd as))"
  by (cases as) (auto split: option.splits)

text \<open>A list whose nodes are \<open>as\<close>, and one whose last node is known as well.\<close>

definition ulist_ok :: "'a ulist \<Rightarrow> nat list \<Rightarrow> bool" where
  "ulist_ok l as \<longleftrightarrow> lseg (cells l) (l_head l) as None \<and> distinct as \<and> (\<forall>a\<in>set as. a < fresh l)"

definition tail_ok :: "'a ulist \<Rightarrow> nat list \<Rightarrow> bool" where
  "tail_ok l as \<longleftrightarrow> l_tail l = (if as = [] then None else Some (last as)) \<and> l_count l = of_nat (length as)"

lemma upklist_init_ok [simp]: "ulist_ok upklist_init []" "tail_ok upklist_init []"
  by (simp_all add: ulist_ok_def tail_ok_def upklist_init_def)

lemma upklist_init_sel [simp]: "nextp upklist_init = None" "prevp upklist_init = None"
  "thisp upklist_init = None" "l_head upklist_init = None" "l_count upklist_init = 0"
  "fresh upklist_init = 0"
  by (simp_all add: upklist_init_def)

text \<open>Appending behind the last node; the cursor must not point past the end of another walk.\<close>

lemma append_ok:
  assumes "ulist_ok l as" and "tail_ok l as" and "nextp l = None" and "as = [] \<Longrightarrow> prevp l = None"
  obtains l' where "upklist_append z l = Inr l'" and "ulist_ok l' (as @ [fresh l])"
    and "tail_ok l' (as @ [fresh l])" and "nextp l' = None" and "prevp l' = None"
    and "thisp l' = Some (fresh l)" and "val_at l' (fresh l) = z"
    and "\<forall>a\<in>set as. val_at l' a = val_at l a"
proof (cases as rule: rev_cases)
  case Nil
  then show thesis
    using assms
    by (intro that [of "the (case upklist_append z l of Inl _ \<Rightarrow> None | Inr l' \<Rightarrow> Some l')"])
      (auto simp: upklist_append_def upklist_append_this_def ulist_ok_def tail_ok_def val_at_def Let_def)
next
  case (snoc bs t)
  let ?a = "fresh l"
  have l: "lseg (cells l) (l_head l) bs (Some t)" "distinct (bs @ [t])" "\<forall>a\<in>set (bs @ [t]). a < ?a"
    "l_tail l = Some t" "l_count l = of_nat (length as)"
    using assms(1,2) snoc by (auto simp: ulist_ok_def tail_ok_def lseg_snoc)
  obtain x where x: "cells l t = Some (x, None)"
    using assms(1) snoc by (auto simp: ulist_ok_def lseg_snoc)
  have new: "?a \<noteq> t" "?a \<notin> set bs" "t \<notin> set bs" using l(2,3) by auto
  have head: "l_head l \<noteq> None"
    using assms(1) snoc by (auto simp: ulist_ok_def dest: lseg_hd)
  let ?l = "l\<lparr>cells := (cells l)(?a \<mapsto> (z, None), t \<mapsto> (x, Some ?a)), fresh := ?a + 1,
    l_tail := Some ?a, thisp := Some ?a, prevp := None, l_count := l_count l + 1\<rparr>"
  show thesis
  proof (rule that [of ?l])
    show "upklist_append z l = Inr ?l"
      using assms(3) l(4) x new head
      by (auto simp: upklist_append_def upklist_append_this_def set_next_def Let_def)
    show "ulist_ok ?l (as @ [?a])"
      using l new by (auto simp: ulist_ok_def snoc lseg_append)
    show "tail_ok ?l (as @ [?a])" using l by (simp add: tail_ok_def)
    show "\<forall>a\<in>set as. val_at ?l a = val_at l a"
      using l new x snoc by (auto simp: val_at_def)
  qed (use assms new in \<open>simp_all add: val_at_def\<close>)
qed


text \<open>A store into the node at the cursor keeps the chain.\<close>

lemma lseg_store: "c a = Some (y, n) \<Longrightarrow> lseg (c(a \<mapsto> (x, n))) p as q = lseg c p as q"
  by (induction as arbitrary: p) (auto split: option.split)

lemma set_this_ok:
  assumes "ulist_ok l as" and "tail_ok l as" and "thisp l = Some a" and "a \<in> set as"
  obtains l' where "set_this x l = Inr l'" and "ulist_ok l' as" and "tail_ok l' as" and "this_val l' = Inr x"
    and "val_at l' a = x" and "\<forall>b\<in>set as - {a}. val_at l' b = val_at l b" and "thisp l' = Some a"
    and "prevp l' = prevp l" and "nextp l' = nextp l" and "l_count l' = l_count l" and "fresh l' = fresh l"
proof -
  obtain y n where "cells l a = Some (y, n)"
    using assms(1,4) lseg_dom unfolding ulist_ok_def by fast
  then show thesis
    using assms by (intro that [of "l\<lparr>cells := (cells l)(a \<mapsto> (x, n))\<rparr>"])
      (auto simp: set_this_def ulist_ok_def tail_ok_def this_val_def val_at_def lseg_store)
qed

section \<open>The stack discipline\<close>

text \<open>The contents from the head on.  A stack is used through \<open>UPKLIST_PREPEND\<close>, and through
  \<open>UPKLIST_HEAD\<close> followed by \<open>UPKLIST_UNLINK\<close>; the tail pointer plays no part.\<close>

definition stack_ok :: "'a ulist \<Rightarrow> 'a list \<Rightarrow> bool" where
  "stack_ok l xs \<longleftrightarrow> (\<exists>as. ulist_ok l as \<and> xs = map (val_at l) as)"

definition upklist_push :: "'a \<Rightarrow> 'a \<Rightarrow> 'a ulist \<Rightarrow> 'a ulist cres" where
  "upklist_push z x l = bind_c (upklist_prepend z l) (set_this x)"

definition upklist_pop :: "'a ulist \<Rightarrow> 'a ulist cres" where
  "upklist_pop l = bind_c (upklist_head l) upklist_unlink"

definition upklist_top :: "'a ulist \<Rightarrow> 'a option" where
  "upklist_top l = (case l_head l of None \<Rightarrow> None | Some a \<Rightarrow> Some (val_at l a))"

locale ustack =
  fixes push :: "'x \<Rightarrow> 's \<Rightarrow> 's cres"
    and pop :: "'s \<Rightarrow> 's cres"
    and top :: "'s \<Rightarrow> 'x option"
    and holds :: "'s \<Rightarrow> 'x list \<Rightarrow> bool"
  assumes push_ok: "holds s xs \<Longrightarrow> \<exists>s'. push x s = Inr s' \<and> holds s' (x # xs)"
    and pop_ok: "holds s xs \<Longrightarrow> \<exists>s'. pop s = Inr s' \<and> holds s' (tl xs)"
    and top_ok: "holds s xs \<Longrightarrow> top s = (case xs of [] \<Rightarrow> None | x # _ \<Rightarrow> Some x)"
begin

text \<open>A nested exchange: what is pushed comes back in reverse, and as many pops restore the stack.\<close>

fun pushes :: "'x list \<Rightarrow> 's \<Rightarrow> 's cres" where
  "pushes [] s = Inr s"
| "pushes (x # xs) s = bind_c (push x s) (pushes xs)"

fun pops :: "nat \<Rightarrow> 's \<Rightarrow> 's cres" where
  "pops 0 s = Inr s"
| "pops (Suc n) s = bind_c (pop s) (pops n)"

lemma pushes_ok: "holds s ys \<Longrightarrow> \<exists>s'. pushes xs s = Inr s' \<and> holds s' (rev xs @ ys)"
proof (induction xs arbitrary: s ys)
  case (Cons x xs)
  from push_ok [OF Cons.prems, of x] obtain s1 where "push x s = Inr s1" "holds s1 (x # ys)" by blast
  with Cons.IH [of s1 "x # ys"] show ?case by simp
qed simp

lemma pops_ok: "holds s ys \<Longrightarrow> \<exists>s'. pops n s = Inr s' \<and> holds s' (drop n ys)"
proof (induction n arbitrary: s ys)
  case (Suc n)
  from pop_ok [OF Suc.prems] obtain s1 where "pop s = Inr s1" "holds s1 (tl ys)" by blast
  with Suc.IH [of s1 "tl ys"] show ?case by (simp add: drop_Suc)
qed simp

lemma balanced:
  assumes "holds s ys" and "pushes xs s = Inr s1"
  obtains s2 where "pops (length xs) s1 = Inr s2" and "holds s2 ys"
    and "top s1 = (case rev xs @ ys of [] \<Rightarrow> None | x # _ \<Rightarrow> Some x)"
  using pushes_ok [OF assms(1), of xs] assms(2) pops_ok [of s1 "rev xs @ ys" "length xs"]
    top_ok [of s1 "rev xs @ ys"] by auto

end

lemma push_ok:
  assumes "stack_ok l xs"
  shows "\<exists>l'. upklist_push z x l = Inr l' \<and> stack_ok l' (x # xs)"
proof -
  obtain as where as: "ulist_ok l as" "xs = map (val_at l) as"
    using assms by (auto simp: stack_ok_def)
  let ?a = "fresh l"
  have new: "?a \<notin> set as" using as(1) by (auto simp: ulist_ok_def)
  let ?l = "l\<lparr>cells := (cells l)(?a \<mapsto> (x, l_head l)), fresh := ?a + 1,
    l_tail := (if nextp l = None then Some ?a else l_tail l), l_head := Some ?a, thisp := Some ?a,
    prevp := None, l_count := l_count l + 1\<rparr>"
  have "upklist_push z x l = Inr ?l"
    by (simp add: upklist_push_def upklist_prepend_def upklist_prepend_this_def set_this_def Let_def)
  moreover have "ulist_ok ?l (?a # as)"
    using as(1) new by (auto simp: ulist_ok_def)
  moreover have "map (val_at ?l) (?a # as) = x # xs"
    using new by (auto simp: as(2) val_at_def)
  ultimately show ?thesis unfolding stack_ok_def by metis
qed

lemma pop_ok:
  assumes "stack_ok l xs"
  shows "\<exists>l'. upklist_pop l = Inr l' \<and> stack_ok l' (tl xs)"
proof -
  obtain as where as: "ulist_ok l as" "xs = map (val_at l) as"
    using assms by (auto simp: stack_ok_def)
  show ?thesis
  proof (cases as)
    case Nil
    let ?l = "l\<lparr>prevp := None, thisp := None, nextp := None\<rparr>"
    have "upklist_pop l = Inr ?l"
      using as(1) Nil by (simp add: upklist_pop_def upklist_head_def foreach_init_def nextnode_def
          upklist_unlink_def ulist_ok_def Let_def)
    moreover have "ulist_ok ?l []" using as(1) Nil by (simp add: ulist_ok_def)
    ultimately show ?thesis using as(2) Nil by (auto simp: stack_ok_def)
  next
    case (Cons a as')
    obtain y n where a: "l_head l = Some a" "cells l a = Some (y, n)" "lseg (cells l) n as' None"
      using as(1) Cons by (auto simp: ulist_ok_def split: option.splits)
    have new: "a \<notin> set as'" using as(1) Cons by (simp add: ulist_ok_def)
    let ?l = "l\<lparr>l_head := n, nextp := n, prevp := None,
      l_tail := (if n = None then None else l_tail l), cells := (cells l)(a := None), thisp := None,
      l_count := l_count l - 1\<rparr>"
    have "upklist_pop l = Inr ?l"
      using a by (simp add: upklist_pop_def upklist_head_def foreach_init_def nextnode_def
          upklist_unlink_def Let_def)
    moreover have "ulist_ok ?l as'" using as(1) Cons a new by (auto simp: ulist_ok_def)
    moreover have "map (val_at ?l) as' = tl xs"
      using new by (auto simp: as(2) Cons val_at_def)
    ultimately show ?thesis unfolding stack_ok_def by metis
  qed
qed

interpretation list_stack: ustack "upklist_push z" upklist_pop upklist_top stack_ok for z
proof
  fix l :: "'a ulist" and xs x
  assume l: "stack_ok l xs"
  show "\<exists>l'. upklist_push z x l = Inr l' \<and> stack_ok l' (x # xs)" by (rule push_ok [OF l])
  show "\<exists>l'. upklist_pop l = Inr l' \<and> stack_ok l' (tl xs)" by (rule pop_ok [OF l])
  show "upklist_top l = (case xs of [] \<Rightarrow> None | x # _ \<Rightarrow> Some x)"
  proof -
    obtain as where "ulist_ok l as" "xs = map (val_at l) as" using l by (auto simp: stack_ok_def)
    then show ?thesis by (cases as) (auto simp: ulist_ok_def upklist_top_def)
  qed
qed

section \<open>Unlinking inside a walk\<close>

text \<open>What a walk keeps that unlinks the nodes with \<open>P\<close>: a node unlinked right after another one is taken
  for the first of the list, so the nodes kept before it are lost.  \<open>d\<close> says that the walk has just
  unlinked a node or has just begun.\<close>

fun survivors :: "('a \<Rightarrow> bool) \<Rightarrow> bool \<Rightarrow> 'a list \<Rightarrow> 'a list \<Rightarrow> 'a list" where
  "survivors P d ks [] = ks"
| "survivors P d ks (x # xs) =
     (if P x then survivors P True (if d then [] else ks) xs else survivors P False (ks @ [x]) xs)"

fun no_pair :: "('a \<Rightarrow> bool) \<Rightarrow> 'a list \<Rightarrow> bool" where
  "no_pair P (x # y # xs) \<longleftrightarrow> \<not> (P x \<and> P y) \<and> no_pair P (y # xs)"
| "no_pair P _ \<longleftrightarrow> True"

lemma survivors_filter:
  "no_pair P xs \<Longrightarrow> d \<and> xs \<noteq> [] \<and> P (hd xs) \<longrightarrow> ks = [] \<Longrightarrow>
     survivors P d ks xs = ks @ filter (\<lambda>x. \<not> P x) xs"
proof (induction xs arbitrary: d ks)
  case (Cons x xs)
  have "no_pair P xs" "xs \<noteq> [] \<longrightarrow> \<not> (P x \<and> P (hd xs))"
    using Cons.prems(1) by (cases xs; simp)+
  with Cons.IH Cons.prems(2) show ?case by auto
qed simp

lemma survivors_all: "\<forall>x\<in>set xs. P x \<Longrightarrow> survivors P True [] xs = []"
  by (induction xs) simp_all

lemma survivors_cong:
  "(\<And>x. x \<in> set xs \<Longrightarrow> P x = Q x) \<Longrightarrow> survivors P d ks xs = survivors Q d ks xs"
  by (induction xs arbitrary: d ks) auto

lemma survivors_sub:
  "set (survivors P d ks xs) \<subseteq> set ks \<union> set xs \<and>
     (distinct (ks @ xs) \<longrightarrow> distinct (survivors P d ks xs))"
proof (induction xs arbitrary: d ks)
  case (Cons x xs)
  show ?case
    using Cons.IH [of True "if d then [] else ks"] Cons.IH [of False "ks @ [x]"]
    by (cases d; cases "P x") auto
qed simp

lemma survivors_keep:
  "\<forall>k\<in>set ks. \<not> P k \<Longrightarrow> x \<in> set (survivors P d ks xs) \<Longrightarrow> \<not> P x"
proof (induction xs arbitrary: d ks)
  case (Cons y xs)
  show ?case
    using Cons.prems Cons.IH [of "if d then [] else ks" True] Cons.IH [of "ks @ [y]" False]
    by (cases d; cases "P y") auto
qed simp

lemma survivors_map: "survivors P d (map f ks) (map f xs) = map f (survivors (P \<circ> f) d ks xs)"
proof (induction xs arbitrary: d ks)
  case (Cons x xs)
  show ?case
    using Cons.IH [of True "if d then [] else ks"] Cons.IH [of False "ks @ [x]"] by (cases d) auto
qed simp


text \<open>The body of such a walk: \<open>act\<close> is what is done with the content before the node goes.\<close>

fun fold_c :: "('s \<Rightarrow> 'a \<Rightarrow> 's cres) \<Rightarrow> 's \<Rightarrow> 'a list \<Rightarrow> 's cres" where
  "fold_c f s [] = Inr s"
| "fold_c f s (x # xs) = bind_c (f s x) (\<lambda>s. fold_c f s xs)"

definition unlink_where :: "('a \<Rightarrow> bool) \<Rightarrow> ('s \<Rightarrow> 'a \<Rightarrow> 's cres) \<Rightarrow> 's \<times> 'a ulist \<Rightarrow> ('s \<times> 'a ulist) cres" where
  "unlink_where P act = (\<lambda>(s, l).
     bind_c (this_val l) (\<lambda>x.
     if P x then bind_c (act s x) (\<lambda>s. bind_c (upklist_unlink l) (\<lambda>l. Inr (s, l)))
     else Inr (s, l)))"

text \<open>The state at the top of the loop: \<open>ks\<close> are the nodes before the cursor that are still reachable,
  \<open>as\<close> those to come.\<close>

definition walk :: "'a ulist \<Rightarrow> bool \<Rightarrow> nat list \<Rightarrow> nat list \<Rightarrow> bool" where
  "walk l d ks as \<longleftrightarrow>
     lseg (cells l) (l_head l) ks (thisp l) \<and> lseg (cells l) (thisp l) as None \<and> distinct (ks @ as) \<and>
     nextnode l = Inr (nextp l) \<and> prevp l = (if d then None else Some (last ks)) \<and> (d \<or> ks \<noteq> [])"

lemma nextnode_lseg: "lseg (cells l) (thisp l) as None \<Longrightarrow> \<exists>n. nextnode l = Inr n"
  by (cases as) (auto simp: nextnode_def split: option.splits)

lemma nextnode_nextp [simp]: "nextnode (l\<lparr>nextp := n\<rparr>) = nextnode l"
  by (simp add: nextnode_def cong: option.case_cong)

lemma continue_walk:
  assumes "lseg (cells l) (l_head l) ks (nextp l)" and "lseg (cells l) (nextp l) as None"
    and "distinct (ks @ as)" and "thisp l = (if d then None else Some (last ks))" and "d \<or> ks \<noteq> []"
  obtains l' where "foreach_continue l = Inr l'" and "walk l' d ks as" and "cells l' = cells l"
    and "fresh l' = fresh l"
proof -
  let ?l = "l\<lparr>prevp := thisp l, thisp := nextp l\<rparr>"
  have "lseg (cells ?l) (thisp ?l) as None" using assms(2) by simp
  then obtain n where "nextnode ?l = Inr n" using nextnode_lseg by blast
  then show thesis
    using assms by (intro that [of "?l\<lparr>nextp := n\<rparr>"])
      (simp_all add: foreach_continue_def walk_def Let_def)
qed

lemma walk_step:
  assumes "walk l d ks (a # as)" and "P (val_at l a) \<Longrightarrow> act s (val_at l a) = Inr s'"
    and "\<not> P (val_at l a) \<Longrightarrow> s' = s"
  obtains l' where
    "bind_c (unlink_where P act (s, l)) (\<lambda>(s, l). bind_c (foreach_continue l) (\<lambda>l. Inr (s, l))) = Inr (s', l')"
    and "walk l' (P (val_at l a)) (if P (val_at l a) then (if d then [] else ks) else ks @ [a]) as"
    and "P (val_at l a) \<longrightarrow> cells l' a = None"
    and "\<forall>b. (P (val_at l a) \<longrightarrow> b \<noteq> a) \<longrightarrow> map_option fst (cells l' b) = map_option fst (cells l b)"
    and "fresh l' = fresh l"
proof -
  obtain x where a: "thisp l = Some a" "cells l a = Some (x, nextp l)"
    and seg: "lseg (cells l) (l_head l) ks (Some a)" "lseg (cells l) (nextp l) as None"
      "distinct (ks @ a # as)" "prevp l = (if d then None else Some (last ks))" "d \<or> ks \<noteq> []"
    using assms(1) by (auto simp: walk_def nextnode_def split: option.splits)
  have x: "val_at l a = x" "this_val l = Inr x" using a by (simp_all add: val_at_def this_val_def)
  show thesis
  proof (cases "P x")
    case False
    have "lseg (cells l) (l_head l) (ks @ [a]) (nextp l)" using seg(1) a by (simp add: lseg_snoc)
    then obtain l' where "foreach_continue l = Inr l'" "walk l' False (ks @ [a]) as" "cells l' = cells l"
      "fresh l' = fresh l"
      by (rule continue_walk) (use seg a in auto)
    then show thesis
      using False x assms(3) by (intro that [of l']) (auto simp: unlink_where_def)
  next
    case True
    define ks' where "ks' = (if d then [] else ks)"
    define c where "c = (if d then cells l else (cells l)(last ks \<mapsto> (val_at l (last ks), nextp l)))"
    define l1 where "l1 = l\<lparr>l_head := (if d then nextp l else l_head l), cells := c(a := None),
      l_tail := (if nextp l = None then prevp l else l_tail l), thisp := None, l_count := l_count l - 1\<rparr>"
    have last: "ks \<noteq> [] \<Longrightarrow> last ks \<noteq> a \<and> last ks \<notin> set as" using seg(3) by (cases ks rule: rev_cases) auto
    have val: "cells l (last ks) = Some (val_at l (last ks), Some a)" if "\<not> d"
      using seg(1,5) that by (cases ks rule: rev_cases) (auto simp: lseg_snoc val_at_def)
    have un: "upklist_unlink l = Inr l1"
      using a seg(4) val last seg(5)
      by (auto simp: upklist_unlink_def l1_def c_def set_next_def Let_def)
    have "lseg (cells l1) (l_head l1) ks' (nextp l1)"
      using seg(1,3,5) val by (cases ks rule: rev_cases) (auto simp: l1_def c_def ks'_def lseg_snoc)
    moreover have "lseg (cells l1) (nextp l1) as None"
      using seg(2,3,5) last by (auto simp: l1_def c_def)
    moreover have "distinct (ks' @ as)" using seg(3) by (auto simp: ks'_def)
    ultimately obtain l' where l': "foreach_continue l1 = Inr l'" "walk l' True ks' as"
      "cells l' = cells l1" "fresh l' = fresh l1"
      by (rule continue_walk [of l1 ks' as True]) (auto simp: l1_def)
    have "map_option fst (cells l1 b) = map_option fst (cells l b)" if "b \<noteq> a" for b
      using that val by (auto simp: l1_def c_def)
    then show thesis
      using True x assms(2) un l'
      by (intro that [of l']) (auto simp: unlink_where_def ks'_def l1_def c_def)
  qed
qed


lemma val_at_cong: "map_option fst (cells l' a) = map_option fst (cells l a) \<Longrightarrow> val_at l' a = val_at l a"
  by (cases "cells l a"; cases "cells l' a") (simp_all add: val_at_def)

lemma walk_loop:
  assumes "walk l d ks as" and "length as < fuel"
    and "fold_c act s (filter P (map (val_at l) as)) = Inr s'"
  shows "\<exists>l'. foreach_loop fuel (unlink_where P act) (s, l) = Some (Inr (s', l')) \<and>
    lseg (cells l') (l_head l') (survivors (\<lambda>a. P (val_at l a)) d ks as) None \<and> fresh l' = fresh l \<and>
    (\<forall>a\<in>set as. P (val_at l a) \<longrightarrow> cells l' a = None) \<and>
    (\<forall>b. (b \<in> set as \<longrightarrow> \<not> P (val_at l b)) \<longrightarrow> map_option fst (cells l' b) = map_option fst (cells l b))"
  using assms
proof (induction fuel arbitrary: l d ks as s)
  case (Suc fuel)
  show ?case
  proof (cases as)
    case Nil
    then show ?thesis using Suc.prems by (auto simp: walk_def)
  next
    case (Cons a as')
    let ?P = "P (val_at l a)"
    obtain s1 where s1: "?P \<Longrightarrow> act s (val_at l a) = Inr s1" "\<not> ?P \<Longrightarrow> s1 = s"
      "fold_c act s1 (filter P (map (val_at l) as')) = Inr s'"
      using Suc.prems(3) Cons by (cases ?P) (auto simp: bind_c_Inr_iff)
    obtain l1 where l1:
      "bind_c (unlink_where P act (s, l)) (\<lambda>(s, l). bind_c (foreach_continue l) (\<lambda>l. Inr (s, l))) = Inr (s1, l1)"
      "walk l1 ?P (if ?P then (if d then [] else ks) else ks @ [a]) as'"
      "?P \<longrightarrow> cells l1 a = None"
      "\<forall>b. (?P \<longrightarrow> b \<noteq> a) \<longrightarrow> map_option fst (cells l1 b) = map_option fst (cells l b)"
      "fresh l1 = fresh l"
      by (rule walk_step [where P = P and act = act and s = s and s' = s1 and l = l and a = a, OF Suc.prems(1) [unfolded Cons] s1(1,2)])
    have dist: "a \<notin> set as'" using Suc.prems(1) Cons by (simp add: walk_def)
    then have vals: "\<And>b. b \<in> set as' \<Longrightarrow> val_at l1 b = val_at l b"
      using l1(4) by (metis val_at_cong)
    then have "map (val_at l1) as' = map (val_at l) as'"
      "survivors (\<lambda>a. P (val_at l1 a)) d' ks' as' = survivors (\<lambda>a. P (val_at l a)) d' ks' as'" for d' ks'
      by (auto intro: survivors_cong)
    with Suc.IH [OF l1(2), of s1] Suc.prems(2) Cons s1(3) obtain l' where l':
      "foreach_loop fuel (unlink_where P act) (s1, l1) = Some (Inr (s', l'))"
      "lseg (cells l') (l_head l')
        (survivors (\<lambda>a. P (val_at l a)) ?P (if ?P then (if d then [] else ks) else ks @ [a]) as') None"
      "fresh l' = fresh l1" "\<forall>a\<in>set as'. P (val_at l1 a) \<longrightarrow> cells l' a = None"
      "\<forall>b. (b \<in> set as' \<longrightarrow> \<not> P (val_at l1 b)) \<longrightarrow> map_option fst (cells l' b) = map_option fst (cells l1 b)"
      by auto
    have "thisp l \<noteq> None" using Suc.prems(1) Cons by (auto simp: walk_def)
    then have "foreach_loop (Suc fuel) (unlink_where P act) (s, l) = Some (Inr (s', l'))"
      using l1(1) l'(1) by auto
    moreover have "lseg (cells l') (l_head l') (survivors (\<lambda>a. P (val_at l a)) d ks as) None"
      using l'(2) Cons by (cases ?P) auto
    moreover have "cells l' b = None" if "b \<in> set as" "P (val_at l b)" for b
    proof (cases "b = a")
      case True
      then have "map_option fst (cells l' b) = map_option fst (cells l1 b)" using l'(5) dist by blast
      then show ?thesis using l1(3) that True by simp
    next
      case False
      then show ?thesis using that l'(4) vals Cons by auto
    qed
    moreover have "map_option fst (cells l' b) = map_option fst (cells l b)"
      if "b \<in> set as \<longrightarrow> \<not> P (val_at l b)" for b
    proof -
      have "b \<in> set as' \<longrightarrow> \<not> P (val_at l1 b)" using that vals Cons by simp
      then have "map_option fst (cells l' b) = map_option fst (cells l1 b)" using l'(5) by blast
      moreover have "?P \<longrightarrow> b \<noteq> a" using that Cons by auto
      ultimately show ?thesis using l1(4) by metis
    qed
    ultimately show ?thesis using l'(3) l1(5) by (intro exI [of _ l']) simp
  qed
qed simp

lemma foreach_unlink:
  assumes "ulist_ok l as" and "fold_c act s (filter P (map (val_at l) as)) = Inr s'"
  obtains l' where "upklist_foreach (Suc (length as)) (unlink_where P act) (s, l) = Some (Inr (s', l'))"
    and "ulist_ok l' (survivors (\<lambda>a. P (val_at l a)) True [] as)"
    and "\<forall>a\<in>set as. P (val_at l a) \<longrightarrow> cells l' a = None"
    and "\<forall>b. (b \<in> set as \<longrightarrow> \<not> P (val_at l b)) \<longrightarrow> map_option fst (cells l' b) = map_option fst (cells l b)"
proof -
  let ?l = "l\<lparr>prevp := None, thisp := l_head l\<rparr>"
  have "lseg (cells ?l) (thisp ?l) as None" using assms(1) by (simp add: ulist_ok_def)
  then obtain n where n: "nextnode ?l = Inr n" using nextnode_lseg by blast
  let ?l0 = "?l\<lparr>nextp := n\<rparr>"
  have init: "foreach_init l = Inr ?l0" using n by (simp add: foreach_init_def Let_def)
  have w: "walk ?l0 True [] as"
    using assms(1) n by (simp add: walk_def ulist_ok_def)
  have "map (val_at ?l0) as = map (val_at l) as" "val_at ?l0 = val_at l" by (auto simp: val_at_def)
  then obtain l' where l': "foreach_loop (Suc (length as)) (unlink_where P act) (s, ?l0) = Some (Inr (s', l'))"
    "lseg (cells l') (l_head l') (survivors (\<lambda>a. P (val_at l a)) True [] as) None" "fresh l' = fresh l"
    "\<forall>a\<in>set as. P (val_at l a) \<longrightarrow> cells l' a = None"
    "\<forall>b. (b \<in> set as \<longrightarrow> \<not> P (val_at l b)) \<longrightarrow> map_option fst (cells l' b) = map_option fst (cells l b)"
    using walk_loop [OF w, of "Suc (length as)" act s P s'] assms(2) by auto
  have "ulist_ok l' (survivors (\<lambda>a. P (val_at l a)) True [] as)"
    using l'(2,3) assms(1) survivors_sub [of "\<lambda>a. P (val_at l a)" True "[]" as]
    by (auto simp: ulist_ok_def)
  then show thesis
    using l' init by (intro that [of l']) (auto simp: upklist_foreach_def)
qed


text \<open>The same walk in terms of the contents.\<close>

lemma walk_contents:
  assumes "ulist_ok l as" and "fold_c act s (filter P (map (val_at l) as)) = Inr s'"
  shows "\<exists>l' bs. upklist_foreach (Suc (length as)) (unlink_where P act) (s, l) = Some (Inr (s', l')) \<and>
    ulist_ok l' bs \<and> map (val_at l') bs = survivors P True [] (map (val_at l) as) \<and>
    (if no_pair P (map (val_at l) as)
     then map (val_at l') bs = filter (\<lambda>x. \<not> P x) (map (val_at l) as) else True) \<and>
    {a. a \<in> set as \<and> cells l' a = None} = {a. a \<in> set as \<and> P (val_at l a)}"
proof -
  let ?bs = "survivors (\<lambda>a. P (val_at l a)) True [] as"
  obtain l' where l': "upklist_foreach (Suc (length as)) (unlink_where P act) (s, l) = Some (Inr (s', l'))"
    "ulist_ok l' ?bs" "\<forall>a\<in>set as. P (val_at l a) \<longrightarrow> cells l' a = None"
    "\<forall>b. (b \<in> set as \<longrightarrow> \<not> P (val_at l b)) \<longrightarrow> map_option fst (cells l' b) = map_option fst (cells l b)"
    using assms by (rule foreach_unlink)
  have "\<not> P (val_at l b)" if "b \<in> set ?bs" for b
    by (rule survivors_keep [of "[]" "\<lambda>a. P (val_at l a)", OF _ that]) simp
  then have "map (val_at l') ?bs = map (val_at l) ?bs"
    using l'(4) by (auto intro!: val_at_cong)
  then have surv: "map (val_at l') ?bs = survivors P True [] (map (val_at l) as)"
    using survivors_map [of P True "val_at l" "[]" as] by (simp add: comp_def)
  have "cells l' a = None \<longleftrightarrow> P (val_at l a)" if "a \<in> set as" for a
  proof (cases "P (val_at l a)")
    case False
    then have "map_option fst (cells l' a) = map_option fst (cells l a)" using l'(4) by blast
    moreover have "cells l a \<noteq> None" using assms(1) that lseg_dom by (auto simp: ulist_ok_def)
    ultimately show ?thesis using False by auto
  qed (use l'(3) that in simp)
  then show ?thesis
    using l'(1,2) surv survivors_filter [of P "map (val_at l) as" True "[]"]
    by (intro exI [of _ l'] exI [of _ ?bs]) (simp cong: conj_cong)
qed

text \<open>A walk in which a node cannot be dealt with.\<close>

lemma walk_loop_fault:
  assumes "walk l d ks as" and "length as < fuel"
    and "fold_c act s (filter P (map (val_at l) as)) = Inl e"
  shows "foreach_loop fuel (unlink_where P act) (s, l) = Some (Inl e)"
  using assms
proof (induction fuel arbitrary: l d ks as s)
  case (Suc fuel)
  then obtain a as' where as: "as = a # as'" by (cases as) auto
  then have a: "thisp l = Some a" "this_val l = Inr (val_at l a)"
    using Suc.prems(1) by (auto simp: walk_def this_val_def val_at_def split: option.splits)
  show ?case
  proof (cases "P (val_at l a) \<and> act s (val_at l a) = Inl e")
    case True
    then show ?thesis using a by (simp add: unlink_where_def)
  next
    case False
    then obtain s1 where s1: "P (val_at l a) \<Longrightarrow> act s (val_at l a) = Inr s1" "\<not> P (val_at l a) \<Longrightarrow> s1 = s"
      "fold_c act s1 (filter P (map (val_at l) as')) = Inl e"
      using Suc.prems(3) as by (cases "P (val_at l a)"; cases "act s (val_at l a)") auto
    obtain l1 where l1:
      "bind_c (unlink_where P act (s, l)) (\<lambda>(s, l). bind_c (foreach_continue l) (\<lambda>l. Inr (s, l))) = Inr (s1, l1)"
      "walk l1 (P (val_at l a)) (if P (val_at l a) then (if d then [] else ks) else ks @ [a]) as'"
      "\<forall>b. (P (val_at l a) \<longrightarrow> b \<noteq> a) \<longrightarrow> map_option fst (cells l1 b) = map_option fst (cells l b)"
      by (rule walk_step [where P = P and act = act and s = s and s' = s1 and l = l and a = a,
            OF Suc.prems(1) [unfolded as] s1(1,2)])
    have "a \<notin> set as'" using Suc.prems(1) as by (simp add: walk_def)
    then have same: "map (val_at l1) as' = map (val_at l) as'" using l1(3) by (auto intro!: val_at_cong)
    have "foreach_loop fuel (unlink_where P act) (s1, l1) = Some (Inl e)"
      by (rule Suc.IH [OF l1(2)]) (use Suc.prems(2) as s1(3) in \<open>simp_all only: same, simp\<close>)
    then show ?thesis using a(1) l1(1) by simp
  qed
qed simp

lemma foreach_unlink_fault:
  assumes "ulist_ok l as" and "fold_c act s (filter P (map (val_at l) as)) = Inl e"
  shows "upklist_foreach (Suc (length as)) (unlink_where P act) (s, l) = Some (Inl e)"
proof -
  let ?l = "l\<lparr>prevp := None, thisp := l_head l\<rparr>"
  have "lseg (cells ?l) (thisp ?l) as None" using assms(1) by (simp add: ulist_ok_def)
  then obtain n where n: "nextnode ?l = Inr n" using nextnode_lseg by blast
  then have init: "foreach_init l = Inr (?l\<lparr>nextp := n\<rparr>)" by (simp add: foreach_init_def Let_def)
  have w: "walk (?l\<lparr>nextp := n\<rparr>) True [] as" using assms(1) n by (simp add: walk_def ulist_ok_def)
  have "val_at (?l\<lparr>nextp := n\<rparr>) = val_at l" by (auto simp: val_at_def)
  then have "foreach_loop (Suc (length as)) (unlink_where P act) (s, ?l\<lparr>nextp := n\<rparr>) = Some (Inl e)"
    using walk_loop_fault [OF w, of "Suc (length as)" act s P e] assms(2) by simp
  then show ?thesis using init by (simp add: upklist_foreach_def)
qed

section \<open>Properties\<close>

text \<open>Exchanges nest: after any pushes on a callback or parser stack, the last one is on top, and as
  many pops succeed and leave the contents as they were.\<close>

theorem stack_balanced:
  assumes "stack_ok l xs"
  shows "\<exists>l1 l2. list_stack.pushes z ys l = Inr l1 \<and>
    upklist_top l1 = (case rev ys @ xs of [] \<Rightarrow> None | y # _ \<Rightarrow> Some y) \<and>
    list_stack.pops (length ys) l1 = Inr l2 \<and> stack_ok l2 xs"
proof -
  obtain l1 where l1: "list_stack.pushes z ys l = Inr l1"
    using list_stack.pushes_ok [OF assms, of z ys] by blast
  show ?thesis by (rule list_stack.balanced [OF assms l1]) (use l1 in blast)
qed

lemma stack_balanced_witness:
  "\<exists>l1 l2. list_stack.pushes 0 [1, 2] (upklist_init :: nat ulist) = Inr l1 \<and> upklist_top l1 = Some 2 \<and>
     list_stack.pops 2 l1 = Inr l2 \<and> stack_ok l2 []"
  using stack_balanced [of "upklist_init :: nat ulist" "[]" 0 "[1, 2]"]
  by (simp add: stack_ok_def numeral_2_eq_2)

text \<open>A list of four nodes.\<close>

definition sample_list :: "nat ulist" where
  "sample_list = \<lparr>cells = [0 \<mapsto> (10, Some 1), 1 \<mapsto> (0, Some 2), 2 \<mapsto> (0, Some 3), 3 \<mapsto> (13, None)],
     fresh = 4, l_head = Some 0, l_tail = Some 3, prevp = None, nextp = None, thisp = Some 3, l_count = 4\<rparr>"

lemma sample_list_ok: "ulist_ok sample_list [0, 1, 2, 3]" "map (val_at sample_list) [0, 1, 2, 3] = [10, 0, 0, 13]"
  by (simp_all add: sample_list_def ulist_ok_def val_at_def)

text \<open>Reading the content first makes no difference to a walk that succeeds.\<close>

lemma free_body:
  assumes "upklist_foreach n (unlink_where (\<lambda>_. True) (\<lambda>s x. Inr s)) ((), l) = Some (Inr ((), l'))"
  shows "upklist_free n l = Some (Inr l')"
proof -
  have body: "foreach_loop n (\<lambda>(s, l). bind_c (upklist_unlink l) (\<lambda>l. Inr (s, l))) sl = Some (Inr r)"
    if "foreach_loop n (unlink_where (\<lambda>_. True) (\<lambda>s x. Inr s)) sl = Some (Inr r)"
    for n r and sl :: "unit \<times> 'a ulist"
    using that
  proof (induction n arbitrary: sl)
    case (Suc n)
    obtain s l where sl: "sl = (s, l)" by (cases sl)
    show ?case
    proof (cases "thisp l")
      case (Some a)
      then obtain sl' where step: "bind_c (unlink_where (\<lambda>_. True) (\<lambda>s x. Inr s) sl)
          (\<lambda>(s, l). bind_c (foreach_continue l) (\<lambda>l. Inr (s, l))) = Inr sl'"
        and rest: "foreach_loop n (unlink_where (\<lambda>_. True) (\<lambda>s x. Inr s)) sl' = Some (Inr r)"
        using Suc.prems sl by (auto split: sum.splits)
      from step have "bind_c (bind_c (upklist_unlink l) (\<lambda>l. Inr (s, l)))
          (\<lambda>(s, l). bind_c (foreach_continue l) (\<lambda>l. Inr (s, l))) = Inr sl'"
        by (cases "this_val l") (simp_all add: unlink_where_def sl)
      then show ?thesis using Suc.IH [OF rest] sl Some by simp
    qed (use Suc.prems sl in auto)
  qed simp
  show ?thesis
    using assms body by (auto simp: upklist_free_def upklist_foreach_def split: sum.splits)
qed

text \<open>\<open>UPKLIST_FREE\<close> frees every node of a list exactly once and touches none after that, because every
  node but the first is unlinked right after another.\<close>

theorem free_all:
  assumes "ulist_ok l as"
  shows "\<exists>l'. upklist_free (Suc (length as)) l = Some (Inr l') \<and> l_head l' = None \<and>
    (\<forall>a\<in>set as. cells l' a = None)"
proof -
  have acts: "fold_c (\<lambda>s x. Inr s) () xs = Inr ()" for xs :: "'a list" by (induction xs) simp_all
  obtain l' where l': "upklist_foreach (Suc (length as)) (unlink_where (\<lambda>_. True) (\<lambda>s x. Inr s)) ((), l) =
      Some (Inr ((), l'))"
    "ulist_ok l' (survivors (\<lambda>_. True) True [] as)" "\<forall>a\<in>set as. cells l' a = None"
    by (rule foreach_unlink [where P = "\<lambda>_. True", OF assms acts]) blast
  have "survivors (\<lambda>_. True) True [] as = []" by (rule survivors_all) simp
  then have "l_head l' = None" using l'(2) by (simp add: ulist_ok_def)
  then show ?thesis using free_body [OF l'(1)] l'(3) by blast
qed

lemma free_all_witness: "\<exists>l'. upklist_free 5 sample_list = Some (Inr l') \<and> cells l' 2 = None"
  using free_all [OF sample_list_ok(1)] by (auto simp: eval_nat_numeral)


text \<open>Nodes appended to a fresh list, with no walk over it in between, are in the list in order.\<close>

theorem appends_in_order:
  "\<exists>l. foldl (\<lambda>r z. bind_c r (upklist_append z)) (Inr upklist_init) zs = Inr l \<and> stack_ok l zs"
proof -
  have "\<exists>l as. foldl (\<lambda>r z. bind_c r (upklist_append z)) (Inr upklist_init) zs = Inr l \<and>
    ulist_ok l as \<and> tail_ok l as \<and> nextp l = None \<and> prevp l = None \<and> map (val_at l) as = zs"
  proof (induction zs rule: rev_induct)
    case Nil
    show ?case by (intro exI [of _ upklist_init] exI [of _ "[]"]) simp
  next
    case (snoc z zs)
    then obtain l as where l: "foldl (\<lambda>r z. bind_c r (upklist_append z)) (Inr upklist_init) zs = Inr l"
      "ulist_ok l as" "tail_ok l as" "nextp l = None" "prevp l = None" "map (val_at l) as = zs"
      by blast
    obtain l' where "upklist_append z l = Inr l'" "ulist_ok l' (as @ [fresh l])"
      "tail_ok l' (as @ [fresh l])" "nextp l' = None" "prevp l' = None"
      "val_at l' (fresh l) = z" "\<forall>a\<in>set as. val_at l' a = val_at l a"
      by (rule append_ok [OF l(2-4), of z]) (use l(5) in blast)+
    with l show ?case
      by (intro exI [of _ l'] exI [of _ "as @ [fresh l]"]) auto
  qed
  then show ?thesis unfolding stack_ok_def by metis
qed

text \<open>Taking the first node off with \<open>UPKLIST_HEAD\<close> and \<open>UPKLIST_UNLINK\<close>, as the signal queue does,
  leaves the cursor on the next node; a node appended then is linked in front of it, the list becomes a
  cycle, and the third removal after that reads a freed node.\<close>

theorem queue_use_after_free:
  "foldl bind_c (Inr upklist_init)
     [upklist_append a, upklist_append b, upklist_pop, upklist_append c, upklist_pop, upklist_pop, upklist_pop] =
   Inl Use_after_free"
  by (simp add: upklist_append_def upklist_append_this_def upklist_pop_def upklist_head_def
      foreach_init_def upklist_unlink_def set_next_def nextnode_def upklist_init_def Let_def)

end
