(* ===== verification/Upk_Network.thy ===== *)
theory Upk_Network
  imports Upk_Create Upk_List
begin

text \<open>
  Connections, \<open>libupkeeper/upkeeper/upk_network.c\<close>: reading and writing packets on non-blocking sockets,
  the list of connections, and the stacks of message handlers.  A connection carries what the kernel
  will answer to the next calls of \<open>read\<close> (the chunks of the stream as they arrive) and \<open>write\<close> (how many
  bytes it takes), and the bytes it has written.  A callback is a code address of type \<open>'c\<close>; what a call
  does to the connections is a parameter of the functions that call one.
\<close>

section \<open>Types\<close>

text \<open>\<open>Rd_zero t\<close> is end of file, with \<open>errno\<close> one of the transient values if \<open>t\<close>; \<open>Rd_fail\<close> is the
  result -1.  The same for writing.\<close>

datatype rd = Rd_bytes bytes | Rd_zero bool | Rd_fail
datatype wr = Wr_bytes nat | Wr_zero bool | Wr_fail

record 'c netmsg =
  msg :: bytes
  msg_len :: u64
  n_bytes_written :: u64
  after_write_callback :: "'c option"

record 'c net_cb_stk =
  msg_handlers :: "'c option list"
  net_dispatch_pre :: "'c option"
  net_dispatch_foreach :: "'c option"
  net_dispatch_post :: "'c option"

record 'c conn =
  fd :: int
  version_id :: u32
  cl_name :: bytes
  readbuf :: bytes
  n_hdr_bytes_read :: u8
  n_remaining_read :: u64
  writeq :: "'c netmsg ulist"
  last_pkt_data :: "(u32 \<times> upk_payload) option"
  cb_stack :: "'c net_cb_stk ulist option"
  c_userdata :: ptr
  inbox :: "rd list"
  outcomes :: "wr list"
  wire :: bytes

text \<open>The metanode with the global state and the userdata shared by the connections; \<open>freed_data\<close> are the
  addresses of userdata given to \<open>free\<close>, and \<open>freed_states\<close> counts the states that were freed, each with its
  stack of callbacks, which are values inside the connection that owns them.\<close>

record 'c conns =
  handles :: "'c conn ulist"
  pending_writeq :: u64
  g_callback_stack :: "'c net_cb_stk ulist"
  g_userdata :: ptr
  freed_data :: "nat set"
  freed_states :: nat

type_synonym 'c runner = "'c \<Rightarrow> (u32 \<times> upk_payload) option \<Rightarrow> 'c conns \<Rightarrow> 'c conns cres"

definition TOTAL_N_MSG_TYPES :: nat where "TOTAL_N_MSG_TYPES = 20"

definition empty_cb_stk :: "'c net_cb_stk" where
  "empty_cb_stk = \<lparr>msg_handlers = replicate TOTAL_N_MSG_TYPES None, net_dispatch_pre = None,
     net_dispatch_foreach = None, net_dispatch_post = None\<rparr>"

definition empty_netmsg :: "'c netmsg" where
  "empty_netmsg = \<lparr>msg = replicate UPK_MAX_PACKET_SIZE 0, msg_len = 0, n_bytes_written = 0,
     after_write_callback = None\<rparr>"

definition empty_conn :: "'c conn" where
  "empty_conn = \<lparr>fd = 0, version_id = 0, cl_name = replicate UPK_MAX_STRING_LEN 0, readbuf = replicate UPK_MAX_PACKET_SIZE 0, n_hdr_bytes_read = 0,
     n_remaining_read = 0, writeq = upklist_init, last_pkt_data = None, cb_stack = None, c_userdata = None,
     inbox = [], outcomes = [], wire = []\<rparr>"

section \<open>System calls\<close>

text \<open>\<open>read\<close> of at most \<open>n\<close> bytes: the count as a \<open>size_t\<close>, the bytes, and whether \<open>errno\<close> is transient.
  What a chunk holds beyond \<open>n\<close> stays for the next call.  No chunk is \<open>EAGAIN\<close>.\<close>

definition sys_read :: "nat \<Rightarrow> 'c conn \<Rightarrow> u64 \<times> bytes \<times> bool \<times> 'c conn" where
  "sys_read n h =
     (case inbox h of
        [] \<Rightarrow> (- 1, [], True, h)
      | Rd_zero t # io \<Rightarrow> (0, [], t, h\<lparr>inbox := io\<rparr>)
      | Rd_fail # io \<Rightarrow> (- 1, [], True, h\<lparr>inbox := io\<rparr>)
      | Rd_bytes bs # io \<Rightarrow>
          (of_nat (length (take n bs)), take n bs, False,
           h\<lparr>inbox := (if length bs \<le> n then io else Rd_bytes (drop n bs) # io)\<rparr>))"

text \<open>\<open>memcpy\<close> into the read buffer, and \<open>write\<close> from an address inside a message.\<close>

definition store_at :: "nat \<Rightarrow> bytes \<Rightarrow> bytes \<Rightarrow> bytes cres" where
  "store_at i bs buf =
     (if i + length bs \<le> length buf then Inr (take i buf @ bs @ drop (i + length bs) buf) else Inl Oob_write)"

definition sys_write :: "bytes \<Rightarrow> u64 \<Rightarrow> u64 \<Rightarrow> 'c conn \<Rightarrow> (u64 \<times> bool \<times> 'c conn) cres" where
  "sys_write buf i n h =
     (case outcomes h of
        [] \<Rightarrow> Inr (- 1, True, h)
      | Wr_fail # io \<Rightarrow> Inr (- 1, True, h\<lparr>outcomes := io\<rparr>)
      | Wr_zero t # io \<Rightarrow> Inr (0, t, h\<lparr>outcomes := io\<rparr>)
      | Wr_bytes k # io \<Rightarrow>
          let k = min k (unat n) in
          if length buf < unat i + k then Inl Oob_read
          else Inr (of_nat k, False, h\<lparr>outcomes := io, wire := wire h @ take k (drop (unat i) buf)\<rparr>))"

section \<open>The current connection\<close>

definition this_conn :: "'c conns \<Rightarrow> 'c conn cres" where
  "this_conn hs = this_val (handles hs)"

definition set_conn :: "'c conn \<Rightarrow> 'c conns \<Rightarrow> 'c conns cres" where
  "set_conn h hs = bind_c (set_this h (handles hs)) (\<lambda>l. Inr (hs\<lparr>handles := l\<rparr>))"

text \<open>Through a pointer kept in a local variable, whatever a callback did to the cursor.\<close>

definition set_conn_at :: "nat \<Rightarrow> ('c conn \<Rightarrow> 'c conn) \<Rightarrow> 'c conns \<Rightarrow> 'c conns cres" where
  "set_conn_at a f hs =
     (case cells (handles hs) a of None \<Rightarrow> Inl Use_after_free
      | Some (h, n) \<Rightarrow> Inr (hs\<lparr>handles := (handles hs)\<lparr>cells := (cells (handles hs))(a \<mapsto> (f h, n))\<rparr>\<rparr>))"

definition close_conn :: "'c conn \<Rightarrow> 'c conn" where
  "close_conn h = h\<lparr>fd := - 2\<rparr>"

definition upk_disconnect_handle :: "'c conns \<Rightarrow> 'c conns cres" where
  "upk_disconnect_handle hs =
     (if thisp (handles hs) = None then Inr hs
      else bind_c (this_conn hs) (\<lambda>h. set_conn (close_conn h) hs))"

definition upk_net_shutdown_callback :: "'c conns \<Rightarrow> 'c conns cres" where
  "upk_net_shutdown_callback = upk_disconnect_handle"

section \<open>Reading\<close>

text \<open>\<open>n_read < 1\<close> on a \<open>size_t\<close>: a result of -1 counts as a long read.  The flag says whether to go on.\<close>

definition read_header :: "'c conn \<Rightarrow> (bool \<times> 'c conn) cres" where
  "read_header h =
     (if n_remaining_read h = 0 \<and> unat (n_hdr_bytes_read h) < UPK_PACKET_HEADER_LEN then
        let (n, bs, _, h) = sys_read (UPK_PACKET_HEADER_LEN - unat (n_hdr_bytes_read h)) h in
        if n < 1 then Inr (False, close_conn h)
        else bind_c (store_at 0 bs (readbuf h)) (\<lambda>buf.
          Inr (True, h\<lparr>readbuf := buf, n_hdr_bytes_read := n_hdr_bytes_read h + ucast n\<rparr>))
      else Inr (True, h))"

definition check_header :: "'c conn \<Rightarrow> bool \<times> 'c conn" where
  "check_header h =
     (if n_remaining_read h = 0 \<and> unat (n_hdr_bytes_read h) = UPK_PACKET_HEADER_LEN then
        let payload_len = of_be32 (take 4 (readbuf h));
            version_id = of_be32 (take 4 (drop 4 (readbuf h)));
            h = h\<lparr>n_hdr_bytes_read := 0\<rparr> in
        if \<not> (UPK_MIN_SUPPORTED_PROTO \<le> version_id \<and> version_id \<le> UPK_MAX_SUPPORTED_PROTO)
        then (False, close_conn h)
        else if UPK_MAX_PACKET_SIZE < unat payload_len then (False, close_conn h)
        else (True, h\<lparr>n_remaining_read := ucast payload_len + of_nat UPK_PACKET_FOOTER_LEN\<rparr>)
      else (True, h))"

text \<open>The flag says whether the packet is complete.\<close>

definition read_body :: "'c conn \<Rightarrow> (bool \<times> 'c conn) cres" where
  "read_body h =
     (if 0 < n_remaining_read h then
        let (n, bs, transient, h) = sys_read (unat (n_remaining_read h)) h in
        if n < 1 \<and> \<not> transient then Inr (False, close_conn h)
        else bind_c (store_at UPK_PACKET_HEADER_LEN bs (readbuf h)) (\<lambda>buf.
          let h = h\<lparr>readbuf := buf, n_remaining_read := n_remaining_read h - n\<rparr> in
          Inr (n_remaining_read h = 0, h))
      else Inr (False, h))"

definition receive :: "'c conn \<Rightarrow> (bool \<times> 'c conn) cres" where
  "receive h =
     bind_c (read_header h) (\<lambda>(go, h). if go then
       (case check_header h of (go, h) \<Rightarrow> if go then read_body h else Inr (False, h))
     else Inr (False, h))"

text \<open>The handler of a message type; the index comes from the packet.\<close>

definition handler_of :: "'c net_cb_stk \<Rightarrow> u32 \<Rightarrow> 'c option cres" where
  "handler_of s t =
     (if unat (UPK_MSGTYPE_IDX t) < length (msg_handlers s)
      then Inr (msg_handlers s ! unat (UPK_MSGTYPE_IDX t)) else Inl Oob_read)"

definition upk_call_received_packet_callbacks ::
    "'c runner \<Rightarrow> upk_packet \<Rightarrow> 'c conns \<Rightarrow> 'c conns cres" where
  "upk_call_received_packet_callbacks run pkt hs =
     bind_c (this_conn hs) (\<lambda>h.
     bind_c (upk_get_msgtype pkt) (\<lambda>t.
     case pkt_payload pkt of None \<Rightarrow> Inl Null_deref
     | Some d \<Rightarrow>
         bind_c (set_conn (h\<lparr>last_pkt_data := Some (t, d)\<rparr>) hs) (\<lambda>hs.
         case Option.bind (cb_stack h) upklist_top of
           None \<Rightarrow> Inr hs
         | Some s \<Rightarrow> bind_c (handler_of s t) (\<lambda>cb.
             case cb of None \<Rightarrow> Inr hs | Some c \<Rightarrow> run c (Some (t, d)) hs))))"

definition upk_read_packets :: "'c runner \<Rightarrow> 'c conns \<Rightarrow> 'c conns cres" where
  "upk_read_packets run hs =
     (case thisp (handles hs) of None \<Rightarrow> Inr hs
      | Some a \<Rightarrow>
          bind_c (this_conn hs) (\<lambda>h.
          if fd h < 0 then Inr hs
          else bind_c (receive h) (\<lambda>(complete, h).
            bind_c (set_conn h hs) (\<lambda>hs.
            if complete then
              bind_c (upk_deserialize_packet (readbuf h)) (\<lambda>(pkt, _).
              bind_c (case pkt of
                  Pkt_null \<Rightarrow> Inr hs
                | Pkt_freed \<Rightarrow> Inl Use_after_free
                | Pkt_live p \<Rightarrow> upk_call_received_packet_callbacks run p hs) (\<lambda>hs.
              set_conn_at a (\<lambda>h. h\<lparr>readbuf := replicate (length (readbuf h)) 0\<rparr>) hs))
            else Inr hs))))"

section \<open>Writing\<close>

text \<open>Queueing serializes into a buffer as long as \<open>msg\<close> can hold and no longer.\<close>

definition queue_message :: "upk_packet \<Rightarrow> 'c option \<Rightarrow> 'c conn \<Rightarrow> 'c conn cres" where
  "queue_message pkt cb h =
     bind_c (upklist_append empty_netmsg (writeq h)) (\<lambda>q.
     let len = ucast (of_nat UPK_PACKET_HEADER_LEN + pkt_payload_len pkt + of_nat UPK_PACKET_FOOTER_LEN) in
     bind_c (upk_serialize_packet pkt) (\<lambda>(_, buf).
     bind_c (if length buf < unat len then Inl Oob_read
             else store_at 0 (take (unat len) buf) (msg (empty_netmsg :: 'c netmsg))) (\<lambda>m.
     bind_c (set_this \<lparr>msg = m, msg_len = len, n_bytes_written = 0, after_write_callback = cb\<rparr> q) (\<lambda>q.
     Inr (h\<lparr>writeq := q\<rparr>)))))"

definition upk_queue_packet :: "nat \<Rightarrow> upk_packet \<Rightarrow> 'c option \<Rightarrow> 'c conns \<Rightarrow> 'c conns cres" where
  "upk_queue_packet a pkt cb hs =
     (case cells (handles hs) a of None \<Rightarrow> Inl Use_after_free
      | Some (h, _) \<Rightarrow>
          bind_c (queue_message pkt cb h) (\<lambda>h.
          set_conn_at a (\<lambda>_. h) (hs\<lparr>pending_writeq := pending_writeq hs + 1\<rparr>)))"

text \<open>One call of \<open>write\<close>: whether the message at the cursor is done.  The counts are \<open>size_t\<close>, so -1
  lowers the number of bytes written by one.\<close>

definition send_some :: "'c conn \<Rightarrow> (bool \<times> 'c conn) cres" where
  "send_some h =
     (if l_count (writeq h) < 1 \<or> thisp (writeq h) = None then Inr (False, h)
      else bind_c (this_val (writeq h)) (\<lambda>m.
        if 0 < msg_len m - n_bytes_written m then
          bind_c (sys_write (msg m) (n_bytes_written m) (msg_len m - n_bytes_written m) h) (\<lambda>(n, transient, h).
          if n < 1 \<and> \<not> transient then Inr (False, close_conn h)
          else let m = m\<lparr>n_bytes_written := n_bytes_written m + n\<rparr> in
            bind_c (set_this m (writeq h)) (\<lambda>q.
            Inr (n_bytes_written m = msg_len m, h\<lparr>writeq := q\<rparr>)))
        else Inr (False, h)))"

text \<open>Dropping the message at the cursor.\<close>

definition dequeue_message :: "'c conn \<Rightarrow> 'c conn cres" where
  "dequeue_message h = bind_c (upklist_unlink (writeq h)) (\<lambda>q. Inr (h\<lparr>writeq := q\<rparr>))"

definition upk_write_packets :: "'c runner \<Rightarrow> 'c conns \<Rightarrow> 'c conns cres" where
  "upk_write_packets run hs =
     (case thisp (handles hs) of None \<Rightarrow> Inl Null_deref
      | Some a \<Rightarrow>
          bind_c (this_conn hs) (\<lambda>h.
          if fd h < 0 then Inr hs
          else bind_c (send_some h) (\<lambda>(finished, h).
            bind_c (set_conn h hs) (\<lambda>hs.
            if finished then
              bind_c (this_val (writeq h)) (\<lambda>m.
              bind_c (case after_write_callback m of None \<Rightarrow> Inr hs | Some c \<Rightarrow> run c None hs) (\<lambda>hs.
              case cells (handles hs) a of None \<Rightarrow> Inl Use_after_free
              | Some (h, _) \<Rightarrow>
                  bind_c (dequeue_message h) (\<lambda>h.
                  set_conn_at a (\<lambda>_. h) (hs\<lparr>pending_writeq := pending_writeq hs - 1\<rparr>))))
            else Inr hs))))"

section \<open>The list of connections\<close>

definition upk_callback_stack_push :: "'c net_cb_stk \<Rightarrow> 'c conn \<Rightarrow> 'c conn cres" where
  "upk_callback_stack_push s h =
     (case cb_stack h of None \<Rightarrow> Inl Null_deref
      | Some st \<Rightarrow> bind_c (upklist_push empty_cb_stk s st) (\<lambda>st. Inr (h\<lparr>cb_stack := Some st\<rparr>)))"

definition upk_callback_stack_pop :: "'c conn \<Rightarrow> 'c conn cres" where
  "upk_callback_stack_pop h =
     (case cb_stack h of None \<Rightarrow> Inl Null_deref
      | Some st \<Rightarrow> bind_c (upklist_pop st) (\<lambda>st. Inr (h\<lparr>cb_stack := Some st\<rparr>)))"

definition upk_net_conn_handles_init :: "ptr \<Rightarrow> 'c conns" where
  "upk_net_conn_handles_init userdata =
     \<lparr>handles = upklist_init, pending_writeq = 0, g_callback_stack = upklist_init, g_userdata = userdata,
      freed_data = {}, freed_states = 0\<rparr>"

text \<open>\<open>sockopts\<close> is the answer of \<open>fcntl\<close>; the answers of \<open>read\<close> and \<open>write\<close> on the new socket are open.\<close>

definition upk_net_add_socket_handle ::
    "rd list \<Rightarrow> wr list \<Rightarrow> int \<Rightarrow> int \<Rightarrow> 'c conns \<Rightarrow> (bool \<times> 'c conns) cres" where
  "upk_net_add_socket_handle rs ws sockopts s hs =
     (if 0 < s \<and> sockopts \<noteq> 0 then
        bind_c (upklist_append empty_conn (handles hs)) (\<lambda>l.
        let h = empty_conn\<lparr>c_userdata := g_userdata hs, cb_stack := Some upklist_init, inbox := rs, outcomes := ws\<rparr> in
        bind_c (case upklist_top (g_callback_stack hs) of None \<Rightarrow> Inr h
                | Some st \<Rightarrow> upk_callback_stack_push st h) (\<lambda>h.
        bind_c (set_this (h\<lparr>fd := s\<rparr>) l) (\<lambda>l. Inr (True, hs\<lparr>handles := l\<rparr>))))
      else Inr (False, hs))"

text \<open>The userdata of a closed connection is freed, then its state with the stack of callbacks;
  \<open>userdata_free_func\<close> is never set on a connection.\<close>

definition free_conn_data :: "nat set \<times> nat \<Rightarrow> 'c conn \<Rightarrow> (nat set \<times> nat) cres" where
  "free_conn_data s h =
     bind_c (case c_userdata h of None \<Rightarrow> Inr (fst s)
       | Some p \<Rightarrow> if p \<in> fst s then Inl Double_free else Inr (insert p (fst s))) (\<lambda>freed.
     Inr (freed, if cb_stack h = None then snd s else snd s + 1))"

definition closed :: "'c conn \<Rightarrow> bool" where
  "closed h \<longleftrightarrow> fd h < 0"

definition upk_net_flush_closed_sockets :: "nat \<Rightarrow> 'c conns \<Rightarrow> 'c conns cres option" where
  "upk_net_flush_closed_sockets fuel hs =
     map_option (\<lambda>r. bind_c r (\<lambda>((freed, n), l). Inr (hs\<lparr>handles := l, freed_data := freed, freed_states := n\<rparr>)))
       (upklist_foreach fuel (unlink_where closed free_conn_data) ((freed_data hs, freed_states hs), handles hs))"


section \<open>Receiving a frame\<close>

text \<open>A frame is the header, the payload and the checksum.\<close>

definition idle :: "'c conn \<Rightarrow> bool" where
  "idle h \<longleftrightarrow> n_hdr_bytes_read h = 0 \<and> n_remaining_read h = 0 \<and> length (readbuf h) = UPK_MAX_PACKET_SIZE"

lemma packet_header_words:
  "of_be32 (take 4 (packet_header pkt @ xs)) = pkt_payload_len pkt"
  "of_be32 (take 4 (drop 4 (packet_header pkt @ xs))) = pkt_version_id pkt"
  by (simp_all add: packet_header_def put_uint32_def)

lemma unat_ucast_u64: "unat (ucast (w :: u32) :: u64) = unat w"
  using unsigned_less [where 'a = nat, of w]
  by (simp add: unsigned_ucast_eq take_bit_nat_eq_self)

lemma unat_of_nat_u64: "n < 2 ^ 64 \<Longrightarrow> unat (of_nat n :: u64) = n"
  by (simp add: unat_of_nat take_bit_nat_eq_self)

text \<open>The header is in the buffer and valid: the rest arrives at once.\<close>

lemma check_and_read_body:
  assumes "readbuf h = packet_header pkt @ old" and "length old + UPK_PACKET_HEADER_LEN = UPK_MAX_PACKET_SIZE"
    and "n_hdr_bytes_read h = 16" and "n_remaining_read h = 0" and "pkt_version_id pkt = 0"
    and "length body = unat (pkt_payload_len pkt) + UPK_PACKET_FOOTER_LEN" and "inbox h = Rd_bytes body # io"
  shows "(case check_header h of (go, h) \<Rightarrow> if go then read_body h else Inr (False, h)) =
    (if UPK_MAX_PACKET_SIZE < unat (pkt_payload_len pkt) then Inr (False, close_conn (h\<lparr>n_hdr_bytes_read := 0\<rparr>))
     else if UPK_MAX_PACKET_SIZE < UPK_PACKET_HEADER_LEN + length body then Inl Oob_write
     else Inr (True, h\<lparr>n_hdr_bytes_read := 0, n_remaining_read := 0, inbox := io,
       readbuf := packet_header pkt @ body @ drop (length body) old\<rparr>))"
proof -
  have words: "of_be32 (take 4 (readbuf h)) = pkt_payload_len pkt"
    "of_be32 (take 4 (drop 4 (readbuf h))) = pkt_version_id pkt"
    unfolding assms(1) by (rule packet_header_words)+
  show ?thesis
  proof (cases "UPK_MAX_PACKET_SIZE < unat (pkt_payload_len pkt)")
    case True
    then show ?thesis
      using assms(3-5) words by (simp add: check_header_def packet_consts Let_def)
  next
    case False
    define n :: u64 where "n = ucast (pkt_payload_len pkt) + 4"
    have n: "unat n = length body"
      using False assms(6) unat_ucast_u64 [of "pkt_payload_len pkt"]
      by (simp add: n_def unat_word_ariths UPK_MAX_PACKET_SIZE_def packet_consts)
    then have of_n: "of_nat (length body) = n" by (metis of_nat_unat ucast_id)
    have pos: "0 < n" "\<not> n < 1" using n assms(6) by (simp_all add: word_less_nat_alt packet_consts)
    let ?h = "h\<lparr>n_hdr_bytes_read := 0, n_remaining_read := n\<rparr>"
    have "check_header h = (True, ?h)"
      using False assms(3-5) words by (simp add: check_header_def packet_consts n_def Let_def)
    moreover have "sys_read (unat n) ?h = (n, body, False, ?h\<lparr>inbox := io\<rparr>)"
      using assms(7) n of_n by (simp add: sys_read_def)
    ultimately show ?thesis
      using False assms(2,3,4) pos by (simp add: read_body_def store_at_def assms(1) packet_consts)
  qed
qed

text \<open>A frame whose header and body arrive as two chunks, or as one.\<close>

lemma receive_frame:
  assumes "idle h" and "pkt_version_id pkt = 0"
    and "length body = unat (pkt_payload_len pkt) + UPK_PACKET_FOOTER_LEN"
    and "inbox h = Rd_bytes (packet_header pkt) # Rd_bytes body # io \<or>
      inbox h = Rd_bytes (packet_header pkt @ body) # io"
  shows "receive h =
    (if UPK_MAX_PACKET_SIZE < unat (pkt_payload_len pkt)
     then Inr (False, close_conn (h\<lparr>readbuf := packet_header pkt @ drop UPK_PACKET_HEADER_LEN (readbuf h),
       inbox := Rd_bytes body # io\<rparr>))
     else if UPK_MAX_PACKET_SIZE < UPK_PACKET_HEADER_LEN + length body then Inl Oob_write
     else Inr (True, h\<lparr>inbox := io, readbuf := packet_header pkt @ body @
       drop (UPK_PACKET_HEADER_LEN + length body) (readbuf h)\<rparr>))"
proof -
  let ?h = "h\<lparr>inbox := Rd_bytes body # io, readbuf := packet_header pkt @ drop 16 (readbuf h),
    n_hdr_bytes_read := 16\<rparr>"
  have len: "length (packet_header pkt) = 16" by (simp add: packet_consts)
  have hdr: "read_header h = Inr (True, ?h)"
    using assms(1,3,4) len
    by (auto simp: read_header_def sys_read_def store_at_def idle_def packet_consts
        UPK_MAX_PACKET_SIZE_def Let_def)
  have "receive h = (case check_header ?h of (go, h) \<Rightarrow> if go then read_body h else Inr (False, h))"
    by (simp add: receive_def hdr)
  also have "\<dots> = (if UPK_MAX_PACKET_SIZE < unat (pkt_payload_len pkt) then Inr (False, close_conn (?h\<lparr>n_hdr_bytes_read := 0\<rparr>))
     else if UPK_MAX_PACKET_SIZE < UPK_PACKET_HEADER_LEN + length body then Inl Oob_write
     else Inr (True, ?h\<lparr>n_hdr_bytes_read := 0, n_remaining_read := 0, inbox := io,
       readbuf := packet_header pkt @ body @ drop (length body) (drop 16 (readbuf h))\<rparr>))"
    by (rule check_and_read_body)
      (use assms(1-3) in \<open>auto simp: idle_def packet_consts UPK_MAX_PACKET_SIZE_def\<close>)
  finally show ?thesis
    using assms(1) by (cases h) (simp add: idle_def close_conn_def packet_consts add.commute)
qed


section \<open>Writing a message\<close>

text \<open>Calls of \<open>upk_write_packets\<close> without callbacks, as far as the connection goes, and calls of
  \<open>upk_read_packets\<close> up to the first complete packet.\<close>

fun writes :: "nat \<Rightarrow> 'c conn \<Rightarrow> 'c conn cres" where
  "writes 0 h = Inr h"
| "writes (Suc n) h = bind_c (send_some h) (\<lambda>(finished, h).
     bind_c (if finished then dequeue_message h else Inr h) (writes n))"

lemma writes_0 [simp]: "writes 0 = Inr"
  by (rule ext) simp

fun receives :: "nat \<Rightarrow> 'c conn \<Rightarrow> (bool \<times> 'c conn) cres" where
  "receives 0 h = Inr (False, h)"
| "receives (Suc n) h = bind_c (receive h) (\<lambda>(complete, h). if complete then Inr (True, h) else receives n h)"

text \<open>The message at the cursor of the queue.\<close>

definition writing :: "'c conn \<Rightarrow> 'c netmsg \<Rightarrow> bool" where
  "writing h m \<longleftrightarrow> \<not> l_count (writeq h) < 1 \<and> this_val (writeq h) = Inr m"

lemma writingI: "this_val q = Inr m \<Longrightarrow> l_count q \<noteq> 0 \<Longrightarrow> writing (h\<lparr>writeq := q\<rparr>) m"
  by (simp add: writing_def word_less_nat_alt unat_eq_0 flip: word_neq_0_conv)

lemma set_this_val:
  assumes "this_val q = Inr m"
  obtains q' where "set_this x q = Inr q'" and "this_val q' = Inr x" and "l_count q' = l_count q"
    and "thisp q' = thisp q" and "l_head q' = l_head q" and "nextp q' = nextp q" and "prevp q' = prevp q"
    and "l_tail q' = l_tail q"
  using assms
  by (auto simp: this_val_def set_this_def intro!: that split: option.splits)

lemma send_step:
  assumes "writing h m" and "outcomes h = Wr_bytes k # io"
    and "unat (n_bytes_written m) < unat (msg_len m)" and "unat (msg_len m) \<le> length (msg m)"
    and "0 < k" and "k \<le> unat (msg_len m) - unat (n_bytes_written m)"
  obtains q where "send_some h = Inr (unat (n_bytes_written m) + k = unat (msg_len m),
      h\<lparr>outcomes := io, wire := wire h @ take k (drop (unat (n_bytes_written m)) (msg m)), writeq := q\<rparr>)"
    and "writing (h\<lparr>outcomes := io, wire := wire h @ take k (drop (unat (n_bytes_written m)) (msg m)), writeq := q\<rparr>)
      (m\<lparr>n_bytes_written := n_bytes_written m + of_nat k\<rparr>)"
    and "unat (n_bytes_written m + of_nat k) = unat (n_bytes_written m) + k"
    and "l_count q = l_count (writeq h)" and "thisp q = thisp (writeq h)" and "nextp q = nextp (writeq h)"
    and "prevp q = prevp (writeq h)" and "l_head q = l_head (writeq h)"
proof -
  let ?w = "n_bytes_written m" and ?len = "msg_len m"
  have cur_m: "this_val (writeq h) = Inr m" "\<not> l_count (writeq h) < 1" using assms(1) by (simp_all add: writing_def)
  then have cur: "thisp (writeq h) \<noteq> None" by (auto simp: this_val_def split: option.splits)
  obtain q where q: "set_this (m\<lparr>n_bytes_written := ?w + of_nat k\<rparr>) (writeq h) = Inr q"
    "this_val q = Inr (m\<lparr>n_bytes_written := ?w + of_nat k\<rparr>)" "l_count q = l_count (writeq h)"
    "thisp q = thisp (writeq h)" "l_head q = l_head (writeq h)" "nextp q = nextp (writeq h)"
    "prevp q = prevp (writeq h)"
    using cur_m(1) by (rule set_this_val)
  have lt: "unat ?len < 2 ^ 64" using unsigned_less [where 'a = nat, of ?len] by simp
  have k: "unat (of_nat k :: u64) = k"
    using assms(6) lt by (intro unat_of_nat_u64) simp
  have sum: "unat (?w + of_nat k) = unat ?w + k"
    using k assms(3,6) lt by (simp add: unat_word_ariths)
  have diff: "unat (?len - ?w) = unat ?len - unat ?w"
    using assms(3) by (simp add: unat_sub_if')
  have pos: "0 < ?len - ?w" "\<not> (of_nat k :: u64) < 1"
    using assms(3,5) diff k by (simp_all add: word_less_nat_alt)
  have fin: "?w + of_nat k = ?len \<longleftrightarrow> unat ?w + k = unat ?len"
    using sum by (simp add: word_eq_iff_unsigned [where 'a = nat])
  have "sys_write (msg m) ?w (?len - ?w) h =
      Inr (of_nat k, False, h\<lparr>outcomes := io, wire := wire h @ take k (drop (unat ?w) (msg m))\<rparr>)"
    using assms(2,3,4,6) diff by (simp add: sys_write_def min_absorb1 Let_def)
  then have "send_some h = Inr (unat ?w + k = unat ?len,
      h\<lparr>outcomes := io, wire := wire h @ take k (drop (unat ?w) (msg m)), writeq := q\<rparr>)"
    using cur_m cur pos q(1) fin by (auto simp: send_some_def Let_def)
  then show thesis
    by (rule that) (use q cur_m sum in \<open>simp_all add: writing_def\<close>)
qed


lemma writes_all:
  assumes "writing h m" and "outcomes h = map Wr_bytes ks @ io" and "\<forall>k\<in>set ks. 0 < k"
    and "unat (n_bytes_written m) + sum_list ks = unat (msg_len m)" and "ks \<noteq> []"
    and "unat (msg_len m) \<le> length (msg m)"
  obtains q m' where "writes (length ks) h = dequeue_message (h\<lparr>outcomes := io,
      wire := wire h @ take (sum_list ks) (drop (unat (n_bytes_written m)) (msg m)), writeq := q\<rparr>)"
    and "this_val q = Inr m'" and "l_count q = l_count (writeq h)"
    and "thisp q = thisp (writeq h)" and "nextp q = nextp (writeq h)"
    and "prevp q = prevp (writeq h)" and "l_head q = l_head (writeq h)"
  using assms
proof (induction ks arbitrary: h m thesis)
  case (Cons k ks)
  let ?w = "unat (n_bytes_written m)"
  let ?h = "\<lambda>q. h\<lparr>outcomes := map Wr_bytes ks @ io, wire := wire h @ take k (drop ?w (msg m)), writeq := q\<rparr>"
  let ?m = "m\<lparr>n_bytes_written := n_bytes_written m + of_nat k\<rparr>"
  obtain q where q: "send_some h = Inr (?w + k = unat (msg_len m), ?h q)" "writing (?h q) ?m"
    "unat (n_bytes_written m + of_nat k) = ?w + k" "l_count q = l_count (writeq h)"
    "thisp q = thisp (writeq h)" "nextp q = nextp (writeq h)" "prevp q = prevp (writeq h)"
    "l_head q = l_head (writeq h)"
    by (rule send_step [OF Cons.prems(2), of k "map Wr_bytes ks @ io"]) (use Cons.prems in auto)
  show ?case
  proof (cases "ks = []")
    case True
    then have "writes (length (k # ks)) h = dequeue_message (?h q)"
      using q(1) Cons.prems(5) by simp
    then show ?thesis
      using q True by (intro Cons.prems(1) [of q ?m]) (auto simp: writing_def)
  next
    case False
    then obtain k' where "k' \<in> set ks" "0 < k'" using Cons.prems(4) by (cases ks) auto
    then have "0 < sum_list ks" by (metis bot_nat_0.not_eq_extremum sum_list_eq_0_iff)
    then have unfinished: "?w + k \<noteq> unat (msg_len m)" using Cons.prems(5) by simp
    obtain q' m' where q': "writes (length ks) (?h q) = dequeue_message (h\<lparr>outcomes := io,
        wire := wire (?h q) @ take (sum_list ks) (drop (unat (n_bytes_written ?m)) (msg ?m)), writeq := q'\<rparr>)"
      "this_val q' = Inr m'" "l_count q' = l_count (writeq (?h q))"
      "thisp q' = thisp (writeq (?h q))" "nextp q' = nextp (writeq (?h q))"
      "prevp q' = prevp (writeq (?h q))" "l_head q' = l_head (writeq (?h q))"
    proof (rule Cons.IH [OF _ q(2)])
      fix q' m'
      assume ih: "writes (length ks) (?h q) = dequeue_message ((?h q)\<lparr>outcomes := io,
          wire := wire (?h q) @ take (sum_list ks) (drop (unat (n_bytes_written ?m)) (msg ?m)), writeq := q'\<rparr>)"
        "this_val q' = Inr m'" "l_count q' = l_count (writeq (?h q))"
        "thisp q' = thisp (writeq (?h q))" "nextp q' = nextp (writeq (?h q))"
        "prevp q' = prevp (writeq (?h q))" "l_head q' = l_head (writeq (?h q))"
      have eq: "(?h q)\<lparr>outcomes := io, wire := w, writeq := q'\<rparr> = h\<lparr>outcomes := io, wire := w, writeq := q'\<rparr>" for w
        by simp
      show thesis by (rule that [OF ih(1) [unfolded eq] ih(2-7)])
    qed (use Cons.prems False q(3) in auto)
    have "take (sum_list (k # ks)) (drop ?w (msg m)) =
        take k (drop ?w (msg m)) @ take (sum_list ks) (drop (?w + k) (msg m))"
      by (simp add: take_add add.commute)
    then show ?thesis
      using q q' unfinished by (intro Cons.prems(1) [of q' m']) simp_all
  qed
qed simp

text \<open>The last message of a queue goes; the cursor of \<open>UPKLIST_APPEND\<close> forgets the ones before it.\<close>

lemma dequeue_last:
  assumes "this_val q = Inr m" and "prevp q = None" and "nextp q = None"
  obtains q' where "dequeue_message (h\<lparr>writeq := q\<rparr>) = Inr (h\<lparr>writeq := q'\<rparr>)" and "l_head q' = None"
    and "l_tail q' = None" and "thisp q' = None" and "l_count q' = l_count q - 1"
  using assms
  by (auto simp: dequeue_message_def upklist_unlink_def this_val_def Let_def split: option.splits
      intro!: that)

text \<open>A message queued on a settled queue.\<close>

lemma queue_settled:
  assumes "wf_packet pkt" and "ulist_ok (writeq h) as" and "tail_ok (writeq h) as"
    and "nextp (writeq h) = None" and "prevp (writeq h) = None"
    and "UPK_PACKET_HEADER_LEN + unat (pkt_payload_len pkt) + UPK_PACKET_FOOTER_LEN \<le> UPK_MAX_PACKET_SIZE"
  obtains q m b crc where "queue_message pkt cb h = Inr (h\<lparr>writeq := q\<rparr>)"
    and "this_val q = Inr m" and "ulist_ok q (as @ [fresh (writeq h)])" and "tail_ok q (as @ [fresh (writeq h)])"
    and "nextp q = None" and "prevp q = None" and "n_bytes_written m = 0" and "after_write_callback m = cb"
    and "unat (msg_len m) = UPK_PACKET_HEADER_LEN + unat (pkt_payload_len pkt) + UPK_PACKET_FOOTER_LEN"
    and "unat (msg_len m) \<le> length (msg m)"
    and "take (unat (msg_len m)) (msg m) = packet_header pkt @ b @ put_uint32 crc"
    and "length b = unat (pkt_payload_len pkt)"
    and "\<And>rest. upk_deserialize_packet (packet_header pkt @ b @ put_uint32 crc @ rest) =
      Inr (Pkt_live (pkt\<lparr>pkt_crc32 := crc\<rparr>), UPK_ERR_NONE)"
proof -
  let ?a = "fresh (writeq h)"
  let ?n = "UPK_PACKET_HEADER_LEN + unat (pkt_payload_len pkt) + UPK_PACKET_FOOTER_LEN"
  obtain b crc where b: "length b = unat (pkt_payload_len pkt)"
    and ser: "upk_serialize_packet pkt =
      Inr (pkt\<lparr>pkt_crc32 := crc\<rparr>, packet_header pkt @ b @ put_uint32 crc @ replicate 4 0)"
    and des: "\<And>rest. upk_deserialize_packet (packet_header pkt @ b @ put_uint32 crc @ rest) =
      Inr (Pkt_live (pkt\<lparr>pkt_crc32 := crc\<rparr>), UPK_ERR_NONE)"
    using assms(1) by (rule packet_frame) blast
  define len :: u64 where "len = ucast (of_nat UPK_PACKET_HEADER_LEN + pkt_payload_len pkt + of_nat UPK_PACKET_FOOTER_LEN)"
  have len: "unat len = ?n"
    using assms(6) unfolding len_def unat_ucast_u64
    by (simp add: unat_word_ariths UPK_MAX_PACKET_SIZE_def packet_consts)
  let ?frame = "packet_header pkt @ b @ put_uint32 crc"
  have frame: "length ?frame = ?n" using b by (simp add: packet_consts put_uint32_def)
  let ?buf = "?frame @ drop ?n (replicate UPK_MAX_PACKET_SIZE 0)"
  let ?m = "\<lparr>msg = ?buf, msg_len = len, n_bytes_written = 0, after_write_callback = cb\<rparr>"
  have store: "store_at 0 (take (unat len) (?frame @ replicate 4 0)) (msg (empty_netmsg :: 'a netmsg)) = Inr ?buf"
    using assms(6) frame len by (simp add: store_at_def empty_netmsg_def)
  obtain l where l: "upklist_append empty_netmsg (writeq h) = Inr l" "ulist_ok l (as @ [?a])"
    "tail_ok l (as @ [?a])" "nextp l = None" "prevp l = None" "thisp l = Some ?a"
    by (rule append_ok [OF assms(2-4), of empty_netmsg]) (use assms(5) in blast)+
  obtain q where q: "set_this ?m l = Inr q" "ulist_ok q (as @ [?a])" "tail_ok q (as @ [?a])"
    "this_val q = Inr ?m" "prevp q = None" "nextp q = None"
    by (rule set_this_ok [OF l(2,3,6), of ?m]) (use l(4,5) in auto)
  show thesis
  proof (rule that [of q ?m b crc])
    show "queue_message pkt cb h = Inr (h\<lparr>writeq := q\<rparr>)"
      using l(1) q(1) ser store frame len
      by (simp add: queue_message_def Let_def flip: len_def append_assoc)
  qed (use q len assms(6) b frame des in \<open>simp_all add: UPK_MAX_PACKET_SIZE_def\<close>)
qed


text \<open>A frame already cut to the size the kernel delivers.\<close>

lemma wf_packet_len: "wf_packet pkt \<Longrightarrow> unat (pkt_payload_len pkt) \<le> UPK_MAX_PACKET_SIZE \<and> pkt_version_id pkt = 0"
  by (simp add: wf_packet_def)

section \<open>Properties\<close>

text \<open>C2: end to end.  A well-formed packet that fits a message, queued on a connection without a backlog,
  goes out whole however the kernel splits the writes, leaves the queue empty, and the peer that reads
  those bytes as one chunk gets exactly this packet and is idle again.\<close>

theorem end_to_end:
  assumes "wf_packet pkt"
    and "UPK_PACKET_HEADER_LEN + unat (pkt_payload_len pkt) + UPK_PACKET_FOOTER_LEN \<le> UPK_MAX_PACKET_SIZE"
    and "writeq h = upklist_init" and "wire h = []" and "outcomes h = map Wr_bytes ks @ io"
    and "\<forall>k\<in>set ks. 0 < k"
    and "sum_list ks = UPK_PACKET_HEADER_LEN + unat (pkt_payload_len pkt) + UPK_PACKET_FOOTER_LEN"
    and "idle g"
  shows "\<exists>h1 h2 g' crc. queue_message pkt cb h = Inr h1 \<and> writes (length ks) h1 = Inr h2 \<and>
    l_head (writeq h2) = None \<and> l_count (writeq h2) = 0 \<and>
    receive (g\<lparr>inbox := Rd_bytes (wire h2) # io'\<rparr>) = Inr (True, g') \<and> idle g' \<and> inbox g' = io' \<and>
    upk_deserialize_packet (readbuf g') = Inr (Pkt_live (pkt\<lparr>pkt_crc32 := crc\<rparr>), UPK_ERR_NONE)"
proof -
  obtain q m b crc where q: "queue_message pkt cb h = Inr (h\<lparr>writeq := q\<rparr>)" "this_val q = Inr m"
    "tail_ok q ([] @ [fresh (writeq h)])" "nextp q = None" "prevp q = None" "n_bytes_written m = 0"
    and m: "unat (msg_len m) = UPK_PACKET_HEADER_LEN + unat (pkt_payload_len pkt) + UPK_PACKET_FOOTER_LEN"
    "unat (msg_len m) \<le> length (msg m)"
    "take (unat (msg_len m)) (msg m) = packet_header pkt @ b @ put_uint32 crc"
    "length b = unat (pkt_payload_len pkt)"
    and des: "\<And>rest. upk_deserialize_packet (packet_header pkt @ b @ put_uint32 crc @ rest) =
      Inr (Pkt_live (pkt\<lparr>pkt_crc32 := crc\<rparr>), UPK_ERR_NONE)"
    by (rule queue_settled [OF assms(1) _ _ _ _ assms(2), of h "[]" cb])
      (use assms(3) in auto)
  let ?h1 = "h\<lparr>writeq := q\<rparr>" and ?frame = "packet_header pkt @ b @ put_uint32 crc"
  have count: "l_count q = 1" using q(3) by (simp add: tail_ok_def)
  then have wr: "writing ?h1 m" using q(2) by (intro writingI) simp_all
  have ne: "ks \<noteq> []" using assms(7) by (auto simp: packet_consts)
  obtain q' m' where w: "writes (length ks) ?h1 = dequeue_message (?h1\<lparr>outcomes := io,
      wire := wire ?h1 @ take (sum_list ks) (drop (unat (n_bytes_written m)) (msg m)), writeq := q'\<rparr>)"
    and q': "this_val q' = Inr m'" "l_count q' = 1" "nextp q' = None" "prevp q' = None"
    by (rule writes_all [OF wr _ _ _ ne, of io]) (use assms(5-7) m(1,2) q count in auto)
  have frame: "wire ?h1 @ take (sum_list ks) (drop (unat (n_bytes_written m)) (msg m)) = ?frame"
    using assms(4,7) m(1,3) q(6) by simp
  obtain q'' where deq: "dequeue_message ((?h1\<lparr>outcomes := io, wire := ?frame\<rparr>)\<lparr>writeq := q'\<rparr>) =
      Inr ((?h1\<lparr>outcomes := io, wire := ?frame\<rparr>)\<lparr>writeq := q''\<rparr>)"
    and q'': "l_head q'' = None" "l_count q'' = l_count q' - 1"
    by (rule dequeue_last [OF q'(1,4,3)])
  obtain h2 where h2: "writes (length ks) ?h1 = Inr h2" "wire h2 = ?frame" "writeq h2 = q''"
    using w deq unfolding frame by simp
  let ?g = "g\<lparr>inbox := Rd_bytes ?frame # io'\<rparr>" and ?body = "b @ put_uint32 crc"
  have len: "length ?body = unat (pkt_payload_len pkt) + UPK_PACKET_FOOTER_LEN"
    using m(4) by (simp add: packet_consts put_uint32_def)
  have "idle ?g" using assms(8) by (simp add: idle_def)
  then obtain g' where g': "receive ?g = Inr (True, g')" "inbox g' = io'" "n_hdr_bytes_read g' = 0"
    "n_remaining_read g' = 0"
    "readbuf g' = packet_header pkt @ ?body @ drop (UPK_PACKET_HEADER_LEN + length ?body) (readbuf g)"
    using receive_frame [of ?g pkt ?body io'] wf_packet_len [OF assms(1)] len assms(2)
    by (auto simp: idle_def)
  have "idle g'" using assms(2,8) len g'(3-5) by (simp add: idle_def packet_consts)
  moreover have "upk_deserialize_packet (readbuf g') = Inr (Pkt_live (pkt\<lparr>pkt_crc32 := crc\<rparr>), UPK_ERR_NONE)"
    using des by (simp add: g'(5))
  moreover have "l_head (writeq h2) = None" "l_count (writeq h2) = 0" using h2(3) q'' q'(2) by simp_all
  ultimately show ?thesis
    using q(1) h2(1) g'(1,2) unfolding h2(2) [symmetric] by blast
qed

text \<open>A frame whose total length exceeds the read buffer passes the length test if its payload alone does
  not exceed it: a body of more than 65520 bytes that arrives at once is written past the buffer.\<close>

theorem oversized_frame:
  assumes "idle h" and "pkt_version_id pkt = 0"
    and "length body = unat (pkt_payload_len pkt) + UPK_PACKET_FOOTER_LEN"
    and "inbox h = Rd_bytes (packet_header pkt @ body) # io"
  shows "receive h = Inl Oob_write \<longleftrightarrow> unat (pkt_payload_len pkt) \<in> {65517..65536}"
  using receive_frame [OF assms(1-3), of io] assms(3,4)
  by (auto simp: UPK_MAX_PACKET_SIZE_def packet_consts)

lemma minus_one_u8: "ucast (- 1 :: u64) = (255 :: u8)"
  by (simp add: unsigned_minus_1_eq_mask mask_eq_exp_minus_1)

text \<open>A read of the header that fails counts as 255 bytes: the connection stays open, but no later call
  reads from it again, whatever arrives.\<close>

theorem deaf_after_failed_read:
  assumes "idle h" and "inbox h = Rd_fail # io"
  shows "\<exists>h'. receive h = Inr (False, h') \<and> fd h' = fd h \<and> inbox h' = io \<and>
    (\<forall>n inp. receives n (h'\<lparr>inbox := inp\<rparr>) = Inr (False, h'\<lparr>inbox := inp\<rparr>))"
proof -
  let ?h = "h\<lparr>inbox := io, n_hdr_bytes_read := 255\<rparr>"
  have again: "receive (?h\<lparr>inbox := inp\<rparr>) = Inr (False, ?h\<lparr>inbox := inp\<rparr>)" for inp
    using assms(1)
    by (simp add: receive_def read_header_def check_header_def read_body_def idle_def packet_consts)
  have "receives n (?h\<lparr>inbox := inp\<rparr>) = Inr (False, ?h\<lparr>inbox := inp\<rparr>)" for n inp
    by (induction n) (simp_all add: again [simplified])
  moreover have "receive h = Inr (False, ?h)"
    using assms again [of io]
    by (simp add: receive_def read_header_def check_header_def read_body_def sys_read_def store_at_def
        idle_def packet_consts minus_one_u8)
  ultimately show ?thesis by (intro exI [of _ ?h]) simp
qed


text \<open>A header that arrives in two halves of eight bytes: the second half overwrites the first, the
  packet type is read as the version, and the connection of a valid packet is closed.\<close>

theorem split_header_closes:
  assumes "idle h" and "pkt_pkttype pkt \<noteq> 0"
    and "inbox h = Rd_bytes (take 8 (packet_header pkt)) # Rd_bytes (drop 8 (packet_header pkt) @ body) # io"
  shows "\<exists>h'. receives 2 h = Inr (False, h') \<and> fd h' < 0"
proof -
  let ?hd = "packet_header pkt" and ?tl = "Rd_bytes (drop 8 (packet_header pkt) @ body) # io"
  let ?h1 = "h\<lparr>inbox := ?tl, readbuf := take 8 ?hd @ drop 8 (readbuf h), n_hdr_bytes_read := 8\<rparr>"
  let ?h2 = "h\<lparr>inbox := (if body = [] then io else Rd_bytes body # io),
    readbuf := drop 8 ?hd @ drop 8 (readbuf h), n_hdr_bytes_read := 16\<rparr>"
  have len: "length ?hd = 16" by (simp add: packet_consts)
  have "receive h = Inr (False, ?h1)"
    using assms(1,3) len
    by (simp add: receive_def read_header_def check_header_def read_body_def sys_read_def store_at_def
        idle_def packet_consts UPK_MAX_PACKET_SIZE_def)
  moreover have "read_header ?h1 = Inr (True, ?h2)"
    using assms(1) len
    by (simp add: read_header_def sys_read_def store_at_def idle_def packet_consts UPK_MAX_PACKET_SIZE_def)
  moreover have "of_be32 (take 4 (drop 4 (readbuf ?h2))) = pkt_pkttype pkt"
    by (simp add: packet_header_def put_uint32_def put_enum_def)
  then have "check_header ?h2 = (False, close_conn (?h2\<lparr>n_hdr_bytes_read := 0\<rparr>))"
    using assms(1,2) by (simp add: check_header_def idle_def packet_consts)
  ultimately show ?thesis
    by (simp add: numeral_2_eq_2 receive_def close_conn_def)
qed

text \<open>Of two packets queued one after the other only the second is ever written: the cursor of the queue
  is its tail.  When it is out, the first is no longer in the queue but is still counted, and no later
  call writes anything.\<close>

theorem first_queued_lost:
  assumes "wf_packet p1" and "wf_packet p2" and "writeq h = upklist_init" and "wire h = []"
    and "UPK_PACKET_HEADER_LEN + unat (pkt_payload_len p1) + UPK_PACKET_FOOTER_LEN \<le> UPK_MAX_PACKET_SIZE"
    and "UPK_PACKET_HEADER_LEN + unat (pkt_payload_len p2) + UPK_PACKET_FOOTER_LEN \<le> UPK_MAX_PACKET_SIZE"
    and "outcomes h = map Wr_bytes ks @ io" and "\<forall>k\<in>set ks. 0 < k"
    and "sum_list ks = UPK_PACKET_HEADER_LEN + unat (pkt_payload_len p2) + UPK_PACKET_FOOTER_LEN"
  shows "\<exists>h1 h2 h3 b crc. queue_message p1 cb1 h = Inr h1 \<and> queue_message p2 cb2 h1 = Inr h2 \<and>
    writes (length ks) h2 = Inr h3 \<and> wire h3 = packet_header p2 @ b @ put_uint32 crc \<and>
    length b = unat (pkt_payload_len p2) \<and>
    l_head (writeq h3) = None \<and> l_count (writeq h3) = 1 \<and> (\<forall>n. writes n h3 = Inr h3)"
proof -
  obtain q1 where q1: "queue_message p1 cb1 h = Inr (h\<lparr>writeq := q1\<rparr>)"
    "ulist_ok q1 ([] @ [fresh (writeq h)])" "tail_ok q1 ([] @ [fresh (writeq h)])" "nextp q1 = None"
    "prevp q1 = None"
    by (rule queue_settled [OF assms(1) _ _ _ _ assms(5), of h "[]" cb1]) (use assms(3) in auto)
  let ?h1 = "h\<lparr>writeq := q1\<rparr>"
  obtain q m b crc where q: "queue_message p2 cb2 ?h1 = Inr (?h1\<lparr>writeq := q\<rparr>)" "this_val q = Inr m"
    "tail_ok q ([fresh (writeq h)] @ [fresh (writeq ?h1)])" "nextp q = None" "prevp q = None"
    "n_bytes_written m = 0"
    and m: "unat (msg_len m) = UPK_PACKET_HEADER_LEN + unat (pkt_payload_len p2) + UPK_PACKET_FOOTER_LEN"
    "unat (msg_len m) \<le> length (msg m)"
    "take (unat (msg_len m)) (msg m) = packet_header p2 @ b @ put_uint32 crc"
    "length b = unat (pkt_payload_len p2)"
    by (rule queue_settled [OF assms(2) _ _ _ _ assms(6), of ?h1 "[fresh (writeq h)]" cb2])
      (use q1 in auto)
  let ?h2 = "?h1\<lparr>writeq := q\<rparr>" and ?frame = "packet_header p2 @ b @ put_uint32 crc"
  have count: "l_count q = 2" using q(3) by (simp add: tail_ok_def)
  then have wr: "writing ?h2 m" using q(2) by (intro writingI) simp_all
  have ne: "ks \<noteq> []" using assms(9) by (auto simp: packet_consts)
  obtain q' m' where w: "writes (length ks) ?h2 = dequeue_message (?h2\<lparr>outcomes := io,
      wire := wire ?h2 @ take (sum_list ks) (drop (unat (n_bytes_written m)) (msg m)), writeq := q'\<rparr>)"
    and q': "this_val q' = Inr m'" "l_count q' = 2" "nextp q' = None" "prevp q' = None"
    by (rule writes_all [OF wr _ _ _ ne, of io]) (use assms(7-9) m(1,2) q count in auto)
  have frame: "wire ?h2 @ take (sum_list ks) (drop (unat (n_bytes_written m)) (msg m)) = ?frame"
    using assms(4,9) m(1,3) q(6) by simp
  obtain q'' where deq: "dequeue_message ((?h2\<lparr>outcomes := io, wire := ?frame\<rparr>)\<lparr>writeq := q'\<rparr>) =
      Inr ((?h2\<lparr>outcomes := io, wire := ?frame\<rparr>)\<lparr>writeq := q''\<rparr>)"
    and q'': "l_head q'' = None" "thisp q'' = None" "l_count q'' = l_count q' - 1"
    by (rule dequeue_last [OF q'(1,4,3)])
  obtain h3 where h3: "writes (length ks) ?h2 = Inr h3" "wire h3 = ?frame" "writeq h3 = q''"
    using w deq unfolding frame by simp
  have "writes n h3 = Inr h3" for n
    by (induction n) (simp_all add: send_some_def h3(3) q''(2))
  then show ?thesis
    using q1(1) q(1) h3 q'' q'(2) m(4) by (intro exI conjI) (assumption | simp)+
qed

text \<open>A \<open>write\<close> that fails before the first byte counts as -1 byte; the next one that succeeds reads from
  before the message.\<close>

theorem failed_write_underflow:
  assumes "writing h m" and "n_bytes_written m = 0" and "0 < msg_len m" and "length (msg m) = UPK_MAX_PACKET_SIZE"
    and "msg_len m \<noteq> - 1" and "outcomes h = Wr_fail # Wr_bytes k # io" and "0 < k"
  shows "writes 2 h = Inl Oob_read"
proof -
  have cur: "this_val (writeq h) = Inr m" "\<not> l_count (writeq h) < 1" using assms(1) by (simp_all add: writing_def)
  then have th: "thisp (writeq h) \<noteq> None" by (auto simp: this_val_def split: option.splits)
  let ?m = "m\<lparr>n_bytes_written := - 1\<rparr>"
  obtain q where q: "set_this ?m (writeq h) = Inr q" "this_val q = Inr ?m" "l_count q = l_count (writeq h)"
    "thisp q = thisp (writeq h)"
    using cur(1) by (rule set_this_val)
  let ?h = "h\<lparr>outcomes := Wr_bytes k # io, writeq := q\<rparr>"
  have max: "unat (- 1 :: u64) = 2 ^ 64 - 1"
    by (simp add: unsigned_minus_1_eq_mask mask_eq_exp_minus_1)
  have "send_some h = Inr (False, ?h)"
    using cur th q(1) assms(2,3,5,6) max
    by (auto simp: send_some_def sys_write_def word_less_nat_alt)
  moreover have pos: "msg_len m + 1 \<noteq> 0" using assms(5) by (metis add.commute add_eq_0_iff)
  then have "unat (msg_len m + 1) \<noteq> 0" by (simp add: unat_eq_0)
  then have "send_some ?h = Inl Oob_read"
    using cur(2) th q(2-4) assms(4,5,7) max pos
    by (simp add: send_some_def sys_write_def UPK_MAX_PACKET_SIZE_def word_gt_0 Let_def)
  ultimately show ?thesis by (simp add: numeral_2_eq_2)
qed

lemma free_conns:
  "fold_c free_conn_data (freed, n) hs =
    (let ds = List.map_filter c_userdata hs in
     if distinct ds \<and> set ds \<inter> freed = {}
     then Inr (freed \<union> set ds, n + length (filter (\<lambda>h. cb_stack h \<noteq> None) hs)) else Inl Double_free)"
proof (induction hs arbitrary: freed n)
  case (Cons h hs)
  then show ?case
    by (cases "c_userdata h") (auto simp: free_conn_data_def map_filter_simps Let_def)
qed (simp add: map_filter_simps)

text \<open>C23: pruning the closed connections.  When their userdata are different and not freed yet, each closed
  connection's userdata is freed, its state with it, and the other connections are kept in order provided
  no two closed ones are neighbours; with two neighbours every open connection before them is lost.  When
  two closed connections share their userdata, as all do that got the global one, it is freed twice.\<close>

theorem flush_closed:
  assumes "ulist_ok (handles hs) as"
  shows "let conns = map (val_at (handles hs)) as; gone = filter closed conns; ds = List.map_filter c_userdata gone in
    if distinct ds \<and> set ds \<inter> freed_data hs = {} then
      \<exists>hs' bs. upk_net_flush_closed_sockets (Suc (length as)) hs = Some (Inr hs') \<and>
        freed_data hs' = freed_data hs \<union> set ds \<and>
        freed_states hs' = freed_states hs + length (filter (\<lambda>h. cb_stack h \<noteq> None) gone) \<and>
        {a. a \<in> set as \<and> cells (handles hs') a = None} = {a. a \<in> set as \<and> fd (val_at (handles hs) a) < 0} \<and>
        ulist_ok (handles hs') bs \<and> map (val_at (handles hs')) bs = survivors closed True [] conns \<and>
        (if no_pair closed conns then map (val_at (handles hs')) bs = filter (\<lambda>h. 0 \<le> fd h) conns else True)
    else upk_net_flush_closed_sockets (Suc (length as)) hs = Some (Inl Double_free)"
proof -
  let ?conns = "map (val_at (handles hs)) as"
  let ?ds = "List.map_filter c_userdata (filter closed ?conns)" and ?s = "(freed_data hs, freed_states hs)"
  show ?thesis
  proof (cases "distinct ?ds \<and> set ?ds \<inter> freed_data hs = {}")
    case True
    let ?s' = "(freed_data hs \<union> set ?ds, freed_states hs + length (filter (\<lambda>h. cb_stack h \<noteq> None) (filter closed ?conns)))"
    have acts: "fold_c free_conn_data ?s (filter closed ?conns) = Inr ?s'"
      using True by (simp add: free_conns Let_def)
    obtain l' bs where l': "upklist_foreach (Suc (length as)) (unlink_where closed free_conn_data) (?s, handles hs) =
        Some (Inr (?s', l'))"
      "ulist_ok l' bs" "map (val_at l') bs = survivors closed True [] ?conns"
      "if no_pair closed ?conns then map (val_at l') bs = filter (\<lambda>h. \<not> closed h) ?conns else True"
      "{a. a \<in> set as \<and> cells l' a = None} = {a. a \<in> set as \<and> closed (val_at (handles hs) a)}"
      using walk_contents [OF assms acts] by blast
    have flush: "upk_net_flush_closed_sockets (Suc (length as)) hs =
        Some (Inr (hs\<lparr>handles := l', freed_data := fst ?s', freed_states := snd ?s'\<rparr>))"
      by (simp add: upk_net_flush_closed_sockets_def l'(1))
    have kept: "filter (\<lambda>h. \<not> closed h) ?conns = filter (\<lambda>h. 0 \<le> fd h) ?conns"
      "{a. a \<in> set as \<and> closed (val_at (handles hs) a)} = {a. a \<in> set as \<and> fd (val_at (handles hs) a) < 0}"
      by (simp_all add: closed_def not_less)
    show ?thesis
      unfolding Let_def if_P [OF True] flush
      by (intro exI [of _ "hs\<lparr>handles := l', freed_data := fst ?s', freed_states := snd ?s'\<rparr>"] exI [of _ bs])
        (use l'(2-5) kept in \<open>auto split: if_splits\<close>)
  next
    case False
    then have "fold_c free_conn_data ?s (filter closed ?conns) = Inl Double_free" by (simp add: free_conns Let_def)
    from foreach_unlink_fault [OF assms this] show ?thesis
      unfolding Let_def if_not_P [OF False] by (simp add: upk_net_flush_closed_sockets_def)
  qed
qed


text \<open>Connections to try the properties on: a sender with a given readiness and a receiver.\<close>

definition sender :: "nat list \<Rightarrow> nat conn" where
  "sender ks = empty_conn\<lparr>fd := 4, outcomes := map Wr_bytes ks\<rparr>"

definition receiver :: "rd list \<Rightarrow> nat conn" where
  "receiver io = empty_conn\<lparr>fd := 5, inbox := io\<rparr>"

lemma sender_sel: "writeq (sender ks) = upklist_init" "wire (sender ks) = []"
  "outcomes (sender ks) = map Wr_bytes ks @ []"
  by (simp_all add: sender_def empty_conn_def)

lemma receiver_idle: "idle (receiver io)"
  by (simp add: idle_def receiver_def empty_conn_def)

lemma action_packet_size: "UPK_PACKET_HEADER_LEN + unat (pkt_payload_len action_packet) + UPK_PACKET_FOOTER_LEN = 38"
  by (simp add: action_packet_def packet_consts)

lemma end_to_end_witness:
  "\<exists>h1 h2 g'. queue_message action_packet None (sender [30, 8]) = Inr h1 \<and> writes 2 h1 = Inr h2 \<and>
     receive ((receiver [])\<lparr>inbox := Rd_bytes (wire h2) # []\<rparr>) = Inr (True, g') \<and> idle g'"
proof -
  have "length [30, 8 :: nat] = 2" by simp
  then show ?thesis
    using end_to_end [OF wf_action_packet _ _ _ _ _ _ receiver_idle, of "sender [30, 8]" "[30, 8]" "[]" None "[]" "[]"]
    unfolding action_packet_size
    by (simp add: sender_sel UPK_MAX_PACKET_SIZE_def numeral_2_eq_2) blast
qed

lemma oversized_frame_witness:
  "receive (receiver [Rd_bytes (packet_header (list_packet\<lparr>pkt_payload_len := 65520\<rparr>) @ replicate 65524 0)]) =
     Inl Oob_write"
proof -
  have "length (replicate 65524 (0 :: u8)) = unat (pkt_payload_len (list_packet\<lparr>pkt_payload_len := 65520\<rparr>)) + UPK_PACKET_FOOTER_LEN"
    "pkt_version_id (list_packet\<lparr>pkt_payload_len := 65520\<rparr>) = 0"
    by (simp_all add: packet_consts list_packet_def)
  from oversized_frame [OF receiver_idle this(2,1)] show ?thesis
    by (simp add: receiver_def)
qed

lemma deaf_after_failed_read_witness:
  "\<exists>h'. receive (receiver [Rd_fail]) = Inr (False, h') \<and> fd h' = 5 \<and>
     receives 9 (h'\<lparr>inbox := [Rd_bytes [1, 2, 3]]\<rparr>) = Inr (False, h'\<lparr>inbox := [Rd_bytes [1, 2, 3]]\<rparr>)"
  using deaf_after_failed_read [OF receiver_idle, of "[Rd_fail]" "[]"]
  by (auto simp: receiver_def)

lemma split_header_closes_witness:
  "\<exists>h'. receives 2 (receiver [Rd_bytes (take 8 (packet_header list_packet)),
     Rd_bytes (drop 8 (packet_header list_packet) @ [0, 0, 0, 6])]) = Inr (False, h') \<and> fd h' < 0"
  by (rule split_header_closes [OF receiver_idle, of list_packet _ "[0, 0, 0, 6]" "[]"])
    (simp_all add: receiver_def list_packet_def msgtypes)

lemma first_queued_lost_witness:
  "\<exists>h1 h2 h3. queue_message action_packet (Some 1) (sender [38]) = Inr h1 \<and>
     queue_message action_packet None h1 = Inr h2 \<and> writes 1 h2 = Inr h3 \<and> l_count (writeq h3) = 1 \<and>
     (\<forall>n. writes n h3 = Inr h3)"
proof -
  have "length [38 :: nat] = 1" by simp
  then show ?thesis
    using first_queued_lost [OF wf_action_packet wf_action_packet, of "sender [38]" "[38]" "[]" "Some 1" None]
    unfolding action_packet_size
    by (simp add: sender_sel UPK_MAX_PACKET_SIZE_def numeral_2_eq_2) blast
qed

lemma failed_write_underflow_witness:
  "writes 2 ((sender [])\<lparr>writeq := \<lparr>cells = [0 \<mapsto> (empty_netmsg\<lparr>msg_len := 20\<rparr>, None)], fresh = 1,
     l_head = Some 0, l_tail = Some 0, prevp = None, nextp = None, thisp = Some 0, l_count = 1\<rparr>,
     outcomes := [Wr_fail, Wr_bytes 20]\<rparr>) = Inl Oob_read"
  by (rule failed_write_underflow [where m = "empty_netmsg\<lparr>msg_len := 20\<rparr>" and k = 20 and io = "[]"])
    (simp_all add: writing_def this_val_def empty_netmsg_def)

text \<open>Two closed connections around an open one, with different userdata and with the same.\<close>

definition three_conns :: "ptr \<Rightarrow> ptr \<Rightarrow> nat conns" where
  "three_conns p q = (upk_net_conn_handles_init None)\<lparr>handles :=
     \<lparr>cells = [0 \<mapsto> (close_conn ((sender [])\<lparr>c_userdata := p\<rparr>), Some 1), 1 \<mapsto> (sender [], Some 2),
        2 \<mapsto> (close_conn ((sender [])\<lparr>c_userdata := q\<rparr>), None)], fresh = 3, l_head = Some 0,
      l_tail = Some 2, prevp = None, nextp = None, thisp = None, l_count = 3\<rparr>\<rparr>"

lemma flush_closed_witness:
  "(\<exists>hs' bs. upk_net_flush_closed_sockets 4 (three_conns (Some 7) (Some 8)) = Some (Inr hs') \<and>
      map (val_at (handles hs')) bs = [sender []] \<and> freed_data hs' = {7, 8}) \<and>
   upk_net_flush_closed_sockets 4 (three_conns (Some 7) (Some 7)) = Some (Inl Double_free)"
proof -
  have ok: "ulist_ok (handles (three_conns p q)) [0, 1, 2]" for p q
    by (simp add: ulist_ok_def three_conns_def)
  have conns: "map (val_at (handles (three_conns p q))) [0, 1, 2] =
      [close_conn ((sender [])\<lparr>c_userdata := p\<rparr>), sender [], close_conn ((sender [])\<lparr>c_userdata := q\<rparr>)]" for p q
    by (simp add: three_conns_def val_at_def)
  let ?h = "sender [] :: nat conn"
  have closed: "\<not> closed ?h" "closed (close_conn h)" "c_userdata (close_conn h) = c_userdata h" for h :: "nat conn"
    by (simp_all add: closed_def sender_def close_conn_def empty_conn_def)
  have init: "freed_data (three_conns p q) = {}" for p q
    by (simp add: three_conns_def upk_net_conn_handles_init_def)
  have four: "Suc (length [0 :: nat, 1, 2]) = 4" by simp
  have gone: "filter closed [close_conn (?h\<lparr>c_userdata := p\<rparr>), ?h, close_conn (?h\<lparr>c_userdata := q\<rparr>)] =
      [close_conn (?h\<lparr>c_userdata := p\<rparr>), close_conn (?h\<lparr>c_userdata := q\<rparr>)]" for p q
    by (simp add: closed)
  have stay: "survivors closed True [] [close_conn (?h\<lparr>c_userdata := p\<rparr>), ?h, close_conn (?h\<lparr>c_userdata := q\<rparr>)] = [?h]" for p q
    by (simp add: closed)
  have data: "List.map_filter c_userdata [close_conn (?h\<lparr>c_userdata := Some x\<rparr>), close_conn (?h\<lparr>c_userdata := Some y\<rparr>)] = [x, y]" for x y
    by (simp add: map_filter_simps closed)
  have c: "(distinct [7 :: nat, 8] \<and> set [7 :: nat, 8] \<inter> {} = {}) = True"
    "(distinct [7 :: nat, 7] \<and> set [7 :: nat, 7] \<inter> {} = {}) = False" by simp_all
  note flush = flush_closed [OF ok, unfolded conns Let_def four gone stay init]
  from flush [of "Some 7" "Some 8", unfolded data c if_True] obtain hs' bs where
    "upk_net_flush_closed_sockets 4 (three_conns (Some 7) (Some 8)) = Some (Inr hs')"
    "map (val_at (handles hs')) bs = [?h]" "freed_data hs' = {} \<union> set [7, 8]"
    by (elim exE conjE) (rule that)
  then have "\<exists>hs' bs. upk_net_flush_closed_sockets 4 (three_conns (Some 7) (Some 8)) = Some (Inr hs') \<and>
      map (val_at (handles hs')) bs = [?h] \<and> freed_data hs' = {7, 8}"
    by (metis Un_empty_left list.simps(15) empty_set)
  moreover from flush [of "Some 7" "Some 7", unfolded data c if_False] have
    "upk_net_flush_closed_sockets 4 (three_conns (Some 7) (Some 7)) = Some (Inl Double_free)" .
  ultimately show ?thesis by blast
qed

end
