(* ===== verification/Ctrl_Events.thy ===== *)
theory Ctrl_Events
  imports Ctrl_Buddy Upk_Network
begin

text \<open>
  \<open>controller/ctrl_eventloop.c\<close>: what the controller does with the requests of its clients, and the queue
  of signals.  A handler runs with the cursor of the list of connections on the connection the request
  came in on; the action handler also talks to a buddy, so it works on the state of \<open>Ctrl_Buddy\<close> too.
\<close>

section \<open>Callbacks\<close>

datatype ctrl_callback =
  Cb_action_handler | Cb_preamble_handler | Cb_disconnect_handler | Cb_shutdown

type_synonym clients = "ctrl_callback conns"

text \<open>\<open>init_callback_handlers\<close> fills the first entry of the global stack.\<close>

definition initial_handlers :: "ctrl_callback net_cb_stk" where
  "initial_handlers = empty_cb_stk
     \<lparr>msg_handlers := (msg_handlers empty_cb_stk)
       [unat (UPK_MSGTYPE_IDX UPK_REQ_ACTION) := Some Cb_action_handler,
        unat (UPK_MSGTYPE_IDX UPK_REQ_PREAMBLE) := Some Cb_preamble_handler,
        unat (UPK_MSGTYPE_IDX UPK_REQ_DISCONNECT) := Some Cb_disconnect_handler]\<rparr>"

definition init_callback_handlers :: "clients \<Rightarrow> clients cres" where
  "init_callback_handlers hs =
     bind_c (upklist_prepend empty_cb_stk (g_callback_stack hs)) (\<lambda>l.
     bind_c (set_this initial_handlers l) (\<lambda>l. Inr (hs\<lparr>g_callback_stack := l\<rparr>)))"

definition ctrl_accept_conn :: "rd list \<Rightarrow> wr list \<Rightarrow> int \<Rightarrow> int \<Rightarrow> clients \<Rightarrow> clients cres" where
  "ctrl_accept_conn rs ws sockopts conn_fd hs =
     (if 0 \<le> conn_fd
      then bind_c (upk_net_add_socket_handle rs ws sockopts conn_fd hs) (\<lambda>(_, hs). Inr hs) else Inr hs)"

section \<open>Requests\<close>

text \<open>The text of a character array, up to its terminator, and a string constant in memory.\<close>

definition c_text :: "bytes \<Rightarrow> string" where
  "c_text b = map (\<lambda>w. char_of (unat w)) (takeWhile (\<lambda>w. w \<noteq> 0) (take UPK_MAX_STRING_LEN b))"

definition c_bytes :: "string \<Rightarrow> bytes" where
  "c_bytes s = map (\<lambda>c. of_nat (of_char c)) s @ [0]"

text \<open>The reply is queued on the connection of the request; a null pointer is dereferenced there.\<close>

definition queue_reply :: "upk_packet option \<Rightarrow> ctrl_callback option \<Rightarrow> clients \<Rightarrow> clients cres" where
  "queue_reply reply cb hs =
     (case thisp (handles hs) of None \<Rightarrow> Inl Null_deref
      | Some a \<Rightarrow>
          (case reply of None \<Rightarrow> Inl Null_deref | Some pkt \<Rightarrow> upk_queue_packet a pkt cb hs))"

text \<open>What an action asks of the buddy; \<open>None\<close> when the handler has no branch, or an empty one, for it.\<close>

definition buddy_action ::
    "string \<Rightarrow> (upk_controller_config \<Rightarrow> upk_svc_desc \<Rightarrow> ctrl \<Rightarrow> (bool \<times> ctrl) cres) option" where
  "buddy_action action =
     (if map to_lower action = ''start'' then Some start_buddy_svc
      else if map to_lower action = ''stop'' then Some stop_buddy_svc
      else if map to_lower action = ''reload'' then Some reload_buddy_svc
      else None)"

text \<open>Only the first service of the name is looked at, and nothing is answered when there is none.\<close>

definition ctrl_req_action_handler ::
    "upk_controller_config \<Rightarrow> v0_req_action \<Rightarrow> ctrl \<times> clients \<Rightarrow> (ctrl \<times> clients) cres" where
  "ctrl_req_action_handler cfg req wh =
     (case wh of (w, hs) \<Rightarrow>
        bind_c (this_conn hs) (\<lambda>handle.
        case svclist cfg of None \<Rightarrow> Inl Null_deref
        | Some svcs \<Rightarrow>
            (case find (\<lambda>s. Name s = c_text (act_svc_id req)) svcs of
               None \<Rightarrow> Inr (w, hs)
             | Some svc \<Rightarrow>
                 bind_c (case buddy_action (c_text (act_action req)) of
                     None \<Rightarrow> Inr (None, w)
                   | Some act \<Rightarrow>
                       bind_c (act cfg svc w) (\<lambda>(ok, w).
                       bind_c (upk_create_repl_result (version_id handle)
                         (c_bytes (if ok then ''success'' else ''failed'')) ok) (\<lambda>reply.
                       Inr (reply, w)))) (\<lambda>(reply, w).
                 bind_c (queue_reply reply None hs) (\<lambda>hs. Inr (w, hs))))))"

text \<open>The search for the best common version, in signed 32-bit numbers: the outer loop runs down the
  range of the client, the inner one down the supported versions.\<close>

definition supported_versions :: "int list" where
  "supported_versions = rev [uint UPK_MIN_SUPPORTED_PROTO..uint UPK_MAX_SUPPORTED_PROTO]"

function negotiate :: "int \<Rightarrow> int \<Rightarrow> int option" where
  "negotiate clmin n =
     (if n < clmin then None
      else case find (\<lambda>p. n = p) supported_versions of
        Some p \<Rightarrow> Some p
      | None \<Rightarrow> negotiate clmin (n - 1))"
  by pat_completeness auto

termination
  by (relation "measure (\<lambda>(clmin, n). nat (n - clmin + 1))") auto

declare negotiate.simps [simp del]

definition ctrl_req_preamble_handler :: "upk_req_preamble \<Rightarrow> clients \<Rightarrow> clients cres" where
  "ctrl_req_preamble_handler req hs =
     (case thisp (handles hs) of None \<Rightarrow> Inl Null_deref
      | Some a \<Rightarrow>
          let clmin = sint (pre_min_supported_ver req); clmax = sint (pre_max_supported_ver req) in
          if uint UPK_MAX_SUPPORTED_PROTO < clmin \<or> clmax < uint UPK_MIN_SUPPORTED_PROTO then Inr hs
          else
            (case negotiate clmin clmax of
               None \<Rightarrow> Inl Null_deref
             | Some p \<Rightarrow>
                 bind_c (upk_create_repl_preamble (of_int p)) (\<lambda>reply.
                 let name = takeWhile (\<lambda>w. w \<noteq> 0) (take (UPK_MAX_STRING_LEN - 1) (pre_client_name req)) in
                 bind_c (set_conn_at a (\<lambda>h. h\<lparr>cl_name := char_array (UPK_MAX_STRING_LEN - 1) name @ drop (UPK_MAX_STRING_LEN - 1) (cl_name h)\<rparr>) hs)
                   (queue_reply (Some reply) None))))"

definition ctrl_req_disconnect_handler :: "clients \<Rightarrow> clients cres" where
  "ctrl_req_disconnect_handler hs =
     bind_c (this_conn hs) (\<lambda>handle.
     bind_c (upk_create_req_disconnect (version_id handle)) (\<lambda>reply.
     queue_reply reply (Some Cb_shutdown) hs))"

section \<open>Signals\<close>

record sigqueue_node =
  q_signal :: int
  q_pid :: int

definition empty_signal :: sigqueue_node where
  "empty_signal = \<lparr>q_signal = 0, q_pid = 0\<rparr>"

text \<open>The handler only queues; the deferred work waits for children, or exits.\<close>

definition ctrl_sigaction_func :: "int \<Rightarrow> int \<Rightarrow> sigqueue_node ulist \<Rightarrow> sigqueue_node ulist cres" where
  "ctrl_sigaction_func signal pid q =
     bind_c (upklist_append empty_signal q) (set_this \<lparr>q_signal = signal, q_pid = pid\<rparr>)"

definition SIGINT :: int where "SIGINT = 2"

datatype signal_outcome = Continue | Exit

fun handle_signals ::
    "nat \<Rightarrow> int list \<Rightarrow> sigqueue_node ulist \<Rightarrow> (signal_outcome \<times> int list \<times> sigqueue_node ulist) cres option" where
  "handle_signals 0 waited q = None"
| "handle_signals (Suc fuel) waited q =
     (if l_count q = 0 then Some (Inr (Continue, waited, q))
      else
        case bind_c (upklist_head q) (\<lambda>q. bind_c (this_val q) (\<lambda>node.
               bind_c (upklist_unlink q) (\<lambda>q. Inr (node, q)))) of
          Inl e \<Rightarrow> Some (Inl e)
        | Inr (node, q) \<Rightarrow>
            if q_signal node = SIGCHLD then handle_signals fuel (waited @ [q_pid node]) q
            else if q_signal node = SIGINT \<or> q_signal node = int SIGTERM then Some (Inr (Exit, waited, q))
            else handle_signals fuel waited q)"

section \<open>The signal queue\<close>

text \<open>A queue between two rounds: a chain that ends in its tail, and a cursor that is past it.\<close>

definition queue_ok :: "'a ulist \<Rightarrow> 'a list \<Rightarrow> bool" where
  "queue_ok l xs \<longleftrightarrow> (\<exists>as. ulist_ok l as \<and> tail_ok l as \<and> nextp l = None \<and> prevp l = None \<and>
     xs = map (val_at l) as)"

lemma queue_ok_init: "queue_ok upklist_init []"
  unfolding queue_ok_def by (intro exI [of _ "[]"]) simp

lemma enqueue_ok:
  assumes "queue_ok l xs"
  shows "\<exists>l'. bind_c (upklist_append z l) (set_this x) = Inr l' \<and> queue_ok l' (xs @ [x])"
proof -
  obtain as where as: "ulist_ok l as" "tail_ok l as" "nextp l = None" "prevp l = None" "xs = map (val_at l) as"
    using assms by (auto simp: queue_ok_def)
  obtain l1 where l1: "upklist_append z l = Inr l1" "ulist_ok l1 (as @ [fresh l])"
    "tail_ok l1 (as @ [fresh l])" "nextp l1 = None" "prevp l1 = None" "thisp l1 = Some (fresh l)"
    "\<forall>a\<in>set as. val_at l1 a = val_at l a"
    by (rule append_ok [OF as(1-3), of z]) (use as(4) in blast)+
  obtain l2 where "set_this x l1 = Inr l2" "ulist_ok l2 (as @ [fresh l])" "tail_ok l2 (as @ [fresh l])"
    "val_at l2 (fresh l) = x" "\<forall>b\<in>set (as @ [fresh l]) - {fresh l}. val_at l2 b = val_at l1 b"
    "prevp l2 = prevp l1" "nextp l2 = nextp l1"
    by (rule set_this_ok [OF l1(2,3,6), of x]) auto
  moreover have "fresh l \<notin> set as" using as(1) by (auto simp: ulist_ok_def)
  ultimately show ?thesis
    using l1 as(5) unfolding queue_ok_def
    by (intro exI [of _ l2]) (auto intro!: exI [of _ "as @ [fresh l]"])
qed

text \<open>A queue that is being emptied.\<close>

definition draining :: "'a ulist \<Rightarrow> 'a list \<Rightarrow> bool" where
  "draining l xs \<longleftrightarrow> (\<exists>as. ulist_ok l as \<and> tail_ok l as \<and> xs = map (val_at l) as \<and>
     (as = [] \<longrightarrow> nextp l = None \<and> prevp l = None))"

lemma queue_draining: "queue_ok l xs \<Longrightarrow> draining l xs"
  by (auto simp: queue_ok_def draining_def)

lemma draining_empty: "draining l [] \<Longrightarrow> queue_ok l []"
  by (auto simp: queue_ok_def draining_def)

lemma draining_count: "draining l xs \<Longrightarrow> l_count l = of_nat (length xs)"
  by (auto simp: draining_def tail_ok_def)

lemma take_first:
  assumes "draining l (x # xs)"
  shows "\<exists>l'. bind_c (upklist_head l) (\<lambda>q. bind_c (this_val q) (\<lambda>node.
       bind_c (upklist_unlink q) (\<lambda>q. Inr (node, q)))) = Inr (x, l') \<and> draining l' xs"
proof -
  obtain a as where as: "ulist_ok l (a # as)" "tail_ok l (a # as)" "x = val_at l a" "xs = map (val_at l) as"
    using assms by (auto simp: draining_def)
  obtain n where a: "l_head l = Some a" "cells l a = Some (x, n)" "lseg (cells l) n as None"
    using as(1,3) by (auto simp: ulist_ok_def val_at_def split: option.splits)
  have new: "a \<notin> set as" and n: "n = (if as = [] then None else Some (hd as))"
    using as(1) lseg_hd [OF a(3)] by (simp_all add: ulist_ok_def)
  let ?l = "l\<lparr>l_head := n, nextp := n, prevp := None, l_tail := (if n = None then None else l_tail l),
    cells := (cells l)(a := None), thisp := None, l_count := l_count l - 1\<rparr>"
  have "bind_c (upklist_head l) (\<lambda>q. bind_c (this_val q) (\<lambda>node.
       bind_c (upklist_unlink q) (\<lambda>q. Inr (node, q)))) = Inr (x, ?l)"
    using a by (simp add: upklist_head_def foreach_init_def nextnode_def upklist_unlink_def this_val_def Let_def)
  moreover have "ulist_ok ?l as" using as(1) a new by (auto simp: ulist_ok_def)
  moreover have "tail_ok ?l as" using as(2) n by (auto simp: tail_ok_def)
  moreover have "map (val_at ?l) as = xs" using new by (auto simp: as(4) val_at_def)
  ultimately show ?thesis using n unfolding draining_def by (intro exI [of _ ?l]) auto
qed

lemma handle_signals_drain:
  assumes "draining q xs" and "\<forall>x\<in>set xs. q_signal x = SIGCHLD" and "length xs < 2 ^ 32"
  shows "\<exists>q'. handle_signals (Suc (length xs)) waited q = Some (Inr (Continue, waited @ map q_pid xs, q')) \<and>
    queue_ok q' []"
  using assms
proof (induction xs arbitrary: q waited)
  case Nil
  then show ?case using draining_count [OF Nil(1)] draining_empty by auto
next
  case (Cons x xs)
  obtain l' where l': "bind_c (upklist_head q) (\<lambda>q. bind_c (this_val q) (\<lambda>node.
       bind_c (upklist_unlink q) (\<lambda>q. Inr (node, q)))) = Inr (x, l')" "draining l' xs"
    using take_first [OF Cons.prems(1)] by blast
  have "unat (of_nat (length (x # xs)) :: u32) = length (x # xs)"
    unfolding unat_of_nat by (rule mod_less) (use Cons.prems(3) in simp)
  then have "unat (l_count q) = Suc (length xs)"
    using draining_count [OF Cons.prems(1)] by simp
  then have "l_count q \<noteq> 0" by auto
  with l' Cons.IH [OF l'(2), of "waited @ [q_pid x]"] Cons.prems(2,3) show ?case by simp
qed

lemma signal_enqueued:
  "queue_ok q xs \<Longrightarrow>
     \<exists>q'. ctrl_sigaction_func sig pid q = Inr q' \<and> queue_ok q' (xs @ [\<lparr>q_signal = sig, q_pid = pid\<rparr>])"
  using enqueue_ok unfolding ctrl_sigaction_func_def .

section \<open>Properties\<close>

text \<open>C25: signals that arrive while the queue is not being worked on are all served: a burst of
  \<open>SIGCHLD\<close> is waited for in the order of arrival, whatever bursts came before, and the queue is ready
  for the next burst.\<close>

theorem signals_served:
  assumes "queue_ok q []" and "length pids < 2 ^ 32"
  shows "\<exists>q1 q2. foldl (\<lambda>r p. bind_c r (ctrl_sigaction_func SIGCHLD p)) (Inr q) pids = Inr q1 \<and>
    handle_signals (Suc (length pids)) [] q1 = Some (Inr (Continue, pids, q2)) \<and> queue_ok q2 []"
proof -
  let ?node = "\<lambda>p. \<lparr>q_signal = SIGCHLD, q_pid = p\<rparr>"
  have "\<exists>q1. foldl (\<lambda>r p. bind_c r (ctrl_sigaction_func SIGCHLD p)) (Inr q) pids = Inr q1 \<and>
      queue_ok q1 (map ?node pids)"
  proof (induction pids rule: rev_induct)
    case (snoc p ps)
    then obtain q1 where "foldl (\<lambda>r p. bind_c r (ctrl_sigaction_func SIGCHLD p)) (Inr q) ps = Inr q1"
      "queue_ok q1 (map ?node ps)" by blast
    with signal_enqueued [of q1 "map ?node ps" SIGCHLD p] show ?case by simp
  qed (use assms(1) in simp)
  then obtain q1 where q1: "foldl (\<lambda>r p. bind_c r (ctrl_sigaction_func SIGCHLD p)) (Inr q) pids = Inr q1"
    "queue_ok q1 (map ?node pids)" by blast
  have "map q_pid (map ?node pids) = pids" by (induction pids) simp_all
  with handle_signals_drain [OF queue_draining [OF q1(2)], of "[]"] assms(2) q1(1) show ?thesis by simp
qed

lemma signals_served_witness:
  "\<exists>q1 q2. foldl (\<lambda>r p. bind_c r (ctrl_sigaction_func SIGCHLD p)) (Inr upklist_init) [7, 9] = Inr q1 \<and>
    handle_signals 3 [] q1 = Some (Inr (Continue, [7, 9], q2)) \<and> queue_ok q2 []"
  using signals_served [OF queue_ok_init, of "[7, 9]"]
  by (simp add: numeral_3_eq_3 del: handle_signals.simps)


lemma negotiate_eq: "negotiate clmin n = (if clmin \<le> 0 \<and> 0 \<le> n then Some 0 else None)"
proof (induction clmin n rule: negotiate.induct)
  case (1 clmin n)
  have v: "supported_versions = [0]" by (simp add: supported_versions_def packet_consts)
  show ?case
    using 1 by (subst negotiate.simps) (auto simp: v)
qed

definition preamble_reply :: upk_packet where
  "preamble_reply = upk_create_pkt
     (Repl_preamble \<lparr>msgtype = UPK_REPL_PREAMBLE, rpre_best_version = 0\<rparr>) (4 + 4) PKT_REPLY 0"

lemma preamble_reply_wf: "wf_packet preamble_reply"
  by (simp add: preamble_reply_def creator_defs create_defs unat_plus_small)

text \<open>C13: the negotiation of the version: a request whose range, read as signed numbers, does not contain
  version 0 is dropped without an answer; to any other the controller queues, on the connection it came
  in on, a message that the client decodes to a reply naming version 0.\<close>

theorem preamble_answered:
  assumes "thisp (handles hs) = Some a" and "cells (handles hs) a = Some (h, nx)"
    and "writeq h = upklist_init"
  shows "if sint (pre_min_supported_ver req) \<le> 0 \<and> 0 \<le> sint (pre_max_supported_ver req) then
      \<exists>hs' h' m crc. ctrl_req_preamble_handler req hs = Inr hs' \<and>
        pending_writeq hs' = pending_writeq hs + 1 \<and> cells (handles hs') a = Some (h', nx) \<and>
        this_val (writeq h') = Inr m \<and> after_write_callback m = None \<and>
        upk_deserialize_packet (msg m) = Inr (Pkt_live (preamble_reply\<lparr>pkt_crc32 := crc\<rparr>), UPK_ERR_NONE)
    else ctrl_req_preamble_handler req hs = Inr hs"
proof (cases "sint (pre_min_supported_ver req) \<le> 0 \<and> 0 \<le> sint (pre_max_supported_ver req)")
  case False
  then show ?thesis
    using assms(1) by (auto simp: ctrl_req_preamble_handler_def packet_consts Let_def)
next
  case True
  define g where "g = h\<lparr>cl_name := char_array (UPK_MAX_STRING_LEN - 1)
      (takeWhile (\<lambda>w. w \<noteq> 0) (take (UPK_MAX_STRING_LEN - 1) (pre_client_name req))) @
      drop (UPK_MAX_STRING_LEN - 1) (cl_name h)\<rparr>"
  define hs1 where "hs1 = hs\<lparr>handles := (handles hs)\<lparr>cells := (cells (handles hs))(a \<mapsto> (g, nx))\<rparr>\<rparr>"
  have g: "writeq g = upklist_init" using assms(3) by (simp add: g_def)
  have "ctrl_req_preamble_handler req hs = upk_queue_packet a preamble_reply None hs1"
    using True assms(1,2)
    by (simp add: ctrl_req_preamble_handler_def packet_consts Let_def negotiate_eq set_conn_at_def
        queue_reply_def upk_create_repl_preamble_def preamble_reply_def hs1_def g_def)
  moreover obtain q m b crc where q: "queue_message preamble_reply None g = Inr (g\<lparr>writeq := q\<rparr>)"
    "this_val q = Inr m" "after_write_callback m = None"
    "take (unat (msg_len m)) (msg m) = packet_header preamble_reply @ b @ put_uint32 crc"
    and des: "\<And>rest. upk_deserialize_packet (packet_header preamble_reply @ b @ put_uint32 crc @ rest) =
      Inr (Pkt_live (preamble_reply\<lparr>pkt_crc32 := crc\<rparr>), UPK_ERR_NONE)"
    by (rule queue_settled [OF preamble_reply_wf, of g "[]" None])
      (use g in \<open>auto simp: preamble_reply_def upk_create_pkt_def packet_consts UPK_MAX_PACKET_SIZE_def\<close>)
  have "msg m = packet_header preamble_reply @ b @ put_uint32 crc @ drop (unat (msg_len m)) (msg m)"
    using q(4) by (metis append.assoc append_take_drop_id)
  then have "upk_deserialize_packet (msg m) =
      Inr (Pkt_live (preamble_reply\<lparr>pkt_crc32 := crc\<rparr>), UPK_ERR_NONE)"
    using des by metis
  with calculation q True show ?thesis
    by (auto simp: upk_queue_packet_def hs1_def set_conn_at_def)
qed


text \<open>C27: an action request for a configured service with any other action than start, stop or reload,
  in capitals or not, makes the controller dereference the null pointer: no reply has been built, and
  the handler queues it all the same.  For a service that is not configured nothing happens and the
  client gets no answer.\<close>

theorem unknown_action_crashes:
  assumes "this_conn hs = Inr h" and "svclist cfg = Some svcs"
    and "map to_lower (c_text (act_action req)) \<notin> {''start'', ''stop'', ''reload''}"
  shows "ctrl_req_action_handler cfg req (w, hs) =
    (if \<exists>s\<in>set svcs. Name s = c_text (act_svc_id req) then Inl Null_deref else Inr (w, hs))"
proof (cases "find (\<lambda>s. Name s = c_text (act_svc_id req)) svcs")
  case None
  then have "\<not> (\<exists>s\<in>set svcs. Name s = c_text (act_svc_id req))" by (auto simp: find_None_iff)
  with None assms(1,2) show ?thesis by (simp add: ctrl_req_action_handler_def)
next
  case (Some svc)
  then have "\<exists>s\<in>set svcs. Name s = c_text (act_svc_id req)" by (auto simp: find_Some_iff)
  with Some assms show ?thesis
    by (simp add: ctrl_req_action_handler_def buddy_action_def queue_reply_def split: option.split)
qed

text \<open>One client, and a request to unconfigure the only service.\<close>

definition sample_clients :: clients where
  "sample_clients = (upk_net_conn_handles_init None)\<lparr>handles := upklist_init
     \<lparr>cells := [0 \<mapsto> (empty_conn\<lparr>fd := 4\<rparr>, None)], l_head := Some 0, l_tail := Some 0, thisp := Some 0,
      fresh := 1, l_count := 1\<rparr>\<rparr>"

definition unconfigure_request :: v0_req_action where
  "unconfigure_request =
     \<lparr>msgtype = UPK_REQ_ACTION, act_svc_id_len = 1, act_svc_id = c_bytes ''w'',
      act_action_len = 11, act_action = c_bytes ''unconfigure''\<rparr>"

definition sample_preamble :: upk_req_preamble where
  "sample_preamble =
     \<lparr>msgtype = UPK_REQ_PREAMBLE, pre_min_supported_ver = 0, pre_max_supported_ver = 3,
      pre_client_name_len = 1, pre_client_name = c_bytes ''c''\<rparr>"

lemma preamble_answered_witness:
  "\<exists>hs' h' m crc. ctrl_req_preamble_handler sample_preamble sample_clients = Inr hs' \<and>
     cells (handles hs') 0 = Some (h', None) \<and> this_val (writeq h') = Inr m \<and>
     upk_deserialize_packet (msg m) = Inr (Pkt_live (preamble_reply\<lparr>pkt_crc32 := crc\<rparr>), UPK_ERR_NONE)"
  using preamble_answered [of sample_clients 0 "empty_conn\<lparr>fd := 4\<rparr>" None sample_preamble]
  by (auto simp: sample_clients_def sample_preamble_def empty_conn_def)

lemma unknown_action_crashes_witness:
  "ctrl_req_action_handler (sample_ctrl_cfg\<lparr>svclist := Some [sample_svc\<lparr>Name := ''w''\<rparr>]\<rparr>) unconfigure_request
     (sample_ctrl, sample_clients) = Inl Null_deref"
proof -
  have t: "c_text (act_action unconfigure_request) = ''unconfigure''" "c_text (act_svc_id unconfigure_request) = ''w''"
    by code_simp+
  have "map to_lower ''unconfigure'' = ''unconfigure''" by code_simp
  then show ?thesis
    using unknown_action_crashes [of sample_clients "empty_conn\<lparr>fd := 4\<rparr>"
        "sample_ctrl_cfg\<lparr>svclist := Some [sample_svc\<lparr>Name := ''w''\<rparr>]\<rparr>" "[sample_svc\<lparr>Name := ''w''\<rparr>]"
        unconfigure_request sample_ctrl]
    by (simp add: t this_conn_def this_val_def sample_clients_def)
qed

end
