(* ===== verification/Upk_Dispatch.thy ===== *)
theory Upk_Dispatch
  imports Upk_Network
begin

text \<open>
  The event dispatcher of \<open>libupkeeper/upkeeper/upk_network.c\<close>: the sets of descriptors for \<open>select\<close>, one
  round of the dispatcher with its callbacks, and waiting for a message.  What the kernel answers in a
  round, and the clock after it, are input.  All signals are blocked during \<open>select\<close>, so a round is not
  interrupted; the time a \<open>select\<close> may take is in its answer.
\<close>

section \<open>Results of loops\<close>

text \<open>A loop that has used its fuel, or its input, has no result.\<close>

definition bind_o :: "'a cres option \<Rightarrow> ('a \<Rightarrow> 'b cres option) \<Rightarrow> 'b cres option" where
  "bind_o m f = (case m of None \<Rightarrow> None | Some (Inl e) \<Rightarrow> Some (Inl e) | Some (Inr x) \<Rightarrow> f x)"

lemma bind_o_simps [simp]:
  "bind_o None f = None" "bind_o (Some (Inl e)) f = Some (Inl e)" "bind_o (Some (Inr x)) f = f x"
  by (simp_all add: bind_o_def)

lemma bind_o_cong [fundef_cong]:
  "m = m' \<Longrightarrow> (\<And>x. m' = Some (Inr x) \<Longrightarrow> f x = g x) \<Longrightarrow> bind_o m f = bind_o m' g"
  by (auto simp: bind_o_def split: option.split sum.split)

section \<open>Sets of descriptors\<close>

definition FD_SETSIZE :: int where "FD_SETSIZE = 1024"

text \<open>The answers to \<open>fcntl(fd, F_GETFL)\<close>, the result of \<open>select\<close>, and the descriptors it reports among
  those it was asked for.\<close>

record poll =
  getfl :: "int \<Rightarrow> int"
  select_result :: int
  can_read :: "int \<Rightarrow> bool"
  can_write :: "int \<Rightarrow> bool"

text \<open>The three sets always have the same members.\<close>

definition fd_set_add :: "int \<Rightarrow> int list \<Rightarrow> int list cres" where
  "fd_set_add d fds = (if 0 \<le> d \<and> d < FD_SETSIZE then Inr (d # fds) else Inl Oob_write)"

definition fd_isset :: "int \<Rightarrow> (int \<Rightarrow> bool) \<Rightarrow> bool cres" where
  "fd_isset d fds = (if 0 \<le> d \<and> d < FD_SETSIZE then Inr (fds d) else Inl Oob_read)"

definition watch_fd :: "poll \<Rightarrow> int list \<times> u32 \<Rightarrow> 'c conn \<Rightarrow> (int list \<times> u32) cres" where
  "watch_fd k s h =
     (if 0 < fd h \<and> 0 \<le> getfl k (fd h)
      then bind_c (fd_set_add (fd h) (fst s)) (\<lambda>fds.
        Inr (fds, if snd s < of_int (fd h) then of_int (fd h) else snd s))
      else Inr s)"

definition upk_build_fd_sets :: "nat \<Rightarrow> poll \<Rightarrow> 'c conns \<Rightarrow> ((int list \<times> u32) \<times> 'c conns) cres option" where
  "upk_build_fd_sets fuel k hs =
     bind_o (upklist_foreach fuel (\<lambda>(s, l). bind_c (this_val l) (\<lambda>h. bind_c (watch_fd k s h) (\<lambda>s. Inr (s, l))))
         (([], 0), handles hs)) (\<lambda>(s, l).
     Some (Inr (s, hs\<lparr>handles := l\<rparr>)))"

section \<open>A round\<close>

text \<open>The stack of callbacks of the connection that is current when the round begins.\<close>

definition callbacks_of :: "'c conns \<Rightarrow> ptr cres" where
  "callbacks_of hs =
     (case thisp (handles hs) of None \<Rightarrow> Inr None
      | Some a \<Rightarrow> bind_c (this_conn hs) (\<lambda>h. Inr (if cb_stack h = None then None else Some a)))"

definition dispatch_call ::
    "('c net_cb_stk \<Rightarrow> 'c option) \<Rightarrow> 'c runner \<Rightarrow> ptr \<Rightarrow> 'c conns \<Rightarrow> 'c conns cres" where
  "dispatch_call sel run callbacks hs =
     (case callbacks of None \<Rightarrow> Inr hs
      | Some a \<Rightarrow>
          (case cells (handles hs) a of None \<Rightarrow> Inl Use_after_free
           | Some (h, _) \<Rightarrow>
               (case Option.bind (Option.bind (cb_stack h) upklist_top) sel of None \<Rightarrow> Inr hs
                | Some c \<Rightarrow> run c None hs)))"

text \<open>One connection in the loop.  Every nonzero answer of \<open>fcntl\<close> counts, -1 as well.\<close>

definition serve_conn ::
    "'c runner \<Rightarrow> poll \<Rightarrow> int list \<Rightarrow> bool \<Rightarrow> ptr \<Rightarrow> 'c conns \<Rightarrow> 'c conns cres" where
  "serve_conn run k fds asked callbacks hs =
     bind_c (dispatch_call net_dispatch_foreach run callbacks hs) (\<lambda>hs.
     bind_c (this_conn hs) (\<lambda>h.
     if 0 \<le> fd h \<and> getfl k (fd h) \<noteq> 0 then
       bind_c (fd_isset (fd h) (\<lambda>d. d \<in> set fds \<and> can_read k d)) (\<lambda>readable.
       bind_c (if readable then upk_read_packets run hs else Inr hs) (\<lambda>hs.
       if \<not> asked then Inr hs
       else bind_c (this_conn hs) (\<lambda>h.
         bind_c (fd_isset (fd h) (\<lambda>d. d \<in> set fds \<and> can_write k d)) (\<lambda>writable.
         if writable then upk_write_packets run hs else Inr hs))))
     else upk_disconnect_handle hs))"

definition each_conn ::
    "nat \<Rightarrow> ('c conns \<Rightarrow> 'c conns cres) \<Rightarrow> 'c conns \<Rightarrow> 'c conns cres option" where
  "each_conn fuel f hs =
     bind_o (upklist_foreach fuel (\<lambda>(hs, l). bind_c (f (hs\<lparr>handles := l\<rparr>)) (\<lambda>hs. Inr (hs, handles hs)))
         (hs, handles hs)) (\<lambda>(hs, l).
     Some (Inr (hs\<lparr>handles := l\<rparr>)))"

definition upk_net_event_dispatcher :: "nat \<Rightarrow> 'c runner \<Rightarrow> poll \<Rightarrow> 'c conns \<Rightarrow> 'c conns cres option" where
  "upk_net_event_dispatcher fuel run k hs =
     bind_o (Some (callbacks_of hs)) (\<lambda>callbacks.
     bind_o (Some (dispatch_call net_dispatch_pre run callbacks hs)) (\<lambda>hs.
     bind_o (upk_build_fd_sets fuel k hs) (\<lambda>((fds, nfds), hs).
     bind_o (if 0 < select_result k
         then each_conn fuel (serve_conn run k fds (0 < pending_writeq hs) callbacks) hs else Some (Inr hs)) (\<lambda>hs.
     Some (dispatch_call net_dispatch_post run callbacks hs)))))"

section \<open>Waiting for a message\<close>

record timeval =
  tv_sec :: int
  tv_usec :: int

text \<open>Both parts have to have passed.\<close>

definition timed_out :: "timeval option \<Rightarrow> timeval \<Rightarrow> timeval \<Rightarrow> bool" where
  "timed_out timeout start now =
     (case timeout of None \<Rightarrow> False
      | Some t \<Rightarrow> tv_sec start + tv_sec t \<le> tv_sec now \<and> tv_usec start + tv_usec t \<le> tv_usec now)"

text \<open>A round is the answers of the kernel and the clock after them; \<open>None\<close> is a wait that these rounds do
  not end.\<close>

definition got_type :: "'c conn \<Rightarrow> u32" where
  "got_type h = (case last_pkt_data h of None \<Rightarrow> 0 | Some (t, _) \<Rightarrow> t)"

definition conn_at :: "nat \<Rightarrow> 'c conns \<Rightarrow> 'c conn cres" where
  "conn_at a hs = (case cells (handles hs) a of None \<Rightarrow> Inl Use_after_free | Some (h, _) \<Rightarrow> Inr h)"

fun block_loop ::
    "nat \<Rightarrow> 'c runner \<Rightarrow> timeval option \<Rightarrow> timeval \<Rightarrow> nat \<Rightarrow> (poll \<times> timeval) list \<Rightarrow> 'c conns \<Rightarrow>
     (int \<times> 'c conns) cres option" where
  "block_loop fuel run timeout start a [] hs =
     bind_o (Some (conn_at a hs)) (\<lambda>h. if fd h < 0 then Some (Inr (fd h, hs)) else None)"
| "block_loop fuel run timeout start a ((k, now) # rounds) hs =
     bind_o (Some (conn_at a hs)) (\<lambda>h.
     if fd h < 0 then Some (Inr (fd h, hs))
     else bind_o (upk_net_event_dispatcher fuel run k hs) (\<lambda>hs.
       bind_o (Some (conn_at a hs)) (\<lambda>h.
       if got_type h \<noteq> 0 then Some (Inr (uint (got_type h), hs))
       else if timed_out timeout start now then Some (Inr (- 1, hs))
       else block_loop fuel run timeout start a rounds hs)))"

definition upk_net_block_until_msg ::
    "nat \<Rightarrow> 'c runner \<Rightarrow> timeval option \<Rightarrow> timeval \<Rightarrow> (poll \<times> timeval) list \<Rightarrow> 'c conns \<Rightarrow>
     (int \<times> 'c conns) cres option" where
  "upk_net_block_until_msg fuel run timeout start rounds hs =
     (case thisp (handles hs) of None \<Rightarrow> Some (Inl Null_deref)
      | Some a \<Rightarrow>
          bind_o (Some (set_conn_at a (\<lambda>h. h\<lparr>last_pkt_data := None\<rparr>) hs))
            (block_loop fuel run timeout start a rounds))"

section \<open>Connecting\<close>

text \<open>The results of \<open>socket\<close> and \<open>connect\<close>.\<close>

definition upk_domain_socket_connect :: "int \<Rightarrow> int \<Rightarrow> int" where
  "upk_domain_socket_connect socket_fd connected =
     (if 0 \<le> socket_fd \<and> connected \<noteq> 0 then - 2 else socket_fd)"

end
