(* ===== verification/Upk_Client.thy ===== *)
theory Upk_Client
  imports Upk_Dispatch
begin

text \<open>
  The client library, \<open>libupkeeper/upkeeper/upk_client_net.c\<close>: a connection to the controller, on which
  requests are sent one at a time and the answer to each is waited for.  Its messages to the user are
  left out, except that a fatal one ends the process.
\<close>

section \<open>One request at a time\<close>

text \<open>What happens while a request is waited for.\<close>

record wait_input =
  start_time :: timeval
  wait_rounds :: "(poll \<times> timeval) list"

definition list_head :: "'c conns \<Rightarrow> 'c conns cres" where
  "list_head hs = bind_c (upklist_head (handles hs)) (\<lambda>l. Inr (hs\<lparr>handles := l\<rparr>))"

definition head_conn :: "'c conns \<Rightarrow> 'c conn cres" where
  "head_conn hs = (case l_head (handles hs) of None \<Rightarrow> Inl Null_deref | Some a \<Rightarrow> conn_at a hs)"

definition request_timeout :: timeval where
  "request_timeout = \<lparr>tv_sec = 30, tv_usec = 0\<rparr>"

text \<open>The packet goes to the first connection; what is returned is a copy of the last packet of that
  connection, made before the closed connections are dropped.\<close>

definition queue_request :: "upk_packet option \<Rightarrow> 'c conns \<Rightarrow> 'c conns cres" where
  "queue_request pkt ctrl =
     bind_c (list_head ctrl) (\<lambda>ctrl.
     case (l_head (handles ctrl), pkt) of
       (Some a, Some p) \<Rightarrow> bind_c (upk_queue_packet a p None ctrl) list_head
     | _ \<Rightarrow> Inl Null_deref)"

definition upk_clnet_serial_request ::
    "nat \<Rightarrow> 'c runner \<Rightarrow> wait_input \<Rightarrow> upk_packet option \<Rightarrow> 'c conns \<Rightarrow>
     ((u32 \<times> upk_payload) option \<times> 'c conns) cres option" where
  "upk_clnet_serial_request fuel run inp pkt ctrl =
     bind_o (Some (queue_request pkt ctrl)) (\<lambda>ctrl.
     bind_o (upk_net_block_until_msg fuel run (Some request_timeout) (start_time inp) (wait_rounds inp) ctrl)
       (\<lambda>(_, ctrl).
     bind_o (Some (head_conn ctrl)) (\<lambda>h.
     bind_o (Some (list_head ctrl)) (\<lambda>ctrl.
     bind_o (upk_net_flush_closed_sockets fuel ctrl) (\<lambda>ctrl.
     Some (Inr (last_pkt_data h, ctrl)))))))"

section \<open>Connecting\<close>

definition negotiated :: "(u32 \<times> upk_payload) option \<Rightarrow> 'c conns \<Rightarrow> 'c conns cres" where
  "negotiated pl ctrl =
     (case pl of
        Some (t, _) \<Rightarrow>
          if t = UPK_REPL_PREAMBLE then
            (case l_head (handles ctrl) of None \<Rightarrow> Inl Null_deref
             | Some a \<Rightarrow> bind_c (conn_at a ctrl) (\<lambda>h.
                 case last_pkt_data h of
                   Some (_, Repl_preamble r) \<Rightarrow> set_conn_at a (\<lambda>h. h\<lparr>version_id := rpre_best_version r\<rparr>) ctrl
                 | _ \<Rightarrow> Inl Type_confusion))
          else Inl Exit_failure
      | None \<Rightarrow> Inl Exit_failure)"

definition upk_clnet_req_preamble ::
    "nat \<Rightarrow> 'c runner \<Rightarrow> wait_input \<Rightarrow> bytes \<Rightarrow> 'c conns \<Rightarrow> 'c conns cres option" where
  "upk_clnet_req_preamble fuel run inp client_id ctrl =
     bind_o (Some (upk_create_req_preamble client_id)) (\<lambda>preamble.
     bind_o (upk_clnet_serial_request fuel run inp (Some preamble) ctrl) (\<lambda>(pl, ctrl).
     Some (negotiated pl ctrl)))"

definition upk_clnet_ctrl_connect ::
    "nat \<Rightarrow> 'c runner \<Rightarrow> wait_input \<Rightarrow> bytes \<Rightarrow> int \<times> int \<Rightarrow> rd list \<Rightarrow> wr list \<Rightarrow> int \<Rightarrow> 'c conns cres option" where
  "upk_clnet_ctrl_connect fuel run inp client_id connect rs ws sockopts =
     (let ctrl = upk_net_conn_handles_init None;
          s = upk_domain_socket_connect (fst connect) (snd connect) in
      bind_o (if 0 \<le> s then
          bind_o (Some (list_head ctrl)) (\<lambda>ctrl.
          bind_o (Some (upk_net_add_socket_handle rs ws sockopts s ctrl)) (\<lambda>(_, ctrl).
          upk_clnet_req_preamble fuel run inp client_id ctrl))
        else Some (Inr ctrl)) (\<lambda>ctrl.
      Some (list_head ctrl)))"

section \<open>Requests\<close>

text \<open>A request is made for the version of the first connection.\<close>

definition with_version :: "'c conns \<Rightarrow> (u32 \<Rightarrow> upk_packet option cres) \<Rightarrow> upk_packet option cres" where
  "with_version ctrl create = bind_c (head_conn ctrl) (\<lambda>h. create (version_id h))"

text \<open>The answer to an action or a signal: success only if a result says so.\<close>

definition result_of :: "(u32 \<times> upk_payload) option \<Rightarrow> bool cres" where
  "result_of pl =
     (case pl of None \<Rightarrow> Inr False
      | Some (t, d) \<Rightarrow>
          if t = UPK_REPL_RESULT
          then (case d of Repl_result r \<Rightarrow> Inr (res_successful r) | _ \<Rightarrow> Inl Type_confusion)
          else Inr False)"

definition upk_clnet_req_action ::
    "nat \<Rightarrow> 'c runner \<Rightarrow> wait_input \<Rightarrow> bytes \<Rightarrow> bytes \<Rightarrow> 'c conns \<Rightarrow> (bool \<times> 'c conns) cres option" where
  "upk_clnet_req_action fuel run inp svc_id action ctrl =
     bind_o (Some (with_version ctrl (\<lambda>v. upk_create_req_action v svc_id action))) (\<lambda>req.
     bind_o (upk_clnet_serial_request fuel run inp req ctrl) (\<lambda>(pl, ctrl).
     bind_o (Some (result_of pl)) (\<lambda>success. Some (Inr (success, ctrl)))))"

definition upk_clnet_req_signal ::
    "nat \<Rightarrow> 'c runner \<Rightarrow> wait_input \<Rightarrow> bytes \<Rightarrow> u32 \<Rightarrow> bool \<Rightarrow> bool \<Rightarrow> 'c conns \<Rightarrow>
     (bool \<times> 'c conns) cres option" where
  "upk_clnet_req_signal fuel run inp svc_id signal should_signal_sid should_signal_pgrp ctrl =
     bind_o (Some (with_version ctrl
       (\<lambda>v. upk_create_req_signal v svc_id signal should_signal_sid should_signal_pgrp))) (\<lambda>req.
     bind_o (upk_clnet_serial_request fuel run inp req ctrl) (\<lambda>(pl, ctrl).
     bind_o (Some (result_of pl)) (\<lambda>success. Some (Inr (success, ctrl)))))"

definition zero_svcinfo :: v0_svcinfo where
  "zero_svcinfo =
     \<lparr>si_last_action_time = 0, si_last_action_status = 0, si_last_action_name_len = 0,
      si_last_action_name = replicate UPK_MAX_STRING_LEN 0, si_last_signal_time = 0, si_last_signal_status = 0,
      si_last_signal_name = 0, si_buddy_pid = 0, si_proc_pid = 0, si_current_state = 0, si_prior_state = 0,
      si_n_recorded_restarts = 0\<rparr>"

definition svcinfo_of :: "(u32 \<times> upk_payload) option \<Rightarrow> v0_svcinfo cres" where
  "svcinfo_of pl =
     (case pl of None \<Rightarrow> Inr zero_svcinfo
      | Some (t, d) \<Rightarrow>
          if t = UPK_REPL_SVCINFO
          then (case d of Repl_svcinfo r \<Rightarrow> Inr (inf_svcinfo r) | _ \<Rightarrow> Inl Type_confusion)
          else Inr zero_svcinfo)"

definition upk_clnet_req_status ::
    "nat \<Rightarrow> 'c runner \<Rightarrow> wait_input \<Rightarrow> bytes \<Rightarrow> u32 \<Rightarrow> 'c conns \<Rightarrow> (v0_svcinfo \<times> 'c conns) cres option" where
  "upk_clnet_req_status fuel run inp svc_id restart_window_seconds ctrl =
     bind_o (Some (with_version ctrl (\<lambda>v. upk_create_req_status v svc_id restart_window_seconds))) (\<lambda>req.
     bind_o (upk_clnet_serial_request fuel run inp req ctrl) (\<lambda>(pl, ctrl).
     bind_o (Some (svcinfo_of pl)) (\<lambda>svcinfo. Some (Inr (svcinfo, ctrl)))))"

section \<open>Disconnecting\<close>

text \<open>Whatever the answer is, the connection is closed.\<close>

definition upk_clnet_req_disconnect :: "nat \<Rightarrow> 'c runner \<Rightarrow> wait_input \<Rightarrow> 'c conns \<Rightarrow> 'c conns cres option" where
  "upk_clnet_req_disconnect fuel run inp ctrl =
     bind_o (if l_head (handles ctrl) = None then Some (Inr ctrl)
       else bind_o (Some (with_version ctrl upk_create_req_disconnect)) (\<lambda>req.
         bind_o (upk_clnet_serial_request fuel run inp req ctrl) (\<lambda>(_, ctrl).
         bind_o (Some (list_head ctrl)) (\<lambda>ctrl. Some (upk_disconnect_handle ctrl)))))
     (upk_net_flush_closed_sockets fuel)"

definition upk_clnet_ctrl_disconnect :: "nat \<Rightarrow> 'c runner \<Rightarrow> wait_input \<Rightarrow> 'c conns \<Rightarrow> 'c conn ulist cres option" where
  "upk_clnet_ctrl_disconnect fuel run inp ctrl =
     bind_o (upk_clnet_req_disconnect fuel run inp ctrl) (\<lambda>ctrl. upklist_free fuel (handles ctrl))"

section \<open>A list with one connection\<close>

definition solo :: "nat \<Rightarrow> nat \<Rightarrow> u32 \<Rightarrow> ptr \<Rightarrow> ptr \<Rightarrow> 'a \<Rightarrow> 'a ulist" where
  "solo a f n pv cur x = \<lparr>cells = [a \<mapsto> (x, None)], fresh = f, l_head = Some a, l_tail = Some a, prevp = pv,
     nextp = None, thisp = cur, l_count = n\<rparr>"

lemma solo_sel [simp]:
  "cells (solo a f n pv cur x) a = Some (x, None)" "l_head (solo a f n pv cur x) = Some a"
  "thisp (solo a f n pv cur x) = cur" "this_val (solo a f n pv (Some a) x) = Inr x"
  by (simp_all add: solo_def this_val_def)

lemma solo_moves [simp]:
  "foreach_init (solo a f n pv cur x) = Inr (solo a f n None (Some a) x)"
  "upklist_head (solo a f n pv cur x) = Inr (solo a f n None (Some a) x)"
  "foreach_continue (solo a f n pv (Some a) x) = Inr (solo a f n (Some a) None x)"
  "set_this y (solo a f n pv (Some a) x) = Inr (solo a f n pv (Some a) y)"
  by (simp_all add: solo_def foreach_init_def foreach_continue_def upklist_head_def set_this_def nextnode_def Let_def)

lemma foreach_solo:
  "upklist_foreach (Suc (Suc m)) body (s, solo a f n pv cur x) =
     (case body (s, solo a f n None (Some a) x) of Inl e \<Rightarrow> Some (Inl e)
      | Inr (s, l) \<Rightarrow> bind_o (Some (foreach_continue l)) (\<lambda>l. foreach_loop (Suc m) body (s, l)))"
  by (auto simp: upklist_foreach_def bind_o_def bind_c_def split: sum.split)

definition one_conn :: "'c conns \<Rightarrow> nat \<Rightarrow> nat \<Rightarrow> u32 \<Rightarrow> ptr \<Rightarrow> ptr \<Rightarrow> 'c conn \<Rightarrow> 'c conns" where
  "one_conn hs a f n pv cur h = hs\<lparr>handles := solo a f n pv cur h\<rparr>"

lemma one_conn_sel [simp]:
  "handles (one_conn hs a f n pv cur h) = solo a f n pv cur h"
  "pending_writeq (one_conn hs a f n pv cur h) = pending_writeq hs"
  "(one_conn hs a f n pv cur h)\<lparr>handles := solo a f n pv' cur' h'\<rparr> = one_conn hs a f n pv' cur' h'"
  "(one_conn hs a f n pv cur h)\<lparr>pending_writeq := p\<rparr> = one_conn (hs\<lparr>pending_writeq := p\<rparr>) a f n pv cur h"
  "conn_at a (one_conn hs a f n pv cur h) = Inr h"
  "this_conn (one_conn hs a f n pv (Some a) h) = Inr h"
  "head_conn (one_conn hs a f n pv cur h) = Inr h"
  "list_head (one_conn hs a f n pv cur h) = Inr (one_conn hs a f n None (Some a) h)"
  by (simp_all add: one_conn_def conn_at_def this_conn_def head_conn_def list_head_def)

lemma one_conn_set [simp]:
  "set_conn h' (one_conn hs a f n pv (Some a) h) = Inr (one_conn hs a f n pv (Some a) h')"
  "set_conn_at a g (one_conn hs a f n pv cur h) = Inr (one_conn hs a f n pv cur (g h))"
  by (simp_all add: one_conn_def set_conn_def set_conn_at_def solo_def set_this_def)

text \<open>A connection without callbacks, with a descriptor that \<open>select\<close> can watch.\<close>

definition silent :: "'c conn \<Rightarrow> bool" where
  "silent h \<longleftrightarrow> (case cb_stack h of None \<Rightarrow> True | Some st \<Rightarrow> upklist_top st = None)"

definition watchable :: "poll \<Rightarrow> 'c conn \<Rightarrow> bool" where
  "watchable k h \<longleftrightarrow> 0 < fd h \<and> fd h < FD_SETSIZE \<and> 0 < getfl k (fd h)"

lemma dispatch_call_silent [simp]:
  "silent h \<Longrightarrow> dispatch_call sel run (Some a) (one_conn hs a f n pv cur h) =
     Inr (one_conn hs a f n pv cur h)"
  "dispatch_call sel run None hs = Inr hs"
  by (auto simp: dispatch_call_def silent_def split: option.split option.split_asm)

lemma fd_sets_solo:
  assumes "watchable k h"
  shows "\<exists>nfds. upk_build_fd_sets (Suc (Suc m)) k (one_conn hs a f n pv cur h) =
    Some (Inr (([fd h], nfds), one_conn hs a f n (Some a) None h))"
  using assms
  by (auto simp: upk_build_fd_sets_def foreach_solo watch_fd_def fd_set_add_def watchable_def)

text \<open>A round, up to what it does with the connection.\<close>

lemma dispatcher_solo:
  assumes "watchable k h" and "silent h" and "cur = None \<or> cur = Some a"
  shows "select_result k \<le> 0 \<Longrightarrow>
      upk_net_event_dispatcher (Suc (Suc m)) run k (one_conn hs a f n pv cur h) =
      Some (Inr (one_conn hs a f n (Some a) None h))"
    and "0 < select_result k \<Longrightarrow> silent h' \<Longrightarrow>
      bind_c (if can_read k (fd h) then upk_read_packets run (one_conn hs a f n None (Some a) h)
        else Inr (one_conn hs a f n None (Some a) h)) (\<lambda>hs'.
      if pending_writeq hs = 0 then Inr hs'
      else bind_c (this_conn hs') (\<lambda>g.
         bind_c (fd_isset (fd g) (\<lambda>d. d \<in> set [fd h] \<and> can_write k d)) (\<lambda>writable.
         if writable then upk_write_packets run hs' else Inr hs'))) =
        Inr (one_conn hs' a f n None (Some a) h') \<Longrightarrow>
      upk_net_event_dispatcher (Suc (Suc m)) run k (one_conn hs a f n pv cur h) =
      Some (Inr (one_conn hs' a f n (Some a) None h'))"
proof -
  define cbs :: ptr where "cbs = (if cur = None \<or> cb_stack h = None then None else Some a)"
  have cbs: "callbacks_of (one_conn hs a f n pv cur h) = Inr cbs" "cbs = None \<or> cbs = Some a"
    using assms(3) by (auto simp: callbacks_of_def cbs_def)
  then have call: "dispatch_call sel run cbs (one_conn hs1 a f n pv1 cur1 h1) = Inr (one_conn hs1 a f n pv1 cur1 h1)"
    if "silent h1" for sel :: "'a net_cb_stk \<Rightarrow> 'a option" and hs1 pv1 cur1 h1
    using that by auto
  obtain nfds where fds: "upk_build_fd_sets (Suc (Suc m)) k (one_conn hs a f n pv cur h) =
      Some (Inr (([fd h], nfds), one_conn hs a f n (Some a) None h))"
    using fd_sets_solo [OF assms(1)] by blast
  show "upk_net_event_dispatcher (Suc (Suc m)) run k (one_conn hs a f n pv cur h) =
      Some (Inr (one_conn hs a f n (Some a) None h))" if "select_result k \<le> 0"
    using that by (simp add: upk_net_event_dispatcher_def cbs(1) call fds assms(2))
  assume sel: "0 < select_result k" and quiet: "silent h'"
    and body: "bind_c (if can_read k (fd h) then upk_read_packets run (one_conn hs a f n None (Some a) h)
        else Inr (one_conn hs a f n None (Some a) h)) (\<lambda>hs'.
      if pending_writeq hs = 0 then Inr hs'
      else bind_c (this_conn hs') (\<lambda>g.
         bind_c (fd_isset (fd g) (\<lambda>d. d \<in> set [fd h] \<and> can_write k d)) (\<lambda>writable.
         if writable then upk_write_packets run hs' else Inr hs'))) =
        Inr (one_conn hs' a f n None (Some a) h')"
  have isset: "fd_isset (fd h) P = Inr (P (fd h))" for P
    using assms(1) by (simp add: fd_isset_def watchable_def)
  have ok: "0 \<le> fd h \<and> getfl k (fd h) \<noteq> 0" using assms(1) by (simp add: watchable_def)
  have asked: "(\<not> 0 < pending_writeq hs) = (pending_writeq hs = 0)" by (simp add: word_gt_0)
  have "serve_conn run k [fd h] (0 < pending_writeq hs) cbs (one_conn hs a f n None (Some a) h) =
      Inr (one_conn hs' a f n None (Some a) h')"
    unfolding serve_conn_def call [OF assms(2)] bind_c_simps one_conn_sel if_P [OF ok] isset [of "\<lambda>d. d \<in> set [fd h] \<and> can_read k d"]
      asked body [symmetric] by simp
  then have "each_conn (Suc (Suc m)) (serve_conn run k [fd h] (0 < pending_writeq hs) cbs)
      (one_conn hs a f n (Some a) None h) = Some (Inr (one_conn hs' a f n (Some a) None h'))"
    by (simp add: each_conn_def foreach_solo)
  then show "upk_net_event_dispatcher (Suc (Suc m)) run k (one_conn hs a f n pv cur h) =
      Some (Inr (one_conn hs' a f n (Some a) None h'))"
    using sel by (simp add: upk_net_event_dispatcher_def cbs(1) call fds assms(2) quiet)
qed


section \<open>Rounds\<close>

definition settled :: "'a ulist \<Rightarrow> bool" where
  "settled q \<longleftrightarrow> ulist_ok q [] \<and> tail_ok q [] \<and> nextp q = None \<and> prevp q = None"

lemma settled_init [simp]: "settled upklist_init"
  by (simp add: settled_def)

lemma dequeue_settled:
  assumes "this_val q = Inr m" and "prevp q = None" and "nextp q = None" and "l_count q = 1"
  shows "\<exists>q'. dequeue_message (h\<lparr>writeq := q\<rparr>) = Inr (h\<lparr>writeq := q'\<rparr>) \<and> settled q'"
  using assms
  by (auto simp: dequeue_message_def upklist_unlink_def this_val_def settled_def ulist_ok_def tail_ok_def Let_def
      split: option.splits)

text \<open>A round in which the connection can be written, and one in which it can be read.\<close>

definition writable_round :: "poll \<Rightarrow> int \<Rightarrow> bool" where
  "writable_round k s \<longleftrightarrow> 0 < select_result k \<and> 0 < getfl k s \<and> can_write k s \<and> \<not> can_read k s"

definition readable_round :: "poll \<Rightarrow> int \<Rightarrow> bool" where
  "readable_round k s \<longleftrightarrow> 0 < select_result k \<and> 0 < getfl k s \<and> can_read k s"

definition usable_fd :: "int \<Rightarrow> bool" where
  "usable_fd s \<longleftrightarrow> 0 < s \<and> s < FD_SETSIZE"

lemma fd_isset_usable: "usable_fd s \<Longrightarrow> fd_isset s P = Inr (P s)"
  by (simp add: usable_fd_def fd_isset_def)

lemma silent_update [simp]:
  "silent (h\<lparr>outcomes := os\<rparr>) = silent h" "silent (h\<lparr>wire := w\<rparr>) = silent h" "silent (h\<lparr>writeq := q\<rparr>) = silent h"
  "silent (h\<lparr>inbox := i\<rparr>) = silent h" "silent (h\<lparr>readbuf := b\<rparr>) = silent h"
  "silent (h\<lparr>last_pkt_data := d\<rparr>) = silent h" "silent (h\<lparr>fd := s\<rparr>) = silent h"
  by (simp_all add: silent_def)

text \<open>One writable round sends the next bytes; the last one takes the message off the queue.\<close>

lemma write_round:
  assumes "usable_fd (fd h)" and "silent h" and "cur = None \<or> cur = Some a" and "pending_writeq hs = 1"
    and "writable_round k (fd h)" and "writing h m" and "after_write_callback m = None"
    and "outcomes h = Wr_bytes n # io" and "unat (n_bytes_written m) < unat (msg_len m)"
    and "unat (msg_len m) \<le> length (msg m)" and "0 < n" and "n \<le> unat (msg_len m) - unat (n_bytes_written m)"
    and "prevp (writeq h) = None" and "nextp (writeq h) = None" and "l_count (writeq h) = 1"
  shows "\<exists>q m'. upk_net_event_dispatcher (Suc (Suc fuel)) run k (one_conn hs a f cnt pv cur h) =
      Some (Inr (one_conn (if unat (n_bytes_written m) + n = unat (msg_len m) then hs\<lparr>pending_writeq := 0\<rparr> else hs)
        a f cnt (Some a) None (h\<lparr>outcomes := io,
          wire := wire h @ take n (drop (unat (n_bytes_written m)) (msg m)), writeq := q\<rparr>))) \<and>
      (if unat (n_bytes_written m) + n = unat (msg_len m) then settled q
       else this_val q = Inr m' \<and> l_count q = 1 \<and> prevp q = None \<and> nextp q = None \<and>
         m' = m\<lparr>n_bytes_written := n_bytes_written m + of_nat n\<rparr> \<and>
         unat (n_bytes_written m') = unat (n_bytes_written m) + n)"
proof -
  let ?w = "unat (n_bytes_written m)" and ?done = "unat (n_bytes_written m) + n = unat (msg_len m)"
  let ?h = "\<lambda>q. h\<lparr>outcomes := io, wire := wire h @ take n (drop ?w (msg m)), writeq := q\<rparr>"
  let ?m = "m\<lparr>n_bytes_written := n_bytes_written m + of_nat n\<rparr>"
  obtain q where q: "send_some h = Inr (?done, ?h q)" "writing (?h q) ?m"
    "unat (n_bytes_written m + of_nat n) = ?w + n" "l_count q = l_count (writeq h)"
    "nextp q = nextp (writeq h)" "prevp q = prevp (writeq h)"
    by (rule send_step [OF assms(6,8-12)]) auto
  have at: "this_val q = Inr ?m" using q(2) by (simp add: writing_def)
  obtain q' where q': "dequeue_message ((?h q)\<lparr>writeq := q\<rparr>) = Inr ((?h q)\<lparr>writeq := q'\<rparr>)" "settled q'"
    using dequeue_settled [OF at, of "?h q"] q(4-6) assms(13-15) by auto
  let ?q = "if ?done then q' else q"
  let ?hs = "if ?done then hs\<lparr>pending_writeq := 0\<rparr> else hs"
  have "0 \<le> fd h" using assms(1) by (simp add: usable_fd_def)
  then have "upk_write_packets run (one_conn hs a f cnt None (Some a) h) =
      Inr (one_conn ?hs a f cnt None (Some a) (?h ?q))"
    using q(1) at q'(1) assms(4,7) by (simp add: upk_write_packets_def)
  then have "upk_net_event_dispatcher (Suc (Suc fuel)) run k (one_conn hs a f cnt pv cur h) =
      Some (Inr (one_conn ?hs a f cnt (Some a) None (?h ?q)))"
    using assms(1-5)
    by (intro dispatcher_solo(2))
      (simp_all add: watchable_def usable_fd_def writable_round_def fd_isset_usable assms(1))
  moreover have "if ?done then settled ?q else this_val ?q = Inr ?m \<and> l_count ?q = 1 \<and> prevp ?q = None \<and>
      nextp ?q = None \<and> ?m = m\<lparr>n_bytes_written := n_bytes_written m + of_nat n\<rparr> \<and>
      unat (n_bytes_written ?m) = ?w + n"
    using q'(2) at q(3-6) assms(13-15) by simp
  ultimately show ?thesis by (intro exI [of _ ?q] exI [of _ ?m] conjI) (simp_all split: if_splits)
qed

lemma write_rounds:
  assumes "usable_fd (fd h)" and "silent h" and "cur = None \<or> cur = Some a" and "pending_writeq hs = 1"
    and "writing h m" and "after_write_callback m = None" and "outcomes h = map Wr_bytes ks @ io"
    and "\<forall>k\<in>set ks. 0 < k" and "unat (n_bytes_written m) + sum_list ks = unat (msg_len m)" and "ks \<noteq> []"
    and "unat (msg_len m) \<le> length (msg m)"
    and "prevp (writeq h) = None" and "nextp (writeq h) = None" and "l_count (writeq h) = 1"
    and "last_pkt_data h = None" and "length ws = length ks"
    and "\<forall>(k, now)\<in>set ws. writable_round k (fd h) \<and> \<not> timed_out timeout start now"
  shows "\<exists>q. settled q \<and> block_loop (Suc (Suc fuel)) run timeout start a (ws @ rest) (one_conn hs a f cnt pv cur h) =
    block_loop (Suc (Suc fuel)) run timeout start a rest
      (one_conn (hs\<lparr>pending_writeq := 0\<rparr>) a f cnt (Some a) None (h\<lparr>outcomes := io,
        wire := wire h @ take (sum_list ks) (drop (unat (n_bytes_written m)) (msg m)), writeq := q\<rparr>))"
  using assms
proof (induction ks arbitrary: ws h m pv cur)
  case (Cons n ks)
  let ?w = "unat (n_bytes_written m)"
  let ?h = "\<lambda>q. h\<lparr>outcomes := map Wr_bytes ks @ io, wire := wire h @ take n (drop ?w (msg m)), writeq := q\<rparr>"
  obtain k now ws1 where ws: "ws = (k, now) # ws1" "length ws1 = length ks"
    using Cons.prems(16) by (cases ws) auto
  have round: "writable_round k (fd h)" "\<not> timed_out timeout start now" using Cons.prems(17) ws(1) by auto
  have n: "0 < n" "n \<le> unat (msg_len m) - ?w" "?w < unat (msg_len m)" using Cons.prems(8,9) by auto
  let ?done = "?w + n = unat (msg_len m)"
  obtain q m' where q: "upk_net_event_dispatcher (Suc (Suc fuel)) run k (one_conn hs a f cnt pv cur h) =
      Some (Inr (one_conn (if ?done then hs\<lparr>pending_writeq := 0\<rparr> else hs) a f cnt (Some a) None (?h q)))"
    "if ?done then settled q else this_val q = Inr m' \<and> l_count q = 1 \<and> prevp q = None \<and> nextp q = None \<and>
         m' = m\<lparr>n_bytes_written := n_bytes_written m + of_nat n\<rparr> \<and> unat (n_bytes_written m') = ?w + n"
    using write_round [OF Cons.prems(1-4) round(1) Cons.prems(5,6), of n "map Wr_bytes ks @ io" fuel run f cnt pv] Cons.prems n
    by auto
  have step: "block_loop (Suc (Suc fuel)) run timeout start a (ws @ rest) (one_conn hs a f cnt pv cur h) =
      block_loop (Suc (Suc fuel)) run timeout start a (ws1 @ rest)
        (one_conn (if ?done then hs\<lparr>pending_writeq := 0\<rparr> else hs) a f cnt (Some a) None (?h q))"
    using Cons.prems(1,15) round(2) by (simp add: ws(1) q(1) got_type_def usable_fd_def)
  show ?case
  proof (cases "ks = []")
    case True
    then have "?done" using Cons.prems(9) by simp
    with q(2) step True ws(2) show ?thesis by (intro exI [of _ q]) simp
  next
    case False
    then obtain n' where "n' \<in> set ks" "0 < n'" using Cons.prems(8) by (cases ks) auto
    then have "0 < sum_list ks" by (metis bot_nat_0.not_eq_extremum sum_list_eq_0_iff)
    then have unfinished: "\<not> ?done" using Cons.prems(9) by simp
    with q(2) have m': "this_val q = Inr m'" "l_count q = 1" "prevp q = None" "nextp q = None"
      "m' = m\<lparr>n_bytes_written := n_bytes_written m + of_nat n\<rparr>" "unat (n_bytes_written m') = ?w + n" by auto
    have "writing (?h q) m'" using m'(1,2) by (intro writingI) simp_all
    then obtain q' where q': "settled q'"
      "block_loop (Suc (Suc fuel)) run timeout start a (ws1 @ rest) (one_conn hs a f cnt (Some a) None (?h q)) =
        block_loop (Suc (Suc fuel)) run timeout start a rest
        (one_conn (hs\<lparr>pending_writeq := 0\<rparr>) a f cnt (Some a) None ((?h q)\<lparr>outcomes := io,
          wire := wire (?h q) @ take (sum_list ks) (drop (unat (n_bytes_written m')) (msg m')), writeq := q'\<rparr>))"
      using Cons.IH [of "?h q" None m' ws1 "Some a"] Cons.prems m' False ws by auto
    have "take (sum_list (n # ks)) (drop ?w (msg m)) =
        take n (drop ?w (msg m)) @ take (sum_list ks) (drop (?w + n) (msg m))"
      by (simp add: take_add add.commute)
    then show ?thesis
      using q' step unfinished m'(5,6) by (intro exI [of _ q']) simp
  qed
qed simp

section \<open>Answers\<close>

definition packet_len :: "upk_packet \<Rightarrow> nat" where
  "packet_len pkt = UPK_PACKET_HEADER_LEN + unat (pkt_payload_len pkt) + UPK_PACKET_FOOTER_LEN"

text \<open>The bytes of a packet on the wire.\<close>

definition frame_of :: "upk_packet \<Rightarrow> bytes \<Rightarrow> bool" where
  "frame_of pkt bs \<longleftrightarrow> wf_packet pkt \<and> packet_len pkt \<le> UPK_MAX_PACKET_SIZE \<and>
     (\<exists>pkt' rest. upk_serialize_packet pkt = Inr (pkt', bs @ rest)) \<and> length bs = packet_len pkt"

lemma frame_cases:
  assumes "frame_of pkt bs"
  obtains b crc where "bs = packet_header pkt @ b @ put_uint32 crc" and "length b = unat (pkt_payload_len pkt)"
    and "\<And>rest. upk_deserialize_packet (packet_header pkt @ b @ put_uint32 crc @ rest) =
      Inr (Pkt_live (pkt\<lparr>pkt_crc32 := crc\<rparr>), UPK_ERR_NONE)"
proof -
  have wf: "wf_packet pkt" using assms by (simp add: frame_of_def)
  obtain b crc where b: "length b = unat (pkt_payload_len pkt)"
    and ser: "upk_serialize_packet pkt =
      Inr (pkt\<lparr>pkt_crc32 := crc\<rparr>, packet_header pkt @ b @ put_uint32 crc @ replicate 4 0)"
    and des: "\<And>rest. upk_deserialize_packet (packet_header pkt @ b @ put_uint32 crc @ rest) =
      Inr (Pkt_live (pkt\<lparr>pkt_crc32 := crc\<rparr>), UPK_ERR_NONE)"
    using wf by (rule packet_frame) blast
  obtain rest where "bs @ rest = (packet_header pkt @ b @ put_uint32 crc) @ replicate 4 0" "length bs = packet_len pkt"
    using assms ser by (auto simp: frame_of_def)
  moreover have "length (packet_header pkt @ b @ put_uint32 crc) = packet_len pkt"
    using b by (simp add: packet_len_def packet_consts put_uint32_def)
  ultimately have "bs = packet_header pkt @ b @ put_uint32 crc"
    by (metis append_eq_append_conv)
  then show thesis using b des by (rule that)
qed

lemma read_round:
  assumes "usable_fd (fd h)" and "silent h" and "cur = None \<or> cur = Some a" and "pending_writeq hs = 0"
    and "readable_round k (fd h)" and "idle h" and "frame_of reply bs" and "inbox h = Rd_bytes bs # io"
    and "pkt_payload reply = Some d"
  shows "upk_net_event_dispatcher (Suc (Suc fuel)) run k (one_conn hs a f cnt pv cur h) =
    Some (Inr (one_conn hs a f cnt (Some a) None (h\<lparr>inbox := io, last_pkt_data := Some (payload_msgtype d, d),
      readbuf := replicate UPK_MAX_PACKET_SIZE 0\<rparr>)))"
proof -
  obtain b crc where b: "bs = packet_header reply @ b @ put_uint32 crc" "length b = unat (pkt_payload_len reply)"
    and des: "\<And>rest. upk_deserialize_packet (packet_header reply @ b @ put_uint32 crc @ rest) =
      Inr (Pkt_live (reply\<lparr>pkt_crc32 := crc\<rparr>), UPK_ERR_NONE)"
    using assms(7) by (rule frame_cases) blast
  have wf: "wf_packet reply" "packet_len reply \<le> UPK_MAX_PACKET_SIZE" using assms(7) by (simp_all add: frame_of_def)
  let ?body = "b @ put_uint32 crc"
  let ?h = "h\<lparr>inbox := io, readbuf := packet_header reply @ ?body @ drop (UPK_PACKET_HEADER_LEN + length ?body) (readbuf h)\<rparr>"
  let ?done = "h\<lparr>inbox := io, last_pkt_data := Some (payload_msgtype d, d), readbuf := replicate UPK_MAX_PACKET_SIZE 0\<rparr>"
  have len: "length ?body = unat (pkt_payload_len reply) + UPK_PACKET_FOOTER_LEN"
    using b(2) by (simp add: packet_consts put_uint32_def)
  have rec: "receive h = Inr (True, ?h)"
    using receive_frame [OF assms(6) _ len, of io] wf wf_packet_len [OF wf(1)] assms(8) b(1) len
    by (simp add: packet_len_def)
  have buf: "length (readbuf ?h) = UPK_MAX_PACKET_SIZE"
    using assms(6) wf(2) len by (simp add: idle_def packet_len_def packet_consts)
  have open_: "0 \<le> fd h" using assms(1) by (simp add: usable_fd_def)
  have call: "upk_call_received_packet_callbacks run (reply\<lparr>pkt_crc32 := crc\<rparr>) (one_conn hs a f cnt None (Some a) ?h) =
      Inr (one_conn hs a f cnt None (Some a) (?h\<lparr>last_pkt_data := Some (payload_msgtype d, d)\<rparr>))"
    using assms(2,9)
    by (auto simp: upk_call_received_packet_callbacks_def upk_get_msgtype_def silent_def split: option.splits)
  have "upk_deserialize_packet (readbuf ?h) = Inr (Pkt_live (reply\<lparr>pkt_crc32 := crc\<rparr>), UPK_ERR_NONE)"
    using des by simp
  then have read: "upk_read_packets run (one_conn hs a f cnt None (Some a) h) = Inr (one_conn hs a f cnt None (Some a) ?done)"
    using open_ rec call buf by (simp add: upk_read_packets_def del: length_append append.simps)
  show ?thesis
    by (rule dispatcher_solo(2))
      (use assms read in \<open>simp_all add: watchable_def usable_fd_def readable_round_def\<close>)
qed

section \<open>A request and its answer\<close>

lemma queued_bytes:
  assumes "queue_message pkt cb h = Inr h'" and "upk_serialize_packet pkt = Inr (pkt', buf)"
    and "this_val (writeq h') = Inr m" and "unat (msg_len m) \<le> length (msg m)"
  shows "take (unat (msg_len m)) (msg m) = take (unat (msg_len m)) buf"
proof -
  let ?len = "ucast (of_nat UPK_PACKET_HEADER_LEN + pkt_payload_len pkt + of_nat UPK_PACKET_FOOTER_LEN) :: u64"
  obtain q b q' where q: "(if length buf < unat ?len then Inl Oob_read
      else store_at 0 (take (unat ?len) buf) (msg (empty_netmsg :: 'a netmsg))) = Inr b"
    "set_this \<lparr>msg = b, msg_len = ?len, n_bytes_written = 0, after_write_callback = cb\<rparr> q = Inr q'" "h' = h\<lparr>writeq := q'\<rparr>"
    using assms(1,2) by (auto simp: queue_message_def bind_c_Inr_iff Let_def)
  have "this_val q' = Inr \<lparr>msg = b, msg_len = ?len, n_bytes_written = 0, after_write_callback = cb\<rparr>"
    using q(2) by (auto simp: set_this_def this_val_def split: option.splits)
  then have m: "m = \<lparr>msg = b, msg_len = ?len, n_bytes_written = 0, after_write_callback = cb\<rparr>"
    using assms(3) q(3) by simp
  have "unat ?len \<le> length buf" "store_at 0 (take (unat ?len) buf) (msg (empty_netmsg :: 'a netmsg)) = Inr b"
    using q(1) by (auto split: if_splits)
  then show ?thesis by (auto simp: m store_at_def split: if_splits)
qed

text \<open>A connection between two requests.\<close>

definition ready :: "nat \<Rightarrow> 'c conn \<Rightarrow> 'c conns \<Rightarrow> bool" where
  "ready a h hs \<longleftrightarrow> (\<exists>f n pv cur. hs = one_conn hs a f n pv cur h \<and> (cur = None \<or> cur = Some a)) \<and>
     usable_fd (fd h) \<and> silent h \<and> idle h \<and> settled (writeq h) \<and> pending_writeq hs = 0"

text \<open>While the request is waited for, the socket takes bytes \<open>n\<close> times and then has something to read,
  before the request has timed out.\<close>

definition answered :: "wait_input \<Rightarrow> int \<Rightarrow> nat \<Rightarrow> bool" where
  "answered inp s n \<longleftrightarrow> (\<exists>ws k now rest. wait_rounds inp = ws @ (k, now) # rest \<and> length ws = n \<and>
     (\<forall>(k, now)\<in>set ws. writable_round k s \<and> \<not> timed_out (Some request_timeout) (start_time inp) now) \<and>
     readable_round k s)"

lemma flush_solo:
  assumes "0 \<le> fd h"
  shows "upk_net_flush_closed_sockets (Suc (Suc fuel)) (one_conn hs a f n pv cur h) =
    Some (Inr (one_conn hs a f n (Some a) None h))"
  using assms
  by (simp add: upk_net_flush_closed_sockets_def foreach_solo unlink_where_def closed_def)

lemma serial_request:
  assumes "ready a h hs" and "frame_of req rq" and "frame_of reply bs" and "pkt_payload reply = Some d"
    and "payload_msgtype d \<noteq> 0" and "outcomes h = map Wr_bytes ks @ io" and "\<forall>k\<in>set ks. 0 < k"
    and "sum_list ks = packet_len req" and "inbox h = Rd_bytes bs # io'" and "answered inp (fd h) (length ks)"
  shows "\<exists>h' hs'. upk_clnet_serial_request (Suc (Suc fuel)) run inp (Some req) hs =
      Some (Inr (Some (payload_msgtype d, d), hs')) \<and>
    ready a h' hs' \<and> wire h' = wire h @ rq \<and> outcomes h' = io \<and> inbox h' = io' \<and> fd h' = fd h \<and>
    version_id h' = version_id h"
proof -
  obtain f n pv cur where hs: "hs = one_conn hs a f n pv cur h" "cur = None \<or> cur = Some a"
    using assms(1) by (auto simp: ready_def)
  have h: "usable_fd (fd h)" "silent h" "idle h" "settled (writeq h)" "pending_writeq hs = 0"
    using assms(1) by (simp_all add: ready_def)
  obtain ws k now rest where rounds: "wait_rounds inp = ws @ (k, now) # rest" "length ws = length ks"
    "\<forall>(k, now)\<in>set ws. writable_round k (fd h) \<and> \<not> timed_out (Some request_timeout) (start_time inp) now"
    "readable_round k (fd h)"
    using assms(10) by (auto simp: answered_def)
  have req: "wf_packet req" "packet_len req \<le> UPK_MAX_PACKET_SIZE" "length rq = packet_len req"
    using assms(2) by (simp_all add: frame_of_def)
  obtain req' tail where ser: "upk_serialize_packet req = Inr (req', rq @ tail)"
    using assms(2) by (auto simp: frame_of_def)
  obtain q m where q: "queue_message req None h = Inr (h\<lparr>writeq := q\<rparr>)" "this_val q = Inr m"
    "tail_ok q ([] @ [fresh (writeq h)])" "nextp q = None" "prevp q = None" "n_bytes_written m = 0"
    "after_write_callback m = None" "unat (msg_len m) = packet_len req" "unat (msg_len m) \<le> length (msg m)"
    by (rule queue_settled [OF req(1), of h "[]" None])
      (use h(4) req(2) in \<open>auto simp: settled_def packet_len_def\<close>)
  have sent: "take (packet_len req) (msg m) = rq"
    using queued_bytes [OF q(1) ser, of m] q(2,8,9) req(3) by simp
  define hq where "hq = h\<lparr>writeq := q, last_pkt_data := None\<rparr>"
  let ?hs = "hs\<lparr>pending_writeq := 1\<rparr>"
  have queue: "queue_request (Some req) hs = Inr (one_conn ?hs a f n None (Some a) (h\<lparr>writeq := q\<rparr>))"
    using q(1) h(5)
    by (subst hs(1)) (simp add: queue_request_def upk_queue_packet_def)
  have "ks \<noteq> []" using assms(8) by (auto simp: packet_len_def packet_consts)
  moreover have "l_count q = 1" using q(3) by (simp add: tail_ok_def)
  moreover have "writing hq m" using q(2) calculation(2) by (simp add: writing_def hq_def)
  ultimately have "\<exists>q. settled q \<and>
    block_loop (Suc (Suc fuel)) run (Some request_timeout) (start_time inp) a (ws @ (k, now) # rest)
        (one_conn ?hs a f n None (Some a) hq) =
      block_loop (Suc (Suc fuel)) run (Some request_timeout) (start_time inp) a ((k, now) # rest)
        (one_conn (?hs\<lparr>pending_writeq := 0\<rparr>) a f n (Some a) None (hq\<lparr>outcomes := io,
          wire := wire hq @ take (sum_list ks) (drop (unat (n_bytes_written m)) (msg m)), writeq := q\<rparr>))"
    by (intro write_rounds)
      (use h q(4-9) assms(6-8) rounds(2,3) in \<open>simp_all add: hq_def\<close>)
  then obtain q' where q': "settled q'"
    "block_loop (Suc (Suc fuel)) run (Some request_timeout) (start_time inp) a (ws @ (k, now) # rest)
        (one_conn ?hs a f n None (Some a) hq) =
      block_loop (Suc (Suc fuel)) run (Some request_timeout) (start_time inp) a ((k, now) # rest)
        (one_conn (?hs\<lparr>pending_writeq := 0\<rparr>) a f n (Some a) None (hq\<lparr>outcomes := io,
          wire := wire hq @ take (sum_list ks) (drop (unat (n_bytes_written m)) (msg m)), writeq := q'\<rparr>))"
    by blast
  let ?h1 = "hq\<lparr>outcomes := io, wire := wire h @ rq, writeq := q'\<rparr>" and ?hs1 = "?hs\<lparr>pending_writeq := 0\<rparr>"
  let ?h2 = "?h1\<lparr>inbox := io', last_pkt_data := Some (payload_msgtype d, d), readbuf := replicate UPK_MAX_PACKET_SIZE 0\<rparr>"
  have read: "upk_net_event_dispatcher (Suc (Suc fuel)) run k (one_conn ?hs1 a f n (Some a) None ?h1) =
      Some (Inr (one_conn ?hs1 a f n (Some a) None ?h2))"
    by (rule read_round [OF _ _ _ _ _ _ assms(3) _ assms(4)])
      (use h assms(9) rounds(4) in \<open>simp_all add: hq_def idle_def\<close>)
  have loop: "block_loop (Suc (Suc fuel)) run (Some request_timeout) (start_time inp) a (wait_rounds inp)
      (one_conn ?hs a f n None (Some a) hq) =
      Some (Inr (uint (payload_msgtype d), one_conn ?hs1 a f n (Some a) None ?h2))"
    using q'(2) read h(1) assms(5,8) q(6) sent
    by (simp add: rounds(1) got_type_def usable_fd_def hq_def)
  have open_: "0 \<le> fd ?h2" using h(1) by (simp add: hq_def usable_fd_def)
  have "upk_clnet_serial_request (Suc (Suc fuel)) run inp (Some req) hs =
      Some (Inr (Some (payload_msgtype d, d), one_conn ?hs1 a f n (Some a) None ?h2))"
    unfolding upk_clnet_serial_request_def queue upk_net_block_until_msg_def
    using loop flush_solo [OF open_] by (simp add: hq_def)
  moreover have "ready a ?h2 (one_conn ?hs1 a f n (Some a) None ?h2)"
    unfolding ready_def
    using h q'(1) by (auto simp: one_conn_def hq_def idle_def)
  ultimately show ?thesis
    by (intro exI [of _ ?h2] exI [of _ "one_conn ?hs1 a f n (Some a) None ?h2"]) (simp add: hq_def)
qed

lemma kind_not_zero: "snd (payload_kind d) \<noteq> 0"
  by (cases d) (simp_all add: msgtypes)

lemma frame_payload:
  assumes "frame_of pkt bs" and "pkt_payload pkt = Some d"
  shows "payload_msgtype d \<noteq> 0"
  using assms kind_not_zero [of d] by (simp add: frame_of_def wf_packet_def wf_payload_def)

lemma frame_decoded:
  assumes "frame_of pkt bs"
  shows "\<exists>crc. \<forall>rest. upk_deserialize_packet (bs @ rest) = Inr (Pkt_live (pkt\<lparr>pkt_crc32 := crc\<rparr>), UPK_ERR_NONE)"
proof -
  obtain b crc where b: "bs = packet_header pkt @ b @ put_uint32 crc"
    and des: "\<And>rest. upk_deserialize_packet (packet_header pkt @ b @ put_uint32 crc @ rest) =
      Inr (Pkt_live (pkt\<lparr>pkt_crc32 := crc\<rparr>), UPK_ERR_NONE)"
    using assms by (rule frame_cases) blast
  then show ?thesis by (intro exI [of _ crc]) simp
qed

lemma result_payload:
  assumes "upk_create_repl_result v txt ok = Inr (Some reply)"
  shows "\<exists>r. pkt_payload reply = Some (Repl_result r) \<and> res_successful r = ok \<and> msgtype r = UPK_REPL_RESULT"
  using assms
  by (auto simp: upk_create_repl_result_def v0_create_repl_result_def by_version_Some bind_c_Inr_iff Let_def
      end_helper_def upk_create_pkt_def split: if_splits)

lemma ready_head: "ready a h hs \<Longrightarrow> head_conn hs = Inr h"
  unfolding ready_def using one_conn_sel(7) by metis

lemma action_answered:
  assumes "ready a h hs" and "version_id h = 0" and "upk_create_req_action 0 svc_id action = Inr (Some req)"
    and "frame_of req rq" and "upk_create_repl_result v txt ok = Inr (Some reply)" and "frame_of reply bs"
    and "outcomes h = map Wr_bytes ks @ io" and "\<forall>k\<in>set ks. 0 < k" and "sum_list ks = packet_len req"
    and "inbox h = Rd_bytes bs # io'" and "answered inp (fd h) (length ks)"
  shows "\<exists>h' hs'. upk_clnet_req_action (Suc (Suc fuel)) run inp svc_id action hs = Some (Inr (ok, hs')) \<and>
    ready a h' hs' \<and> wire h' = wire h @ rq \<and> outcomes h' = io \<and> inbox h' = io'"
proof -
  obtain r where r: "pkt_payload reply = Some (Repl_result r)" "res_successful r = ok" "msgtype r = UPK_REPL_RESULT"
    using result_payload [OF assms(5)] by blast
  obtain h' hs' where out: "upk_clnet_serial_request (Suc (Suc fuel)) run inp (Some req) hs =
      Some (Inr (Some (payload_msgtype (Repl_result r), Repl_result r), hs'))" "ready a h' hs'" "wire h' = wire h @ rq"
    "outcomes h' = io" "inbox h' = io'"
    using serial_request [OF assms(1,4,6) r(1) frame_payload [OF assms(6) r(1)] assms(7-11)] by blast
  have "head_conn hs = Inr h" using assms(1) by (rule ready_head)
  then have "with_version hs (\<lambda>v. upk_create_req_action v svc_id action) = Inr (Some req)"
    using assms(2,3) by (simp add: with_version_def)
  with out r show ?thesis
    by (intro exI [of _ h'] exI [of _ hs']) (simp add: upk_clnet_req_action_def result_of_def)
qed

section \<open>Properties\<close>

text \<open>C20: a client that waits on one connection while nothing happens gives up at the first reading of the
  clock whose seconds and whose microseconds have both passed those of the start plus the timeout, and
  not before; so when the microseconds of the two add up to a second it waits for ever.\<close>

theorem wait_for_nothing:
  assumes "ready a h hs" and "thisp (handles hs) = Some a"
    and "\<forall>(k, now)\<in>set rounds. select_result k \<le> 0 \<and> 0 < getfl k (fd h)"
  shows "(if \<exists>(k, now)\<in>set rounds. tv_sec start + tv_sec t \<le> tv_sec now \<and> tv_usec start + tv_usec t \<le> tv_usec now
      then \<exists>hs'. upk_net_block_until_msg (Suc (Suc fuel)) run (Some t) start rounds hs = Some (Inr (- 1, hs'))
      else upk_net_block_until_msg (Suc (Suc fuel)) run (Some t) start rounds hs = None) \<and>
    (1000000 \<le> tv_usec start + tv_usec t \<and> (\<forall>(k, now)\<in>set rounds. tv_usec now < 1000000) \<longrightarrow>
      upk_net_block_until_msg (Suc (Suc fuel)) run (Some t) start rounds hs = None)"
proof -
  let ?h = "h\<lparr>last_pkt_data := None\<rparr>"
  obtain f n pv cur where hs: "hs = one_conn hs a f n pv cur h"
    using assms(1) by (auto simp: ready_def)
  have h: "usable_fd (fd ?h)" "silent ?h" "got_type ?h = 0"
    using assms(1) by (simp_all add: ready_def got_type_def)
  have loop: "cur = None \<or> cur = Some a \<Longrightarrow> \<forall>(k, now)\<in>set rounds. select_result k \<le> 0 \<and> 0 < getfl k (fd h) \<Longrightarrow>
      (if \<exists>(k, now)\<in>set rounds. timed_out (Some t) start now
       then \<exists>hs'. block_loop (Suc (Suc fuel)) run (Some t) start a rounds (one_conn hs a f n pv cur ?h) = Some (Inr (- 1, hs'))
       else block_loop (Suc (Suc fuel)) run (Some t) start a rounds (one_conn hs a f n pv cur ?h) = None)" for pv cur
  proof (induction rounds arbitrary: pv cur)
    case Nil
    then show ?case using h(1) by (simp add: usable_fd_def)
  next
    case (Cons r rounds)
    obtain k now where r: "r = (k, now)" by (cases r)
    have "upk_net_event_dispatcher (Suc (Suc fuel)) run k (one_conn hs a f n pv cur ?h) =
        Some (Inr (one_conn hs a f n (Some a) None ?h))"
      by (rule dispatcher_solo(1)) (use h Cons.prems r in \<open>auto simp: watchable_def usable_fd_def\<close>)
    then have "block_loop (Suc (Suc fuel)) run (Some t) start a (r # rounds) (one_conn hs a f n pv cur ?h) =
        (if timed_out (Some t) start now then Some (Inr (- 1, one_conn hs a f n (Some a) None ?h))
         else block_loop (Suc (Suc fuel)) run (Some t) start a rounds (one_conn hs a f n (Some a) None ?h))"
      using h by (simp add: r usable_fd_def)
    with Cons.IH [of None "Some a"] Cons.prems(2) r show ?case by simp
  qed
  have block: "upk_net_block_until_msg (Suc (Suc fuel)) run (Some t) start rounds hs =
      block_loop (Suc (Suc fuel)) run (Some t) start a rounds (one_conn hs a f n pv cur ?h)"
    using assms(2) by (subst hs, subst (asm) hs) (simp add: upk_net_block_until_msg_def)
  have "cur = Some a" using assms(2) by (subst (asm) hs) simp
  from loop [OF disjI2 [OF this] assms(3), of pv] show ?thesis
    unfolding block timed_out_def by (fastforce split: if_splits)
qed

text \<open>A new connection is ready for a request.\<close>

definition new_conn :: "rd list \<Rightarrow> wr list \<Rightarrow> int \<Rightarrow> 'c conn" where
  "new_conn rs ws s = empty_conn\<lparr>fd := s, cb_stack := Some upklist_init, inbox := rs, outcomes := ws\<rparr>"

definition new_client :: "rd list \<Rightarrow> wr list \<Rightarrow> int \<Rightarrow> 'c conns" where
  "new_client rs ws s = one_conn (upk_net_conn_handles_init None) 0 1 1 None (Some 0) (new_conn rs ws s)"

lemma socket_added:
  assumes "usable_fd s" and "sockopts \<noteq> 0"
  shows "bind_c (list_head (upk_net_conn_handles_init None)) (upk_net_add_socket_handle rs ws sockopts s) =
    Inr (True, new_client rs ws s)"
  using assms
  by (simp add: list_head_def upk_net_conn_handles_init_def upklist_head_def foreach_init_def upklist_init_def
      nextnode_def upk_net_add_socket_handle_def usable_fd_def upklist_append_def upklist_append_this_def
      set_next_def set_this_def upklist_top_def new_client_def new_conn_def one_conn_def solo_def empty_conn_def Let_def)

lemma new_client_ready: "usable_fd s \<Longrightarrow> ready 0 (new_conn rs ws s) (new_client rs ws s)"
  by (auto simp: ready_def new_client_def new_conn_def silent_def upklist_top_def idle_def empty_conn_def
      upk_net_conn_handles_init_def one_conn_def)

text \<open>A client that has a request queued when the controller has closed the connection reads outside
  the sets of \<open>select\<close>: the read of the closed connection sets its descriptor to -2, and the dispatcher
  goes on to ask whether it can write to that descriptor.\<close>

theorem request_to_closed:
  assumes "ready a h hs" and "version_id h = 0" and "upk_create_req_action 0 svc_id action = Inr (Some req)"
    and "frame_of req rq" and "inbox h = Rd_zero t # io" and "wait_rounds inp = (k, now) # rest"
    and "readable_round k (fd h)"
  shows "upk_clnet_req_action (Suc (Suc fuel)) run inp svc_id action hs = Some (Inl Oob_read)"
proof -
  obtain f n pv cur where hs: "hs = one_conn hs a f n pv cur h" "cur = None \<or> cur = Some a"
    using assms(1) by (auto simp: ready_def)
  have h: "usable_fd (fd h)" "silent h" "idle h" "settled (writeq h)" "pending_writeq hs = 0"
    using assms(1) by (simp_all add: ready_def)
  have req: "wf_packet req" "packet_len req \<le> UPK_MAX_PACKET_SIZE"
    using assms(4) by (simp_all add: frame_of_def)
  obtain q where q: "queue_message req None h = Inr (h\<lparr>writeq := q\<rparr>)"
    by (rule queue_settled [OF req(1), of h "[]" None])
      (use h(4) req(2) in \<open>auto simp: settled_def packet_len_def\<close>)
  let ?hs = "hs\<lparr>pending_writeq := 1\<rparr>" and ?h = "h\<lparr>writeq := q, last_pkt_data := None\<rparr>"
  have queue: "queue_request (Some req) hs = Inr (one_conn ?hs a f n None (Some a) (h\<lparr>writeq := q\<rparr>))"
    using q(1) h(5)
    by (subst hs(1)) (simp add: queue_request_def upk_queue_packet_def)
  have create: "with_version hs (\<lambda>v. upk_create_req_action v svc_id action) = Inr (Some req)"
    using assms(2,3) ready_head [OF assms(1)] by (simp add: with_version_def)
  let ?conns = "one_conn ?hs a f n None (Some a) ?h"
  have w: "watchable k ?h" using h(1) assms(7) by (simp add: watchable_def usable_fd_def readable_round_def)
  have silent: "silent ?h" using h(2) by simp
  have "receive ?h = Inr (False, close_conn (?h\<lparr>inbox := io\<rparr>))"
    using h(3) assms(5) by (simp add: receive_def read_header_def sys_read_def idle_def packet_consts)
  then have read: "upk_read_packets run ?conns = Inr (one_conn ?hs a f n None (Some a) (close_conn (?h\<lparr>inbox := io\<rparr>)))"
    using h(1) by (simp add: upk_read_packets_def usable_fd_def)
  obtain cbs where cbs: "callbacks_of ?conns = Inr cbs" "cbs = None \<or> cbs = Some a"
    by (auto simp: callbacks_of_def)
  then have call: "dispatch_call sel run cbs (one_conn ?hs a f n pv1 cur1 ?h) = Inr (one_conn ?hs a f n pv1 cur1 ?h)"
    for sel :: "'a net_cb_stk \<Rightarrow> 'a option" and pv1 cur1
    using silent by auto
  obtain nfds where fds: "upk_build_fd_sets (Suc (Suc fuel)) k ?conns =
      Some (Inr (([fd ?h], nfds), one_conn ?hs a f n (Some a) None ?h))"
    using fd_sets_solo [OF w] by blast
  have "serve_conn run k [fd ?h] True cbs ?conns = Inl Oob_read"
    using w h(1) assms(7) read
    by (simp add: serve_conn_def call watchable_def fd_isset_def readable_round_def close_conn_def)
  then have "upk_net_event_dispatcher (Suc (Suc fuel)) run k ?conns = Some (Inl Oob_read)"
    using assms(7) by (simp add: upk_net_event_dispatcher_def cbs(1) call fds each_conn_def foreach_solo readable_round_def)
  then show ?thesis
    using h(1) by (simp add: upk_clnet_req_action_def create upk_clnet_serial_request_def queue
        upk_net_block_until_msg_def assms(6) usable_fd_def)
qed

text \<open>A connected client to try the properties on, and rounds in which nothing happens, or in which the
  socket is ready for both.\<close>

definition quiet_poll :: poll where
  "quiet_poll = \<lparr>getfl = (\<lambda>_. 2), select_result = 0, can_read = (\<lambda>_. False), can_write = (\<lambda>_. False)\<rparr>"

definition busy_poll :: poll where
  "busy_poll = \<lparr>getfl = (\<lambda>_. 2), select_result = 1, can_read = (\<lambda>_. True), can_write = (\<lambda>_. True)\<rparr>"

lemma wait_for_nothing_witness:
  "(\<exists>hs'. upk_net_block_until_msg 2 (\<lambda>c d. Inr) (Some \<lparr>tv_sec = 30, tv_usec = 0\<rparr>) \<lparr>tv_sec = 5, tv_usec = 600000\<rparr>
       [(quiet_poll, \<lparr>tv_sec = 36, tv_usec = 0\<rparr>), (quiet_poll, \<lparr>tv_sec = 36, tv_usec = 700000\<rparr>)]
       (new_client [] [] 5 :: nat conns) = Some (Inr (- 1, hs'))) \<and>
   upk_net_block_until_msg 2 (\<lambda>c d. Inr) (Some \<lparr>tv_sec = 0, tv_usec = 500000\<rparr>) \<lparr>tv_sec = 5, tv_usec = 600000\<rparr>
     [(quiet_poll, \<lparr>tv_sec = 900, tv_usec = 999999\<rparr>)] (new_client [] [] 5 :: nat conns) = None"
proof -
  have r: "ready 0 (new_conn [] [] 5) (new_client [] [] 5 :: nat conns)"
    by (rule new_client_ready) (simp add: usable_fd_def FD_SETSIZE_def)
  have t: "thisp (handles (new_client [] [] 5 :: nat conns)) = Some 0" by (simp add: new_client_def)
  show ?thesis
    using wait_for_nothing [OF r t, of "[(quiet_poll, \<lparr>tv_sec = 36, tv_usec = 0\<rparr>), (quiet_poll, \<lparr>tv_sec = 36, tv_usec = 700000\<rparr>)]"
        "\<lparr>tv_sec = 5, tv_usec = 600000\<rparr>" "\<lparr>tv_sec = 30, tv_usec = 0\<rparr>" 0 "\<lambda>c d. Inr"]
      wait_for_nothing [OF r t, of "[(quiet_poll, \<lparr>tv_sec = 900, tv_usec = 999999\<rparr>)]"
        "\<lparr>tv_sec = 5, tv_usec = 600000\<rparr>" "\<lparr>tv_sec = 0, tv_usec = 500000\<rparr>" 0 "\<lambda>c d. Inr"]
    by (simp add: quiet_poll_def numeral_2_eq_2)
qed

lemma frame_exists:
  assumes "wf_packet pkt" and "packet_len pkt \<le> UPK_MAX_PACKET_SIZE"
  shows "\<exists>bs. frame_of pkt bs"
proof -
  obtain b crc where b: "length b = unat (pkt_payload_len pkt)"
    and ser: "upk_serialize_packet pkt =
      Inr (pkt\<lparr>pkt_crc32 := crc\<rparr>, packet_header pkt @ b @ put_uint32 crc @ replicate 4 0)"
    using assms(1) by (rule packet_frame)
  then show ?thesis using assms
    by (intro exI [of _ "packet_header pkt @ b @ put_uint32 crc"])
      (simp add: frame_of_def packet_len_def packet_consts put_uint32_def)
qed

lemma request_to_closed_witness:
  "upk_clnet_req_action 2 (\<lambda>c d. Inr) \<lparr>start_time = \<lparr>tv_sec = 0, tv_usec = 0\<rparr>, wait_rounds = [(busy_poll, \<lparr>tv_sec = 0, tv_usec = 1\<rparr>)]\<rparr>
     [0x64, 0x62, 0] [0x73, 0x74, 0x6F, 0x70, 0] (new_client [Rd_zero True] [Wr_fail] 5 :: nat conns) = Some (Inl Oob_read)"
proof -
  have r: "ready 0 (new_conn [Rd_zero True] [Wr_fail] 5) (new_client [Rd_zero True] [Wr_fail] 5 :: nat conns)"
    by (rule new_client_ready) (simp add: usable_fd_def FD_SETSIZE_def)
  obtain rq where rq: "frame_of action_packet rq"
    using frame_exists [OF wf_action_packet] action_packet_size
    by (auto simp: packet_len_def UPK_MAX_PACKET_SIZE_def)
  show ?thesis
    using request_to_closed [OF r _ stop_request rq, of True "[]"
        "\<lparr>start_time = \<lparr>tv_sec = 0, tv_usec = 0\<rparr>, wait_rounds = [(busy_poll, \<lparr>tv_sec = 0, tv_usec = 1\<rparr>)]\<rparr>"
        busy_poll "\<lparr>tv_sec = 0, tv_usec = 1\<rparr>" "[]" 0 "\<lambda>c d. Inr"]
    by (simp add: new_conn_def empty_conn_def busy_poll_def readable_round_def numeral_2_eq_2)
qed

end
