(* ===== verification/Ctrl_Client.thy ===== *)
theory Ctrl_Client
  imports Ctrl_Events Upk_Client
begin

text \<open>
  A client and the controller together: the request \<open>upk_clnet_req_action\<close> sends, as the handler of the
  controller sees it, and the answer the handler queues, as the client reads it.
\<close>

section \<open>Texts in messages\<close>

definition plain_text :: "string \<Rightarrow> bool" where
  "plain_text s \<longleftrightarrow> CHR 0x00 \<notin> set s \<and> length s < UPK_MAX_STRING_LEN"

definition char_byte :: "char \<Rightarrow> u8" where
  "char_byte c = of_nat (of_char c)"

lemma char_byte_inverse: "char_of (unat (char_byte c)) = c"
proof -
  have "of_char c < (2 ^ 8 :: nat)" by simp
  then show ?thesis by (simp add: char_byte_def unat_of_nat take_bit_nat_eq_self)
qed

lemma char_byte_zero: "char_byte c = 0 \<longleftrightarrow> c = CHR 0x00"
proof -
  have zero: "char_byte (CHR 0x00) = 0" by (simp add: char_byte_def)
  have "c = char_of (unat (char_byte c))" by (simp add: char_byte_inverse)
  moreover have "CHR 0x00 = char_of (unat (char_byte (CHR 0x00)))" by (simp only: char_byte_inverse)
  ultimately show ?thesis using zero by metis
qed

lemma text_bytes:
  assumes "plain_text s"
  shows "helper_string (c_bytes s) = Inr (char_array UPK_MAX_STRING_LEN (map char_byte s), of_nat (length s))"
    and "c_text (char_array UPK_MAX_STRING_LEN (map char_byte s)) = s"
proof -
  have free: "nul_free (map char_byte s)"
    unfolding nul_free_def set_map
  proof
    assume "0 \<in> char_byte ` set s"
    then obtain c where "c \<in> set s" "char_byte c = 0" by force
    with char_byte_zero assms show False by (simp add: plain_text_def)
  qed
  have len: "length (map char_byte s) < UPK_MAX_STRING_LEN" using assms by (simp add: plain_text_def)
  have "c_bytes s = map char_byte s @ 0 # []" by (simp add: c_bytes_def char_byte_def)
  then show "helper_string (c_bytes s) = Inr (char_array UPK_MAX_STRING_LEN (map char_byte s), of_nat (length s))"
    by (simp only: helper_string_terminated [OF free len] length_map)
  have "takeWhile (\<lambda>w. w \<noteq> 0) (map char_byte s @ 0 # zs) = map char_byte s" for zs
    using free by (auto simp: nul_free_def takeWhile_append)
  moreover have "char_array UPK_MAX_STRING_LEN (map char_byte s) =
      map char_byte s @ 0 # replicate (UPK_MAX_STRING_LEN - Suc (length s)) 0"
    using len by (simp add: char_array_def flip: replicate_Suc)
  moreover have "length (char_array UPK_MAX_STRING_LEN (map char_byte s)) = UPK_MAX_STRING_LEN"
    using len by (simp add: char_array_def)
  ultimately show "c_text (char_array UPK_MAX_STRING_LEN (map char_byte s)) = s"
    by (simp add: c_text_def comp_def char_byte_inverse)
qed

section \<open>The request and the reply\<close>

definition action_request :: "string \<Rightarrow> string \<Rightarrow> v0_req_action" where
  "action_request name action =
     \<lparr>msgtype = UPK_REQ_ACTION, act_svc_id_len = of_nat (length name),
      act_svc_id = char_array UPK_MAX_STRING_LEN (map char_byte name), act_action_len = of_nat (length action),
      act_action = char_array UPK_MAX_STRING_LEN (map char_byte action)\<rparr>"

lemma small_length: "plain_text s \<Longrightarrow> unat (of_nat (length s) :: u32) = length s \<and> length s < 2048"
  by (simp add: plain_text_def UPK_MAX_STRING_LEN_def unat_of_nat take_bit_nat_eq_self)

lemma request_created:
  assumes "plain_text name" and "plain_text action"
  shows "\<exists>req rq. upk_create_req_action 0 (c_bytes name) (c_bytes action) = Inr (Some req) \<and> frame_of req rq \<and>
    pkt_payload req = Some (Req_action (action_request name action))"
proof -
  let ?req = "upk_create_pkt (Req_action (action_request name action))
      (4 + (of_nat (length name) + 4) + (of_nat (length action) + 4)) PKT_REQUEST 0"
  have req: "upk_create_req_action 0 (c_bytes name) (c_bytes action) = Inr (Some ?req)"
    by (simp add: upk_create_req_action_def by_version_def v0_create_req_action_def text_bytes [OF assms(1)]
        text_bytes [OF assms(2)] end_helper_def action_request_def)
  have "packet_len ?req \<le> UPK_MAX_PACKET_SIZE"
    using small_length [OF assms(1)] small_length [OF assms(2)]
    by (simp add: packet_len_def upk_create_pkt_def packet_consts UPK_MAX_PACKET_SIZE_def unat_word_ariths)
  then obtain rq where "frame_of ?req rq"
    using frame_exists [of ?req] created_plain [OF created.req_action [OF req]]
    by (auto simp: upk_create_pkt_def)
  with req show ?thesis by (auto simp: upk_create_pkt_def)
qed

lemma reply_created:
  assumes "plain_text s"
  shows "\<exists>reply bs. upk_create_repl_result 0 (c_bytes s) ok = Inr (Some reply) \<and> frame_of reply bs"
proof -
  let ?reply = "upk_create_pkt (Repl_result \<lparr>msgtype = UPK_REPL_RESULT, res_successful = ok,
      res_msg_len = of_nat (length s), res_msg = char_array UPK_MAX_STRING_LEN (map char_byte s)\<rparr>)
      (9 + of_nat (length s)) PKT_REPLY 0"
  have reply: "upk_create_repl_result 0 (c_bytes s) ok = Inr (Some ?reply)"
    by (simp add: upk_create_repl_result_def by_version_def v0_create_repl_result_def text_bytes [OF assms]
        end_helper_def Let_def)
  have "packet_len ?reply \<le> UPK_MAX_PACKET_SIZE"
    using small_length [OF assms]
    by (simp add: packet_len_def upk_create_pkt_def packet_consts UPK_MAX_PACKET_SIZE_def unat_word_ariths)
  then show ?thesis
    using reply frame_exists [of ?reply] created_plain [OF created.repl_result [OF reply]]
    by (auto simp: upk_create_pkt_def)
qed

section \<open>Properties\<close>

text \<open>What the controller makes of the bytes of an action request: it decodes them, runs the handler, and
  queues bytes on the connection the request came in on.\<close>

definition action_served :: "upk_controller_config \<Rightarrow> bytes \<Rightarrow> ctrl \<times> clients \<Rightarrow> (ctrl \<times> bytes) cres" where
  "action_served cfg rq wh =
     bind_c (upk_deserialize_packet rq) (\<lambda>(p, _).
     case p of
       Pkt_live pkt \<Rightarrow>
         (case pkt_payload pkt of
            Some (Req_action r) \<Rightarrow>
              bind_c (ctrl_req_action_handler cfg r wh) (\<lambda>(w, chs).
              bind_c (this_conn chs) (\<lambda>g.
              bind_c (this_val (writeq g)) (\<lambda>m. Inr (w, take (unat (msg_len m)) (msg m)))))
          | _ \<Rightarrow> Inl Type_confusion)
     | _ \<Rightarrow> Inl Null_deref)"

lemma buddy_action_known:
  assumes "map to_lower action \<in> {''start'', ''stop'', ''reload''}" and "buddy_sock_path cfg svc = Inr path"
  shows "\<exists>act w'. buddy_action action = Some act \<and>
    act cfg svc w = Inr (listening w (take (SUN_PATH_LEN - 1) path), w')"
proof -
  obtain cmd where "buddy_action action = Some (buddy_request cmd)"
    using assms(1)
    by (auto simp: buddy_action_def start_buddy_svc_def stop_buddy_svc_def reload_buddy_svc_def)
  then show ?thesis
    using assms(2) by (auto simp: buddy_request_def buddy_connect_def split: list.split)
qed

lemma reply_queued:
  assumes "frame_of reply bs" and "thisp (handles chs) = Some c" and "this_conn chs = Inr g"
    and "settled (writeq g)"
  shows "\<exists>chs' g' m. queue_reply (Some reply) None chs = Inr chs' \<and> this_conn chs' = Inr g' \<and>
    this_val (writeq g') = Inr m \<and> take (unat (msg_len m)) (msg m) = bs"
proof -
  obtain nx where c: "cells (handles chs) c = Some (g, nx)"
    using assms(2,3) by (auto simp: this_conn_def this_val_def split: option.splits)
  have wf: "wf_packet reply" "packet_len reply \<le> UPK_MAX_PACKET_SIZE" "length bs = packet_len reply"
    using assms(1) by (simp_all add: frame_of_def)
  obtain reply' rest where ser: "upk_serialize_packet reply = Inr (reply', bs @ rest)"
    using assms(1) by (auto simp: frame_of_def)
  obtain q m where q: "queue_message reply None g = Inr (g\<lparr>writeq := q\<rparr>)" "this_val q = Inr m"
    "unat (msg_len m) = packet_len reply" "unat (msg_len m) \<le> length (msg m)"
    by (rule queue_settled [OF wf(1), of g "[]" None])
      (use assms(4) wf(2) in \<open>auto simp: settled_def packet_len_def\<close>)
  have "take (unat (msg_len m)) (msg m) = bs"
    using queued_bytes [OF q(1) ser, of m] q(2-4) wf(3) by simp
  moreover let ?chs = "chs\<lparr>pending_writeq := pending_writeq chs + 1, handles := (handles chs)
      \<lparr>cells := (cells (handles chs))(c \<mapsto> (g\<lparr>writeq := q\<rparr>, nx))\<rparr>\<rparr>"
  have "queue_reply (Some reply) None chs = Inr ?chs"
    using c q(1) assms(2) by (simp add: queue_reply_def upk_queue_packet_def set_conn_at_def)
  moreover have "this_conn ?chs = Inr (g\<lparr>writeq := q\<rparr>)"
    using assms(2) by (simp add: this_conn_def this_val_def)
  ultimately show ?thesis
    using q(2) by (intro exI [of _ ?chs] exI [of _ "g\<lparr>writeq := q\<rparr>"] exI [of _ m]) simp
qed

text \<open>C15: what a client is told of an action.  A client that asks for a start, a stop or a reload of a
  configured service sends bytes from which the controller queues an answer, and when the client gets these
  bytes it returns whether somebody listened on the socket of the buddy when the controller connected to it: it
  returns true even when the buddy was never ready to take the command.\<close>

theorem action_reported:
  assumes "plain_text name" and "plain_text action" and "thisp (handles chs) = Some c"
    and "this_conn chs = Inr g" and "version_id g = 0" and "settled (writeq g)"
    and "svclist cfg = Some svcs" and "find (\<lambda>s. Name s = name) svcs = Some svc"
    and "map to_lower action \<in> {''start'', ''stop'', ''reload''}" and "buddy_sock_path cfg svc = Inr path"
  shows "\<exists>rq w' bs. 0 < length rq \<and> action_served cfg rq (w, chs) = Inr (w', bs) \<and>
    (\<forall>a (h :: 'c conn) hs ks io io' inp run. ready a h hs \<and> version_id h = 0 \<and> outcomes h = map Wr_bytes ks @ io \<and>
      (\<forall>k\<in>set ks. 0 < k) \<and> sum_list ks = length rq \<and> inbox h = Rd_bytes bs # io' \<and>
      answered inp (fd h) (length ks) \<longrightarrow>
      (\<exists>h' hs'. upk_clnet_req_action 2 run inp (c_bytes name) (c_bytes action) hs =
          Some (Inr (listening w (take (SUN_PATH_LEN - 1) path), hs')) \<and>
        ready a h' hs' \<and> wire h' = wire h @ rq))"
proof -
  let ?r = "action_request name action"
  obtain req rq where req: "upk_create_req_action 0 (c_bytes name) (c_bytes action) = Inr (Some req)"
    "frame_of req rq" "pkt_payload req = Some (Req_action ?r)"
    using request_created [OF assms(1,2)] by blast
  define ok where "ok = listening w (take (SUN_PATH_LEN - 1) path)"
  obtain act w' where act: "buddy_action action = Some act" "act cfg svc w = Inr (ok, w')"
    using buddy_action_known [OF assms(9,10)] unfolding ok_def by blast
  let ?txt = "if ok then ''success'' else ''failed''"
  have "plain_text ?txt" by (simp add: plain_text_def UPK_MAX_STRING_LEN_def)
  then obtain reply bs where reply: "upk_create_repl_result 0 (c_bytes ?txt) ok = Inr (Some reply)" "frame_of reply bs"
    using reply_created by blast
  obtain chs' g' m where queued: "queue_reply (Some reply) None chs = Inr chs'" "this_conn chs' = Inr g'"
    "this_val (writeq g') = Inr m" "take (unat (msg_len m)) (msg m) = bs"
    using reply_queued [OF reply(2) assms(3,4,6)] by blast
  have "c_text (act_svc_id ?r) = name" "c_text (act_action ?r) = action"
    by (simp_all add: action_request_def text_bytes [OF assms(1)] text_bytes [OF assms(2)])
  then have "ctrl_req_action_handler cfg ?r (w, chs) = Inr (w', chs')"
    using reply(1) by (cases ok) (simp_all add: ctrl_req_action_handler_def assms(4,5,7,8) act queued(1))
  moreover obtain crc where "upk_deserialize_packet rq = Inr (Pkt_live (req\<lparr>pkt_crc32 := crc\<rparr>), UPK_ERR_NONE)"
    using frame_decoded [OF req(2)] by (metis append_Nil2)
  ultimately have served: "action_served cfg rq (w, chs) = Inr (w', bs)"
    by (simp add: action_served_def req(3) queued(2-4))
  have told: "\<exists>h' hs'. upk_clnet_req_action 2 run inp (c_bytes name) (c_bytes action) hs =
          Some (Inr (listening w (take (SUN_PATH_LEN - 1) path), hs')) \<and> ready a h' hs' \<and> wire h' = wire h @ rq"
    if client: "ready a h hs" "version_id h = 0" "outcomes h = map Wr_bytes ks @ io" "\<forall>k\<in>set ks. 0 < k"
      "sum_list ks = length rq" "inbox h = Rd_bytes bs # io'" "answered inp (fd h) (length ks)"
    for a :: nat and h :: "'c conn" and hs ks io io' inp run
  proof -
    have "sum_list ks = packet_len req" using req(2) client(5) by (simp add: frame_of_def)
    from action_answered [OF client(1,2) req(1,2) reply client(3,4) this client(6,7), of 0 run]
    show ?thesis unfolding ok_def numeral_2_eq_2 by blast
  qed
  have nonempty: "0 < length rq" using req(2) by (simp add: frame_of_def packet_len_def packet_consts)
  show ?thesis
    by (intro exI [of _ rq] exI [of _ w'] exI [of _ bs] conjI allI impI, rule nonempty, rule served, elim conjE, rule told; assumption)
qed

text \<open>A controller with the service \<open>a\<close>, asked to stop it; its buddy never takes the command.\<close>

definition one_service :: upk_controller_config where
  "one_service = sample_ctrl_cfg\<lparr>svclist := Some [sample_svc\<lparr>Name := ''a''\<rparr>]\<rparr>"

lemma one_service_path: "buddy_sock_path one_service (sample_svc\<lparr>Name := ''a''\<rparr>) = Inr ''/r/a/buddy.sock''"
  using sample_ctrl_paths(1) by (simp add: one_service_def buddy_sock_path_def)

definition stop_rounds :: wait_input where
  "stop_rounds =
     \<lparr>start_time = \<lparr>tv_sec = 0, tv_usec = 0\<rparr>,
      wait_rounds = [(busy_poll\<lparr>can_read := (\<lambda>_. False)\<rparr>, \<lparr>tv_sec = 0, tv_usec = 1\<rparr>), (busy_poll, \<lparr>tv_sec = 0, tv_usec = 2\<rparr>)]\<rparr>"

lemma stop_rounds_answered: "answered stop_rounds 5 (Suc 0)"
  unfolding answered_def
  by (rule exI [of _ "[(busy_poll\<lparr>can_read := (\<lambda>_. False)\<rparr>, \<lparr>tv_sec = 0, tv_usec = 1\<rparr>)]"])
    (simp add: stop_rounds_def busy_poll_def writable_round_def readable_round_def timed_out_def request_timeout_def)

lemma action_reported_witness:
  "\<exists>rq w' bs hs'. action_served one_service rq (sample_ctrl, sample_clients) = Inr (w', bs) \<and>
     upk_clnet_req_action 2 (\<lambda>c d. Inr) stop_rounds (c_bytes ''a'') (c_bytes ''stop'')
       (new_client [Rd_bytes bs] [Wr_bytes (length rq)] 5 :: nat conns) = Some (Inr (True, hs'))"
proof -
  have plain: "plain_text ''a''" "plain_text ''stop''" by (simp_all add: plain_text_def UPK_MAX_STRING_LEN_def)
  have stop: "map to_lower ''stop'' \<in> {''start'', ''stop'', ''reload''}" by code_simp
  have conn: "thisp (handles sample_clients) = Some 0" "this_conn sample_clients = Inr (empty_conn\<lparr>fd := 4\<rparr>)"
    "version_id (empty_conn\<lparr>fd := 4\<rparr>) = 0" "settled (writeq (empty_conn\<lparr>fd := 4\<rparr>))"
    by (simp_all add: sample_clients_def this_conn_def this_val_def empty_conn_def)
  have svc: "svclist one_service = Some [sample_svc\<lparr>Name := ''a''\<rparr>]"
    "find (\<lambda>s. Name s = ''a'') [sample_svc\<lparr>Name := ''a''\<rparr>] = Some (sample_svc\<lparr>Name := ''a''\<rparr>)"
    by (simp_all add: one_service_def)
  note reported = action_reported [OF plain conn svc stop one_service_path, where 'c = nat, of sample_ctrl]
  from reported obtain rq w' bs where rq: "0 < length rq" "action_served one_service rq (sample_ctrl, sample_clients) = Inr (w', bs)"
    and told: "\<forall>a (h :: nat conn) hs ks io io' inp run. ready a h hs \<and> version_id h = 0 \<and> outcomes h = map Wr_bytes ks @ io \<and>
      (\<forall>k\<in>set ks. 0 < k) \<and> sum_list ks = length rq \<and> inbox h = Rd_bytes bs # io' \<and>
      answered inp (fd h) (length ks) \<longrightarrow>
      (\<exists>h' hs'. upk_clnet_req_action 2 run inp (c_bytes ''a'') (c_bytes ''stop'') hs =
          Some (Inr (listening sample_ctrl (take (SUN_PATH_LEN - 1) ''/r/a/buddy.sock''), hs')) \<and>
        ready a h' hs' \<and> wire h' = wire h @ rq)"
    by (elim exE conjE)
  let ?h = "new_conn [Rd_bytes bs] [Wr_bytes (length rq)] 5 :: nat conn"
  have "ready 0 ?h (new_client [Rd_bytes bs] [Wr_bytes (length rq)] 5)"
    by (rule new_client_ready) (simp add: usable_fd_def FD_SETSIZE_def)
  moreover have "version_id ?h = 0" "outcomes ?h = map Wr_bytes [length rq] @ []" "\<forall>k\<in>set [length rq]. 0 < k"
    "sum_list [length rq] = length rq" "inbox ?h = Rd_bytes bs # []" "answered stop_rounds (fd ?h) (length [length rq])"
    using rq(1) stop_rounds_answered by (simp_all add: new_conn_def empty_conn_def)
  ultimately have "\<exists>h' hs'. upk_clnet_req_action 2 (\<lambda>c d. Inr) stop_rounds (c_bytes ''a'') (c_bytes ''stop'')
      (new_client [Rd_bytes bs] [Wr_bytes (length rq)] 5 :: nat conns) =
        Some (Inr (listening sample_ctrl (take (SUN_PATH_LEN - 1) ''/r/a/buddy.sock''), hs')) \<and>
      ready 0 h' hs' \<and> wire h' = wire ?h @ rq"
    by (intro told [rule_format] conjI)
  with rq(2) show ?thesis by (auto simp: sample_ctrl_def)
qed

end
