(* ===== verification/Ctrl_Data.thy ===== *)
theory Ctrl_Data
  imports Upk_Config Upk_Crc32 Upk_Dispatch
begin

text \<open>
  \<open>controller/ctrl_data.c\<close>: the store of the controller, tables of services and of their options in a
  database.  SQLite is a parameter, a record of its functions over a state of the database and a state of
  a statement; what a property needs of it is a hypothesis about these functions.  The random numbers and
  the clock are input.
\<close>

section \<open>SQLite\<close>

text \<open>The five types a value is bound with; the bits of a \<open>double\<close> stand for it.\<close>

datatype sql_value = Sql_integer int | Sql_float u64 | Sql_blob bytes | Sql_text string | Sql_null

record ('db, 's) sqlite =
  sqlite_prepare :: "string \<Rightarrow> 'db \<Rightarrow> int \<times> 's option"
  sqlite_bind :: "nat \<Rightarrow> sql_value \<Rightarrow> 's \<Rightarrow> int \<times> 's"
  sqlite_step :: "'s \<Rightarrow> 'db \<Rightarrow> int \<times> 's \<times> 'db"
  sqlite_column_text :: "'s \<Rightarrow> string option"
  sqlite_reset :: "'s \<Rightarrow> int \<times> 's"
  sqlite_exec :: "string \<Rightarrow> 'db \<Rightarrow> int \<times> 'db"

definition SQLITE_OK :: int where "SQLITE_OK = 0"
definition SQLITE_ERROR :: int where "SQLITE_ERROR = 1"
definition SQLITE_CONSTRAINT :: int where "SQLITE_CONSTRAINT = 19"
definition SQLITE_MISUSE :: int where "SQLITE_MISUSE = 21"
definition SQLITE_ROW :: int where "SQLITE_ROW = 100"
definition SQLITE_DONE :: int where "SQLITE_DONE = 101"

lemmas sqlite_codes = SQLITE_OK_def SQLITE_ERROR_def SQLITE_CONSTRAINT_def SQLITE_MISUSE_def SQLITE_ROW_def
  SQLITE_DONE_def

text \<open>The database, the static buffer of \<open>upk_db_svc_uuid_lookup\<close>, the random numbers for the
  identifiers to come, and the clock with the number of times it was read.\<close>

record 'db store =
  dbh :: 'db
  lookup_uuid :: string
  draws :: "(random_read list \<times> (nat \<Rightarrow> u32)) list"
  clock :: "nat \<Rightarrow> int"
  ticks :: nat

text \<open>\<open>snprintf\<close> with a size of \<open>UPK_MAX_STRING_LEN - 1\<close>.\<close>

definition sql_buf :: "string \<Rightarrow> string" where
  "sql_buf s = take (UPK_MAX_STRING_LEN - 2) s"

text \<open>The values are bound one after the other, up to the first that is refused.\<close>

fun bind_values :: "('db, 's) sqlite \<Rightarrow> nat \<Rightarrow> sql_value list \<Rightarrow> 's \<Rightarrow> int \<times> 's" where
  "bind_values q idx [] s = (SQLITE_OK, s)"
| "bind_values q idx (v # vs) s =
     (case sqlite_bind q idx v s of (rc, s) \<Rightarrow>
        if rc = SQLITE_OK then bind_values q (idx + 1) vs s else (rc, s))"

text \<open>The common error exit: unless the result is 0 it becomes that of \<open>sqlite3_reset\<close>.\<close>

definition sql_failed :: "('db, 's) sqlite \<Rightarrow> 's option \<Rightarrow> int \<Rightarrow> int" where
  "sql_failed q stmt ret =
     (case stmt of None \<Rightarrow> ret | Some s \<Rightarrow> if ret = 0 then ret else fst (sqlite_reset q s))"

text \<open>Prepare, bind and step, with the result of a statement that could not be run.\<close>

definition run_stmt ::
    "('db, 's) sqlite \<Rightarrow> string \<Rightarrow> sql_value list \<Rightarrow> 'db \<Rightarrow> int + (int \<times> 's \<times> 'db)" where
  "run_stmt q sql vals db =
     (case sqlite_prepare q sql db of (rc, stmt) \<Rightarrow>
        case stmt of
          None \<Rightarrow> Inl (sql_failed q None rc)
        | Some s \<Rightarrow>
            if rc \<noteq> SQLITE_OK then Inl (sql_failed q (Some s) rc)
            else (case bind_values q 1 vals s of (rc, s) \<Rightarrow>
              if rc \<noteq> SQLITE_OK then Inl (sql_failed q (Some s) rc) else Inr (sqlite_step q s db)))"

section \<open>Queries\<close>

text \<open>The result, the buffer and the database; the buffer is written only when there is a row.\<close>

definition upk_db_get_single_text ::
    "('db, 's) sqlite \<Rightarrow> string \<Rightarrow> string \<Rightarrow> string list \<Rightarrow> 'db \<Rightarrow> int \<times> string \<times> 'db" where
  "upk_db_get_single_text q value sql args db =
     (case run_stmt q sql (map Sql_text args) db of
        Inl ret \<Rightarrow> (ret, value, db)
      | Inr (rc, s, db) \<Rightarrow>
          if rc \<noteq> SQLITE_ROW \<and> rc \<noteq> SQLITE_DONE then (sql_failed q (Some s) rc, value, db)
          else if rc = SQLITE_ROW then
            (case sqlite_column_text q s of None \<Rightarrow> (- 1, value, db)
             | Some res \<Rightarrow> (0, take (UPK_MAX_STRING_LEN - 1) res, db))
          else (- 1, value, db))"

definition upk_db_get_table_id ::
    "('db, 's) sqlite \<Rightarrow> string \<Rightarrow> string \<Rightarrow> string \<Rightarrow> 'db \<Rightarrow> int \<times> string \<times> 'db" where
  "upk_db_get_table_id q db table_name table_id =
     upk_db_get_single_text q table_id
       (sql_buf (''SELECT (table_id) FROM '' @ db @ ''._schema WHERE table_name = ?;'')) [table_name]"

definition upk_db_get_audit_service_table :: "('db, 's) sqlite \<Rightarrow> string \<Rightarrow> 'db \<Rightarrow> int \<times> string \<times> 'db" where
  "upk_db_get_audit_service_table q = upk_db_get_table_id q ''upk_audit'' ''service''"

definition upk_db_get_cfg_services_table :: "('db, 's) sqlite \<Rightarrow> string \<Rightarrow> 'db \<Rightarrow> int \<times> string \<times> 'db" where
  "upk_db_get_cfg_services_table q = upk_db_get_table_id q ''upk_cfg'' ''services''"

definition upk_db_get_cfg_svc_options_table :: "('db, 's) sqlite \<Rightarrow> string \<Rightarrow> 'db \<Rightarrow> int \<times> string \<times> 'db" where
  "upk_db_get_cfg_svc_options_table q = upk_db_get_table_id q ''upk_cfg'' ''svc_options''"

definition upk_db_get_cfg_svc_list_options_table :: "('db, 's) sqlite \<Rightarrow> string \<Rightarrow> 'db \<Rightarrow> int \<times> string \<times> 'db" where
  "upk_db_get_cfg_svc_list_options_table q = upk_db_get_table_id q ''upk_cfg'' ''svc_list_options''"

text \<open>The text of the two queries for an identifier.\<close>

definition lookup_sql :: "string \<Rightarrow> string option \<Rightarrow> string" where
  "lookup_sql table package = sql_buf
     (''SELECT (uuid) FROM upk_cfg.'' @ table @ '' WHERE (svcid = ?'' @
      (case package of Some _ \<Rightarrow> '' AND package = ?'' | None \<Rightarrow> '' AND package = NULL'') @ '');'')"

definition uuid_sql :: "string \<Rightarrow> string" where
  "uuid_sql table = sql_buf (''SELECT (uuid) FROM upk_cfg.'' @ table @ '' WHERE (uuid = ?);'')"

text \<open>The buffer is static: a lookup without a row finds what the one before it found.\<close>

definition upk_db_svc_uuid_lookup ::
    "('db, 's) sqlite \<Rightarrow> string \<Rightarrow> string option \<Rightarrow> 'db store \<Rightarrow> string option \<times> 'db store" where
  "upk_db_svc_uuid_lookup q svcid package st =
     (case upk_db_get_cfg_services_table q '''' (dbh st) of (_, table_id, db) \<Rightarrow>
      case upk_db_get_single_text q (lookup_uuid st) (lookup_sql table_id package)
             (svcid # (case package of None \<Rightarrow> [] | Some p \<Rightarrow> [p])) db of (_, uuid, db) \<Rightarrow>
        (if uuid \<noteq> '''' then Some uuid else None, st\<lparr>dbh := db, lookup_uuid := uuid\<rparr>))"

section \<open>New services\<close>

text \<open>Identifiers are drawn until one is found that the last query did not return; \<open>None\<close> stands for a
  loop that is not ended by the given draws.\<close>

fun gen_uuid_loop ::
    "('db, 's) sqlite \<Rightarrow> string \<Rightarrow> bool \<Rightarrow> string \<Rightarrow> (random_read list \<times> (nat \<Rightarrow> u32)) list \<Rightarrow> 'db \<Rightarrow>
     (string \<times> (random_read list \<times> (nat \<Rightarrow> u32)) list \<times> 'db) option" where
  "gen_uuid_loop q sql opened matching [] db = None"
| "gen_uuid_loop q sql opened matching ((reads, rand) # ds) db =
     (case upk_gen_uuid_bytes opened reads rand of None \<Rightarrow> None
      | Some uuid \<Rightarrow>
          (case upk_db_get_single_text q matching sql [upk_uuid_to_string uuid] db of (_, matching, db) \<Rightarrow>
             if matching \<noteq> '''' then gen_uuid_loop q sql opened matching ds db
             else Some (upk_uuid_to_string uuid, ds, db)))"

definition upk_db_gen_uuid ::
    "('db, 's) sqlite \<Rightarrow> bool \<Rightarrow> 'db store \<Rightarrow> (string \<times> 'db store) option" where
  "upk_db_gen_uuid q opened st =
     (case upk_db_get_cfg_services_table q '''' (dbh st) of (_, table_id, db) \<Rightarrow>
      case gen_uuid_loop q (uuid_sql table_id) opened '''' (draws st) db of None \<Rightarrow> None
      | Some (uuid, ds, db) \<Rightarrow> Some (uuid, st\<lparr>dbh := db, draws := ds\<rparr>))"

definition zero_uuid_string :: string where
  "zero_uuid_string = ''00000000-0000-0000-0000-000000000000''"

definition time_now :: "'db store \<Rightarrow> int \<times> 'db store" where
  "time_now st = (clock st (ticks st), st\<lparr>ticks := ticks st + 1\<rparr>)"

text \<open>\<open>%ld\<close>.\<close>

definition long_decimal :: "int \<Rightarrow> string" where
  "long_decimal i = (if i < 0 then CHR ''-'' # decimal (nat (- i)) else decimal (nat i))"

definition quoted :: "string \<Rightarrow> string" where
  "quoted s = CHR 0x22 # s @ [CHR 0x22]"

text \<open>The names go into the statements as they are.\<close>

definition insert_sql :: "string \<Rightarrow> string \<Rightarrow> string \<Rightarrow> int \<Rightarrow> int \<Rightarrow> string" where
  "insert_sql table uuid name t1 t2 = sql_buf
     (''INSERT INTO upk_cfg.'' @ table @
      '' (uuid, svcid, is_active, utc_created, utc_modified, utc_deleted) VALUES('' @ quoted uuid @ '','' @
      quoted name @ '',1,'' @ long_decimal t1 @ '','' @ long_decimal t2 @ '',NULL);'')"

definition package_sql :: "string \<Rightarrow> string \<Rightarrow> string \<Rightarrow> string" where
  "package_sql table package uuid = sql_buf
     (''UPDATE upk_cfg.'' @ table @ '' SET package = '' @ quoted package @ '' WHERE uuid = '' @ quoted uuid @ '';'')"

definition run_exec :: "('db, 's) sqlite \<Rightarrow> string \<Rightarrow> 'db store \<Rightarrow> int \<times> 'db store" where
  "run_exec q sql st = (case sqlite_exec q sql (dbh st) of (rc, db) \<Rightarrow> (rc, st\<lparr>dbh := db\<rparr>))"

text \<open>The two statements that add a service.\<close>

definition add_rows :: "('db, 's) sqlite \<Rightarrow> string \<Rightarrow> string \<Rightarrow> upk_svc_desc \<Rightarrow> 'db store \<Rightarrow> bool \<times> 'db store" where
  "add_rows q table uuid svc st =
     (case time_now st of (t1, st) \<Rightarrow>
      case time_now st of (t2, st) \<Rightarrow>
      case run_exec q (insert_sql table uuid (Name svc) t1 t2) st of (rc, st) \<Rightarrow>
        if rc \<noteq> SQLITE_OK then (False, st)
        else (case run_exec q (package_sql table (Package svc) uuid) st of (rc, st) \<Rightarrow> (rc = SQLITE_OK, st)))"

definition upk_db_add_new_service ::
    "('db, 's) sqlite \<Rightarrow> bool \<Rightarrow> upk_svc_desc \<Rightarrow> 'db store \<Rightarrow> (bool \<times> upk_svc_desc \<times> 'db store) cres option" where
  "upk_db_add_new_service q opened svc st =
     (case upk_db_get_cfg_services_table q '''' (dbh st) of (_, table_id, db) \<Rightarrow>
      let st = st\<lparr>dbh := db\<rparr>; uuid = upk_uuid_to_string (UUID svc) in
      bind_o (Some (upk_concat_svcid (Package svc) (Name svc))) (\<lambda>_.
      if uuid = zero_uuid_string then
        (case upk_db_gen_uuid q opened st of None \<Rightarrow> None
         | Some (uuid2, st) \<Rightarrow>
             let uuid = take UPK_UUID_STRING_LEN uuid2;
                 (ok, st) = add_rows q table_id uuid svc st in
             Some (Inr (ok, svc\<lparr>UUID := upk_string_to_uuid (UUID svc) uuid\<rparr>, st)))
      else
        (case upk_db_get_single_text q '''' (uuid_sql table_id) [uuid] (dbh st) of (_, matching, db) \<Rightarrow>
           let st = st\<lparr>dbh := db\<rparr> in
           if matching = uuid then Some (Inr (False, svc, st))
           else let (ok, st) = add_rows q table_id uuid svc st in Some (Inr (ok, svc, st)))))"

section \<open>Options\<close>

text \<open>\<open>time\<close> as an \<open>int\<close>.\<close>

definition int_now :: "'db store \<Rightarrow> sql_value \<times> 'db store" where
  "int_now st = (case time_now st of (t, st) \<Rightarrow> (Sql_integer (sint (of_int t :: u32)), st))"

definition insert_option_sql :: "string \<Rightarrow> string option \<Rightarrow> string option \<Rightarrow> string" where
  "insert_option_sql table section ident = sql_buf
     (''INSERT INTO upk_cfg.'' @ table @ '' (uuid, key, value, utc_added, utc_modified'' @
      (if section \<noteq> None then '', section'' else '''') @ (if ident \<noteq> None then '', id'' else '''') @
      '') VALUES (?, ?, ?, ?, ?'' @ (if section \<noteq> None then '', ?'' else '''') @
      (if ident \<noteq> None then '', ?'' else '''') @ '');'')"

text \<open>The result is that of the last call, and 0 when the row is in.  An error is looked up with
  \<open>sqlite3_reset\<close>: a broken constraint is no error, it leaves the result \<open>SQLITE_ERROR\<close>.\<close>

definition upk_db_try_insert ::
    "('db, 's) sqlite \<Rightarrow> string \<Rightarrow> upk_svc_desc \<Rightarrow> string \<Rightarrow> sql_value \<Rightarrow> string option \<Rightarrow> string option \<Rightarrow>
     'db store \<Rightarrow> int \<times> 'db store" where
  "upk_db_try_insert q table svc optkey optval section ident st =
     (case int_now st of (t1, st) \<Rightarrow>
      case int_now st of (t2, st) \<Rightarrow>
      let opt = (\<lambda>x. case x of None \<Rightarrow> [] | Some s \<Rightarrow> [Sql_text s]);
          vals = [Sql_text (upk_uuid_to_string (UUID svc)), Sql_text optkey, optval, t1, t2] @ opt section @ opt ident in
      case run_stmt q (insert_option_sql table section ident) vals (dbh st) of
        Inl ret \<Rightarrow> (ret, st)
      | Inr (rc, s, db) \<Rightarrow>
          let st = st\<lparr>dbh := db\<rparr> in
          if rc = SQLITE_DONE then (0, st)
          else if rc = SQLITE_ERROR then
            (case sqlite_reset q s of (rc2, s) \<Rightarrow>
               if rc2 \<noteq> SQLITE_CONSTRAINT then (sql_failed q (Some s) rc, st) else (rc, st))
          else if rc = SQLITE_MISUSE then (sql_failed q (Some s) rc, st)
          else (rc, st))"

definition update_option_sql :: "string \<Rightarrow> string" where
  "update_option_sql table = sql_buf
     (''UPDATE upk_cfg.'' @ table @ '' SET value = ?, utc_modified = ? WHERE uuid = ? AND key = ?;'')"

text \<open>Section and index of an entry are not part of the statement.\<close>

definition upk_db_try_update ::
    "('db, 's) sqlite \<Rightarrow> string \<Rightarrow> upk_svc_desc \<Rightarrow> string \<Rightarrow> sql_value \<Rightarrow> string option \<Rightarrow> string option \<Rightarrow>
     'db store \<Rightarrow> int \<times> 'db store" where
  "upk_db_try_update q table svc optkey optval section ident st =
     (case int_now st of (t, st) \<Rightarrow>
      case run_stmt q (update_option_sql table)
             [optval, t, Sql_text (upk_uuid_to_string (UUID svc)), Sql_text optkey] (dbh st) of
        Inl ret \<Rightarrow> (ret, st)
      | Inr (rc, s, db) \<Rightarrow>
          let st = st\<lparr>dbh := db\<rparr> in
          if rc = SQLITE_DONE then (0, st)
          else if rc = SQLITE_ERROR \<or> rc = SQLITE_MISUSE then (sql_failed q (Some s) rc, st)
          else (rc, st))"

definition upk_db_upsert ::
    "('db, 's) sqlite \<Rightarrow> string \<Rightarrow> upk_svc_desc \<Rightarrow> string \<Rightarrow> sql_value \<Rightarrow> string option \<Rightarrow> string option \<Rightarrow>
     'db store \<Rightarrow> bool \<times> 'db store" where
  "upk_db_upsert q table svc optkey optval section ident st =
     (case upk_db_try_insert q table svc optkey optval section ident st of (ret, st) \<Rightarrow>
        if ret = 0 then (True, st)
        else (case upk_db_try_update q table svc optkey optval section ident st of (ret, st) \<Rightarrow> (ret = 0, st)))"

text \<open>An option that is set: its key, what is bound, and its text for the hash.  An option of one byte is
  bound as the \<open>int\<close> at its address; \<open>next_bytes\<close> is what follows it in the structure.\<close>

type_synonym option_entry = "string \<times> sql_value \<times> string"

definition UPSERT_TEXT :: "string \<Rightarrow> string \<Rightarrow> option_entry list" where
  "UPSERT_TEXT key s = (if s \<noteq> '''' then [(key, Sql_text s, take UPK_MAX_STRING_LEN s)] else [])"

definition upsert_ptr :: "cheap \<Rightarrow> string \<Rightarrow> cptr \<Rightarrow> option_entry list cres" where
  "upsert_ptr h key p =
     (if p = None then Inr [] else bind_c (cstr_read h p) (\<lambda>s. Inr (UPSERT_TEXT key s)))"

definition UPSERT_INT :: "string \<Rightarrow> int \<Rightarrow> int \<Rightarrow> int \<Rightarrow> option_entry list" where
  "UPSERT_INT key v at nmin = (if v \<noteq> nmin then [(key, Sql_integer at, take (UPK_MAX_STRING_LEN - 2) (long_decimal v))] else [])"

definition upsert_int32 :: "string \<Rightarrow> u32 \<Rightarrow> option_entry list" where
  "upsert_int32 key w = UPSERT_INT key (sint w) (sint w) (sint INT32_MIN)"

definition upsert_uid :: "string \<Rightarrow> u32 \<Rightarrow> option_entry list" where
  "upsert_uid key w = UPSERT_INT key (uint w) (sint w) (uint INT32_MIN)"

definition int_at_byte :: "(string \<Rightarrow> u32) \<Rightarrow> string \<Rightarrow> u8 \<Rightarrow> int" where
  "int_at_byte next_bytes key b = sint ((ucast b :: u32) OR push_bit 8 (next_bytes key))"

definition upsert_int8 :: "(string \<Rightarrow> u32) \<Rightarrow> string \<Rightarrow> u8 \<Rightarrow> option_entry list" where
  "upsert_int8 next_bytes key b = UPSERT_INT key (sint b) (int_at_byte next_bytes key b) (sint INT8_MIN)"

text \<open>A truth value is never \<open>INT8_MIN\<close>, and a state is never \<open>INT32_MIN\<close>.\<close>

definition upsert_bool :: "(string \<Rightarrow> u32) \<Rightarrow> string \<Rightarrow> bool \<Rightarrow> option_entry list" where
  "upsert_bool next_bytes key b =
     UPSERT_INT key (of_bool b) (int_at_byte next_bytes key (of_bool b)) (sint INT8_MIN)"

definition upk_state_num :: "upk_state \<Rightarrow> int" where
  "upk_state_num s = (case s of UPK_STATE_UNDEFINED \<Rightarrow> 0 | UPK_STATE_RUNNING \<Rightarrow> 1 | UPK_STATE_STOPPED \<Rightarrow> 2 | UPK_STATE_SHUTDOWN \<Rightarrow> 3)"

definition option_entries :: "cheap \<Rightarrow> (string \<Rightarrow> u32) \<Rightarrow> upk_svc_desc \<Rightarrow> option_entry list cres" where
  "option_entries h nb svc =
     bind_c (upsert_ptr h ''LongDescription'' (LongDescription svc)) (\<lambda>long.
     bind_c (upsert_ptr h ''StartScript'' (StartScript svc)) (\<lambda>start.
     bind_c (upsert_ptr h ''StopScript'' (StopScript svc)) (\<lambda>stop.
     bind_c (upsert_ptr h ''ReloadScript'' (ReloadScript svc)) (\<lambda>reload.
     bind_c (upsert_ptr h ''PipeStdoutScript'' (PipeStdoutScript svc)) (\<lambda>out.
     bind_c (upsert_ptr h ''PipeStderrScript'' (PipeStderrScript svc)) (\<lambda>err.
     Inr (upsert_int32 ''StartPriority'' (StartPriority svc) @
       UPSERT_TEXT ''Name'' (Name svc) @ UPSERT_TEXT ''Package'' (Package svc) @
       UPSERT_TEXT ''ShortDescription'' (ShortDescription svc) @ long @
       upsert_bool nb ''RestartAllDependencies'' (RestartAllDependencies svc) @
       upsert_bool nb ''RestartOnPrerequisiteRestart'' (RestartOnPrerequisiteRestart svc) @
       upsert_int32 ''KillTimeout'' (KillTimeout svc) @ upsert_int32 ''StartupDelay'' (StartupDelay svc) @
       upsert_int32 ''MaxConsecutiveFailures'' (MaxConsecutiveFailures svc) @
       upsert_int32 ''UserMaxRestarts'' (UserMaxRestarts svc) @
       upsert_int32 ''UserRestartWindow'' (UserRestartWindow svc) @
       upsert_int32 ''UserRateLimit'' (UserRateLimit svc) @
       upsert_int8 nb ''RandomizeRateLimit'' (RandomizeRateLimit svc) @
       upsert_uid ''SetUID'' (SetUID svc) @ upsert_uid ''SetGID'' (SetGID svc) @
       (if RingbufferSize svc \<noteq> INT32_MIN_size
        then [(''RingbufferSize'', Sql_integer (sint (ucast (RingbufferSize svc) :: u32)), long_decimal (sint (RingbufferSize svc)))]
        else []) @
       upsert_int32 ''ReconnectRetries'' (ReconnectRetries svc) @
       UPSERT_TEXT ''ExecStart'' (ExecStart svc) @ start @ UPSERT_TEXT ''ExecStop'' (ExecStop svc) @ stop @
       UPSERT_TEXT ''ExecReload'' (ExecReload svc) @ reload @ out @ err @
       UPSERT_TEXT ''RedirectStdout'' (RedirectStdout svc) @ UPSERT_TEXT ''RedirectStderr'' (RedirectStderr svc) @
       UPSERT_INT ''InitialState'' (upk_state_num (InitialState svc)) (upk_state_num (InitialState svc)) (sint INT32_MIN) @
       upsert_int8 nb ''UnconfigureOnFileRemoval'' (UnconfigureOnFileRemoval svc) @
       upsert_int8 nb ''PreferBuddyStateForStopped'' (PreferBuddyStateForStopped svc) @
       upsert_int8 nb ''PreferBuddyStateForRunning'' (PreferBuddyStateForRunning svc))))))))"

text \<open>The options go in one by one, whatever becomes of each, and their texts to the hash buffer.\<close>

fun upsert_entries ::
    "('db, 's) sqlite \<Rightarrow> string \<Rightarrow> upk_svc_desc \<Rightarrow> option_entry list \<Rightarrow> string \<times> 'db store \<Rightarrow> string \<times> 'db store" where
  "upsert_entries q table svc [] bs = bs"
| "upsert_entries q table svc ((key, v, txt) # es) (buf, st) =
     upsert_entries q table svc es (buf @ txt, snd (upk_db_upsert q table svc key v None None st))"

section \<open>Options that are lists\<close>

definition LIST_UPSERT_TEXT ::
    "('db, 's) sqlite \<Rightarrow> string \<Rightarrow> upk_svc_desc \<Rightarrow> string \<Rightarrow> string \<Rightarrow> string \<Rightarrow> string \<Rightarrow> 'db store \<Rightarrow> 'db store" where
  "LIST_UPSERT_TEXT q table svc section key txt ident st =
     (if txt \<noteq> '''' then snd (upk_db_upsert q table svc key (Sql_text txt) (Some section) (Some ident) st) else st)"

fun upsert_svcids ::
    "('db, 's) sqlite \<Rightarrow> string \<Rightarrow> upk_svc_desc \<Rightarrow> string \<Rightarrow> nat \<Rightarrow> upk_svcid list \<Rightarrow> 'db store \<Rightarrow> 'db store" where
  "upsert_svcids q table svc section idx [] st = st"
| "upsert_svcids q table svc section idx (x # xs) st =
     upsert_svcids q table svc section (idx + 1) xs
       (LIST_UPSERT_TEXT q table svc section ''pkg'' (svcid_pkg x) (decimal idx)
         (LIST_UPSERT_TEXT q table svc section ''name'' (svcid_name x) (decimal idx) st))"

definition upsert_list ::
    "('db, 's) sqlite \<Rightarrow> string \<Rightarrow> upk_svc_desc \<Rightarrow> string \<Rightarrow> upk_svcid list option \<Rightarrow> 'db store \<Rightarrow> 'db store" where
  "upsert_list q table svc section l st =
     (case l of None \<Rightarrow> st | Some xs \<Rightarrow> upsert_svcids q table svc section 0 xs st)"

text \<open>The index of the actions is made once, before the loop.\<close>

fun upsert_actions ::
    "('db, 's) sqlite \<Rightarrow> string \<Rightarrow> upk_svc_desc \<Rightarrow> cheap \<Rightarrow> upk_cust_actscr list \<Rightarrow> 'db store \<Rightarrow> 'db store cres" where
  "upsert_actions q table svc h [] st = Inr st"
| "upsert_actions q table svc h (a # as) st =
     (let st = LIST_UPSERT_TEXT q table svc ''CustomActions'' ''name'' (act_name a) (decimal 0) st in
      bind_c (if act_script a = None then Inr '''' else cstr_read h (act_script a)) (\<lambda>script.
      upsert_actions q table svc h as
        (LIST_UPSERT_TEXT q table svc ''CustomActions'' ''script'' script (decimal 0) st)))"

definition delete_sql :: "string \<Rightarrow> string \<Rightarrow> string" where
  "delete_sql table uuid =
     take (UPK_MAX_STRING_LEN - 1) (''DELETE FROM upk_cfg.'' @ table @ '' WHERE uuid = '' @ quoted uuid @ '';'')"

definition upsert_lists ::
    "('db, 's) sqlite \<Rightarrow> cheap \<Rightarrow> upk_svc_desc \<Rightarrow> string \<Rightarrow> 'db store \<Rightarrow> 'db store cres" where
  "upsert_lists q h svc table_id st =
     (case upk_db_get_cfg_svc_list_options_table q table_id (dbh st) of (_, table_id, db) \<Rightarrow>
      let st = snd (run_exec q (delete_sql table_id (upk_uuid_to_string (UUID svc))) (st\<lparr>dbh := db\<rparr>));
          st = upsert_list q table_id svc ''Provides'' (Provides svc) st;
          st = upsert_list q table_id svc ''StartAfter'' (StartAfter svc) st;
          st = upsert_list q table_id svc ''RestartOnNamedPrereqRestart'' (RestartOnNamedPrereqRestart svc) st in
      case CustomActions svc of None \<Rightarrow> Inr st | Some as \<Rightarrow> upsert_actions q table_id svc h as st)"

text \<open>The hash is the checksum of the texts one after the other, with the terminator.\<close>

definition options_hash :: "string \<Rightarrow> int cres" where
  "options_hash buf =
     bind_c (upk_crc32 (map (\<lambda>c. of_nat (of_char c)) buf @ [0]) (of_nat (length buf + 1))) (\<lambda>c. Inr (sint c))"

definition upk_db_upsert_options ::
    "('db, 's) sqlite \<Rightarrow> cheap \<Rightarrow> (string \<Rightarrow> u32) \<Rightarrow> upk_svc_desc \<Rightarrow> 'db store \<Rightarrow> (int \<times> 'db store) cres" where
  "upk_db_upsert_options q h nb svc st =
     (case upk_db_get_cfg_svc_options_table q '''' (dbh st) of (_, table_id, db) \<Rightarrow>
      bind_c (option_entries h nb svc) (\<lambda>es.
      case upsert_entries q table_id svc es ('''', st\<lparr>dbh := db\<rparr>) of (buf, st) \<Rightarrow>
      bind_c (options_hash buf) (\<lambda>hash.
      bind_c (upsert_lists q h svc table_id st) (\<lambda>st. Inr (hash, st)))))"

section \<open>A description\<close>

text \<open>\<open>strncmp\<close> reads the looked up identifier even when there is none.  The result is always false.\<close>

definition upk_db_insert_cfg ::
    "('db, 's) sqlite \<Rightarrow> bool \<Rightarrow> cheap \<Rightarrow> (string \<Rightarrow> u32) \<Rightarrow> upk_svc_desc \<Rightarrow> 'db store \<Rightarrow>
     (bool \<times> upk_svc_desc \<times> 'db store) cres option" where
  "upk_db_insert_cfg q opened h nb svc st =
     bind_o (Some (upk_concat_svcid (Package svc) (Name svc))) (\<lambda>_.
     let uuid = upk_uuid_to_string (UUID svc);
         (found, st) = upk_db_svc_uuid_lookup q (Name svc) (Some (Package svc)) st;
         options = (\<lambda>svc st. bind_o (Some (upk_db_upsert_options q h nb svc st)) (\<lambda>(_, st).
           Some (Inr (False, svc, st)))) in
     if uuid \<noteq> zero_uuid_string then
       (case found of None \<Rightarrow> Some (Inl Null_deref)
        | Some p \<Rightarrow>
            if take UPK_UUID_STRING_LEN p = take UPK_UUID_STRING_LEN uuid then Some (Inr (False, svc, st))
            else options svc st)
     else
       (case found of
          Some p \<Rightarrow> options (svc\<lparr>UUID := upk_string_to_uuid (UUID svc) p\<rparr>) st
        | None \<Rightarrow> bind_o (upk_db_add_new_service q opened svc st) (\<lambda>(_, svc, st). options svc st)))"

text \<open>\<open>upk_ctrl_init\<close>: the services of the configuration file, in their order.\<close>

fun insert_services ::
    "('db, 's) sqlite \<Rightarrow> bool \<Rightarrow> cheap \<Rightarrow> (string \<Rightarrow> u32) \<Rightarrow> upk_svc_desc list \<Rightarrow> 'db store \<Rightarrow>
     (upk_svc_desc list \<times> 'db store) cres option" where
  "insert_services q opened h nb [] st = Some (Inr ([], st))"
| "insert_services q opened h nb (svc # svcs) st =
     bind_o (upk_db_insert_cfg q opened h nb svc st) (\<lambda>(_, svc, st).
     bind_o (insert_services q opened h nb svcs st) (\<lambda>(svcs, st). Some (Inr (svc # svcs, st))))"

section \<open>Queries that run\<close>

text \<open>A query that is prepared, bound and stepped without an error, and has this first column or no row.\<close>

definition finds :: "('db, 's) sqlite \<Rightarrow> string \<Rightarrow> string list \<Rightarrow> string option \<Rightarrow> 'db \<Rightarrow> bool" where
  "finds q sql args res db \<longleftrightarrow> (\<exists>s s' s''. sqlite_prepare q sql db = (SQLITE_OK, Some s) \<and>
     bind_values q 1 (map Sql_text args) s = (SQLITE_OK, s') \<and>
     (case res of None \<Rightarrow> sqlite_step q s' db = (SQLITE_DONE, s'', db)
      | Some r \<Rightarrow> sqlite_step q s' db = (SQLITE_ROW, s'', db) \<and> sqlite_column_text q s'' = Some r \<and>
          length r < UPK_MAX_STRING_LEN))"

lemma single_text_finds:
  assumes "finds q sql args res db"
  shows "upk_db_get_single_text q value sql args db =
    (case res of None \<Rightarrow> (- 1, value, db) | Some r \<Rightarrow> (0, r, db))"
  using assms
  by (cases res) (auto simp: finds_def upk_db_get_single_text_def run_stmt_def sqlite_codes)

definition services_sql :: string where
  "services_sql = sql_buf ''SELECT (table_id) FROM upk_cfg._schema WHERE table_name = ?;''"

definition services_table :: "('db, 's) sqlite \<Rightarrow> string \<Rightarrow> 'db \<Rightarrow> bool" where
  "services_table q table db \<longleftrightarrow> finds q services_sql [''services''] (Some table) db"

lemma services_table_found:
  "services_table q table db \<Longrightarrow> upk_db_get_cfg_services_table q value db = (0, table, db)"
  using single_text_finds [of q services_sql "[''services'']" "Some table" db "value"]
  by (simp add: services_table_def upk_db_get_cfg_services_table_def upk_db_get_table_id_def services_sql_def)

text \<open>What the static buffer holds after a lookup.\<close>

definition looked_up :: "string option \<Rightarrow> 'db store \<Rightarrow> string" where
  "looked_up res st = (case res of None \<Rightarrow> lookup_uuid st | Some u \<Rightarrow> u)"

lemma lookup_finds:
  assumes "services_table q table (dbh st)"
    and "finds q (lookup_sql table (Some p)) [n, p] res (dbh st)"
  shows "upk_db_svc_uuid_lookup q n (Some p) st =
    (if looked_up res st \<noteq> '''' then Some (looked_up res st) else None, st\<lparr>lookup_uuid := looked_up res st\<rparr>)"
  using services_table_found [OF assms(1)] single_text_finds [OF assms(2)]
  by (cases res) (simp_all add: upk_db_svc_uuid_lookup_def looked_up_def)

section \<open>The static buffer\<close>

lemma keeps_lookup_upsert:
  "lookup_uuid (snd (upk_db_upsert q table svc k v sec ident st)) = lookup_uuid st"
  by (auto simp: upk_db_upsert_def upk_db_try_insert_def upk_db_try_update_def int_now_def time_now_def Let_def
      split: prod.split sum.split)

lemma keeps_lookup_entries:
  "lookup_uuid (snd (upsert_entries q table svc es (buf, st))) = lookup_uuid st"
proof (induction es arbitrary: buf st)
  case (Cons e es)
  then show ?case by (cases e) (simp add: keeps_lookup_upsert)
qed simp

lemma keeps_lookup_list_text:
  "lookup_uuid (LIST_UPSERT_TEXT q table svc sec k t i st) = lookup_uuid st"
  by (simp add: LIST_UPSERT_TEXT_def keeps_lookup_upsert)

lemma keeps_lookup_list: "lookup_uuid (upsert_list q table svc sec l st) = lookup_uuid st"
proof -
  have "lookup_uuid (upsert_svcids q table svc sec i xs st) = lookup_uuid st" for i xs st
    by (induction xs arbitrary: i st) (simp_all add: keeps_lookup_list_text)
  then show ?thesis by (simp add: upsert_list_def split: option.split)
qed

lemma keeps_lookup_actions:
  "upsert_actions q table svc h as st = Inr st' \<Longrightarrow> lookup_uuid st' = lookup_uuid st"
  by (induction as arbitrary: st) (auto simp: keeps_lookup_list_text bind_c_Inr_iff Let_def)

lemma keeps_lookup_options:
  assumes "upk_db_upsert_options q h nb svc st = Inr (hash, st')"
  shows "lookup_uuid st' = lookup_uuid st"
proof -
  have "lookup_uuid (snd (run_exec q sql st)) = lookup_uuid st" for sql and st :: "'a store"
    by (simp add: run_exec_def split: prod.split)
  then have lists: "upsert_lists q h svc table st = Inr st' \<Longrightarrow> lookup_uuid st' = lookup_uuid st" for table st st'
    by (auto simp: upsert_lists_def keeps_lookup_list Let_def dest!: keeps_lookup_actions
        split: prod.splits option.splits)
  obtain ret table db where t: "upk_db_get_cfg_svc_options_table q '''' (dbh st) = (ret, table, db)"
    by (cases "upk_db_get_cfg_svc_options_table q '''' (dbh st)") auto
  obtain es where es: "option_entries h nb svc = Inr es"
    using assms by (auto simp: upk_db_upsert_options_def bind_c_Inr_iff t)
  obtain buf st1 where b: "upsert_entries q table svc es ('''', st\<lparr>dbh := db\<rparr>) = (buf, st1)"
    by (cases "upsert_entries q table svc es ('''', st\<lparr>dbh := db\<rparr>)") auto
  have "lookup_uuid st1 = lookup_uuid st"
    using keeps_lookup_entries [of q table svc es "''''" "st\<lparr>dbh := db\<rparr>"] by (simp add: b)
  moreover have "upsert_lists q h svc table st1 = Inr st'"
    using assms by (auto simp: upk_db_upsert_options_def bind_c_Inr_iff t es b)
  ultimately show ?thesis using lists by metis
qed

lemma zero_uuid_text: "upk_uuid_to_string zero_uuid = zero_uuid_string"
  by code_simp

section \<open>Properties\<close>

text \<open>The options of a description, stored under its identifier.\<close>

definition stored_options ::
    "('db, 's) sqlite \<Rightarrow> cheap \<Rightarrow> (string \<Rightarrow> u32) \<Rightarrow> upk_svc_desc \<Rightarrow> 'db store \<Rightarrow>
     (bool \<times> upk_svc_desc \<times> 'db store) cres option" where
  "stored_options q h nb svc st =
     bind_o (Some (upk_db_upsert_options q h nb svc st)) (\<lambda>(_, st). Some (Inr (False, svc, st)))"

lemma uuid_text_length:
  assumes "length (uu_node u) = 6"
  shows "length (upk_uuid_to_string u) = UPK_UUID_STRING_LEN"
proof -
  have "length (concat (map (\<lambda>b. fixed_digits 16 2 (unat b)) bs)) = 2 * length bs" for bs :: bytes
    by (induction bs) simp_all
  then show ?thesis using assms by (simp add: upk_uuid_to_string_def UPK_UUID_STRING_LEN_def)
qed

lemma insert_cfg_looked_up:
  assumes "upk_concat_svcid (Package svc) (Name svc) = Inr txt" and "services_table q table (dbh st)"
    and "finds q (lookup_sql table (Some (Package svc))) [Name svc, Package svc] res (dbh st)"
  shows "upk_db_insert_cfg q opened h nb svc st =
    (let found = looked_up res st; st = st\<lparr>lookup_uuid := found\<rparr>; uuid = upk_uuid_to_string (UUID svc) in
     if uuid \<noteq> zero_uuid_string then
       if found = '''' then Some (Inl Null_deref)
       else if take UPK_UUID_STRING_LEN found = take UPK_UUID_STRING_LEN uuid then Some (Inr (False, svc, st))
       else stored_options q h nb svc st
     else if found \<noteq> '''' then stored_options q h nb (svc\<lparr>UUID := upk_string_to_uuid (UUID svc) found\<rparr>) st
     else bind_o (upk_db_add_new_service q opened svc st) (\<lambda>(_, svc, st). stored_options q h nb svc st))"
  using lookup_finds [OF assms(2,3)]
  by (simp add: upk_db_insert_cfg_def assms(1) stored_options_def [abs_def] Let_def case_prod_unfold)

text \<open>C21: a service that is new to the store, and comes after a known one in the configuration file, is
  taken for the known one: it is given its identifier, and its options are stored over the other's,
  because the lookup that finds no row leaves the identifier of the lookup before in its buffer.\<close>

theorem new_service_overwrites:
  assumes "UUID a = zero_uuid" and "UUID b = zero_uuid"
    and "upk_concat_svcid (Package a) (Name a) = Inr ta" and "upk_concat_svcid (Package b) (Name b) = Inr tb"
    and "services_table q table (dbh st)"
    and "finds q (lookup_sql table (Some (Package a))) [Name a, Package a] (Some u) (dbh st)" and "u \<noteq> ''''"
    and "upk_db_insert_cfg q opened h nb a st = Some (Inr (ok, a', st1))"
    and "services_table q table' (dbh st1)"
    and "finds q (lookup_sql table' (Some (Package b))) [Name b, Package b] None (dbh st1)"
  shows "UUID a' = upk_string_to_uuid zero_uuid u \<and>
    upk_db_insert_cfg q opened h nb b st1 = stored_options q h nb (b\<lparr>UUID := UUID a'\<rparr>) st1"
proof -
  let ?a = "a\<lparr>UUID := upk_string_to_uuid zero_uuid u\<rparr>"
  have "stored_options q h nb ?a (st\<lparr>lookup_uuid := u\<rparr>) = Some (Inr (ok, a', st1))"
    using insert_cfg_looked_up [OF assms(3,5,6), of opened h nb] assms(1,7,8)
    by (simp add: zero_uuid_text looked_up_def)
  then obtain hash where a: "a' = ?a" "upk_db_upsert_options q h nb ?a (st\<lparr>lookup_uuid := u\<rparr>) = Inr (hash, st1)"
    by (auto simp: stored_options_def bind_o_def split: sum.splits)
  then have buffer: "lookup_uuid st1 = u" using keeps_lookup_options by fastforce
  then have "looked_up None st1 = u" "st1\<lparr>lookup_uuid := u\<rparr> = st1" by (simp_all add: looked_up_def)
  then show ?thesis
    using insert_cfg_looked_up [OF assms(4,9,10), of opened h nb] assms(2,7) a(1)
    by (simp add: zero_uuid_text)
qed

text \<open>C31: a description that carries an identifier is compared with the identifier of the store for its
  name, or, when the store has no such service, with the one that an earlier lookup left in the static
  buffer.  With neither the controller compares with a null pointer; with the same identifier the
  description is refused as in conflict; and with another one its options are stored under its own.
  The test is the wrong way round, and the result is false in every case.\<close>

theorem identified_service:
  assumes "upk_uuid_to_string (UUID svc) \<noteq> zero_uuid_string" and "length (uu_node (UUID svc)) = 6"
    and "upk_concat_svcid (Package svc) (Name svc) = Inr txt" and "services_table q table (dbh st)"
    and "finds q (lookup_sql table (Some (Package svc))) [Name svc, Package svc] res (dbh st)"
  shows "let known = (case res of Some u \<Rightarrow> u | None \<Rightarrow> lookup_uuid st); st' = st\<lparr>lookup_uuid := known\<rparr> in
    upk_db_insert_cfg q opened h nb svc st =
      (if known = '''' then Some (Inl Null_deref)
       else if take UPK_UUID_STRING_LEN known = upk_uuid_to_string (UUID svc) then Some (Inr (False, svc, st'))
       else stored_options q h nb svc st')"
  using insert_cfg_looked_up [OF assms(3-5), of opened h nb] assms(1) uuid_text_length [OF assms(2)]
  by (cases res) (auto simp: looked_up_def Let_def)

lemma bind_refused:
  assumes "\<And>idx s. fst (sqlite_bind q idx v s) \<noteq> SQLITE_OK" and "v \<in> set vals"
  shows "fst (bind_values q idx vals s) \<noteq> SQLITE_OK"
  using assms(2)
proof (induction vals arbitrary: idx s)
  case (Cons x xs)
  then show ?case using assms(1) [of idx s] by (auto split: prod.split)
qed simp

text \<open>C33: a value that SQLite does not bind is lost without a trace: the reset of a statement that was never
  stepped succeeds, its code replaces the error, and the option counts as inserted.\<close>

theorem unbound_option_lost:
  assumes "sqlite_prepare q (insert_option_sql table sec ident) (dbh st) = (SQLITE_OK, Some s)"
    and "\<And>vals. fst (sqlite_reset q (snd (bind_values q 1 vals s))) = SQLITE_OK"
    and "\<And>idx s. fst (sqlite_bind q idx optval s) \<noteq> SQLITE_OK"
  shows "upk_db_upsert q table svc key optval sec ident st = (True, st\<lparr>ticks := ticks st + 2\<rparr>)"
proof -
  have "run_stmt q (insert_option_sql table sec ident) vals (dbh st) = Inl 0" if "optval \<in> set vals" for vals
  proof -
    obtain rc s' where b: "bind_values q 1 vals s = (rc, s')" by (cases "bind_values q 1 vals s")
    then have "rc \<noteq> SQLITE_OK" using bind_refused [of q optval vals 1 s, OF assms(3) that] by simp
    moreover have "fst (sqlite_reset q s') = 0" using assms(2) [of vals] unfolding b snd_conv sqlite_codes .
    ultimately show ?thesis using assms(1) by (simp add: run_stmt_def sql_failed_def b [simplified] sqlite_codes)
  qed
  then show ?thesis
    by (simp add: upk_db_upsert_def upk_db_try_insert_def int_now_def time_now_def Let_def)
qed

text \<open>C32: the first identifier that is drawn decides: when the store does not have it, it is used; when it
  does, the loop never ends, however many free identifiers are drawn after it, because a query without a
  row does not clear the match.\<close>

theorem first_draw_decides:
  assumes "services_table q table (dbh st)" and "draws st = (reads, rand) # ds"
    and "upk_gen_uuid_bytes opened reads rand = Some uuid"
    and "finds q (uuid_sql table) [upk_uuid_to_string uuid] res (dbh st)" and "res \<noteq> Some ''''"
    and "\<forall>(reads, rand)\<in>set ds. \<exists>u. upk_gen_uuid_bytes opened reads rand = Some u \<and>
      finds q (uuid_sql table) [upk_uuid_to_string u] None (dbh st)"
  shows "upk_db_gen_uuid q opened st =
    (if res = None then Some (upk_uuid_to_string uuid, st\<lparr>draws := ds\<rparr>) else None)"
proof -
  have "gen_uuid_loop q (uuid_sql table) opened m ds (dbh st) = None" if "m \<noteq> ''''" for m
    using assms(6)
  proof (induction ds)
    case (Cons d ds)
    obtain reads rand where d: "d = (reads, rand)" by (cases d)
    obtain u where u: "upk_gen_uuid_bytes opened reads rand = Some u"
      "finds q (uuid_sql table) [upk_uuid_to_string u] None (dbh st)"
      using Cons.prems d by auto
    then show ?case using Cons that single_text_finds [OF u(2), of m] by (simp add: d)
  qed simp
  then show ?thesis
    using services_table_found [OF assms(1)] single_text_finds [OF assms(4), of "''''"] assms(2,3,5)
    by (cases res) (simp_all add: upk_db_gen_uuid_def)
qed

text \<open>A database to try the properties on: rows of a name, a package and an identifier, a statement with its
  text, its values and its column, no value above a thousand characters.\<close>

type_synonym sample_stmt = "string \<times> sql_value list \<times> string option"

definition sample_row :: "sample_stmt \<Rightarrow> string option \<Rightarrow> 'db \<Rightarrow> int \<times> sample_stmt \<times> 'db" where
  "sample_row s res db = (if res = None then 101 else 100, (fst s, fst (snd s), res), db)"

definition sample_step ::
    "sample_stmt \<Rightarrow> (string \<times> string \<times> string) list \<Rightarrow> int \<times> sample_stmt \<times> (string \<times> string \<times> string) list" where
  "sample_step s db =
     (case fst (snd s) of
        [Sql_text t] \<Rightarrow>
          sample_row s (if t = ''services'' then Some ''services_s1''
            else map_option (\<lambda>(n, p, u). u) (find (\<lambda>(n, p, u). u = t) db)) db
      | [Sql_text t, Sql_text t'] \<Rightarrow>
          sample_row s (map_option (\<lambda>(n, p, u). u) (find (\<lambda>(n, p, u). n = t \<and> p = t') db)) db
      | _ \<Rightarrow> sample_row s None db)"

definition sample_sqlite :: "((string \<times> string \<times> string) list, sample_stmt) sqlite" where
  "sample_sqlite =
     \<lparr>sqlite_prepare = (\<lambda>sql db. (0, Some (sql, [], None))),
      sqlite_bind = (\<lambda>i v s. if (case v of Sql_text t \<Rightarrow> 1000 < length t | _ \<Rightarrow> False) then (18, s)
        else (0, (fst s, fst (snd s) @ [v], None))),
      sqlite_step = sample_step, sqlite_column_text = (\<lambda>s. snd (snd s)), sqlite_reset = (\<lambda>s. (0, s)),
      sqlite_exec = (\<lambda>sql db. (0, db))\<rparr>"

definition sample_store :: "(string \<times> string \<times> string) list store" where
  "sample_store = \<lparr>dbh = [(''a'', '''', ''00000000-0000-4000-8000-000000000001'')], lookup_uuid = '''',
     draws = [], clock = (\<lambda>_. 0), ticks = 0\<rparr>"

definition named :: "string \<Rightarrow> upk_svc_desc" where
  "named n = upk_svc_desc_clear\<lparr>Name := n\<rparr>"

lemma named_sel [simp]: "UUID (named n) = zero_uuid" "Package (named n) = ''''" "Name (named n) = n"
  by (simp_all add: named_def upk_svc_desc_clear_def)

lemma sample_finds:
  "services_table sample_sqlite ''services_s1'' db"
  "finds sample_sqlite sql [''a'', ''''] (Some ''00000000-0000-4000-8000-000000000001'') (dbh sample_store)"
  "finds sample_sqlite sql [''b'', ''''] None (dbh sample_store)"
  by (simp_all add: services_table_def finds_def sample_sqlite_def sample_step_def sample_row_def sqlite_codes
      sample_store_def UPK_MAX_STRING_LEN_def)

text \<open>It never changes.\<close>

definition read_only :: "('db, 's) sqlite \<Rightarrow> bool" where
  "read_only q \<longleftrightarrow> (\<forall>s db. snd (snd (sqlite_step q s db)) = db) \<and> (\<forall>sql db. snd (sqlite_exec q sql db) = db)"

lemma sample_read_only: "read_only sample_sqlite"
  by (auto simp: read_only_def sample_sqlite_def sample_step_def sample_row_def split: list.split sql_value.split)

lemma read_only_stmt: "read_only q \<Longrightarrow> run_stmt q sql vals db = Inr (rc, s, db') \<Longrightarrow> db' = db"
  by (auto simp: run_stmt_def read_only_def split: prod.splits option.splits if_splits) (metis snd_conv)

lemma read_only_text:
  assumes "read_only q"
  shows "snd (snd (upk_db_get_single_text q buf sql args db)) = db"
  by (auto simp: upk_db_get_single_text_def split: sum.split prod.split option.split
      dest!: read_only_stmt [OF assms])

lemma read_only_upsert:
  assumes "read_only q"
  shows "dbh (snd (upk_db_upsert q table svc k v sec ident st)) = dbh st"
  by (auto simp: upk_db_upsert_def upk_db_try_insert_def upk_db_try_update_def int_now_def time_now_def Let_def
      split: prod.split sum.split dest!: read_only_stmt [OF assms])

lemma read_only_entries:
  assumes "read_only q"
  shows "dbh (snd (upsert_entries q table svc es (buf, st))) = dbh st"
proof (induction es arbitrary: buf st)
  case (Cons e es)
  then show ?case by (cases e) (simp add: read_only_upsert [OF assms])
qed simp

lemma read_only_list:
  assumes "read_only q"
  shows "dbh (upsert_list q table svc sec l st) = dbh st"
proof -
  have "dbh (upsert_svcids q table svc sec i xs st) = dbh st" for i xs st
    by (induction xs arbitrary: i st) (simp_all add: LIST_UPSERT_TEXT_def read_only_upsert [OF assms])
  then show ?thesis by (simp add: upsert_list_def split: option.split)
qed

lemma options_hash_total: "\<exists>hash. options_hash buf = Inr hash"
proof -
  have "unat (of_nat n :: u32) \<le> n" for n by (simp add: unat_of_nat take_bit_nat_less_eq_self)
  from this [of "length buf + 1"] show ?thesis by (simp add: options_hash_def upk_crc32_def)
qed

lemma read_only_options:
  assumes "read_only q" and "option_entries h nb svc = Inr es" and "CustomActions svc = None"
  shows "\<exists>hash st'. upk_db_upsert_options q h nb svc st = Inr (hash, st') \<and> dbh st' = dbh st"
proof -
  obtain ret table where t: "upk_db_get_cfg_svc_options_table q '''' (dbh st) = (ret, table, dbh st)"
    using read_only_text [OF assms(1)]
    by (metis prod.collapse upk_db_get_cfg_svc_options_table_def upk_db_get_table_id_def)
  obtain buf st1 where b: "upsert_entries q table svc es ('''', st) = (buf, st1)"
    by (cases "upsert_entries q table svc es ('''', st)")
  have db: "dbh st1 = dbh st" using read_only_entries [OF assms(1), of table svc es "''''" st] by (simp add: b)
  obtain ret2 table2 where t2: "upk_db_get_cfg_svc_list_options_table q table (dbh st) = (ret2, table2, dbh st)"
    using read_only_text [OF assms(1)]
    by (metis prod.collapse upk_db_get_cfg_svc_list_options_table_def upk_db_get_table_id_def)
  have "dbh (snd (run_exec q sql st)) = dbh st" for sql and st :: "'a store"
    using assms(1) by (auto simp: run_exec_def read_only_def split: prod.split) (metis snd_conv)
  then have "\<exists>st'. upsert_lists q h svc table st1 = Inr st' \<and> dbh st' = dbh st"
    by (simp add: upsert_lists_def t2 assms(3) read_only_list [OF assms(1)] Let_def db)
  moreover obtain hash where "options_hash buf = Inr hash" using options_hash_total by blast
  ultimately show ?thesis by (auto simp: upk_db_upsert_options_def t assms(2) b)
qed

lemma sample_stored:
  "\<exists>st1. stored_options sample_sqlite h nb ((named n)\<lparr>UUID := u\<rparr>) st = Some (Inr (False, (named n)\<lparr>UUID := u\<rparr>, st1)) \<and>
     dbh st1 = dbh st"
proof -
  let ?svc = "(named n)\<lparr>UUID := u\<rparr>"
  have "\<exists>es. option_entries h nb ?svc = Inr es" and actions: "CustomActions ?svc = None"
    by (simp_all add: option_entries_def named_def upk_svc_desc_clear_def upsert_ptr_def)
  then obtain es where "option_entries h nb ?svc = Inr es" by blast
  from read_only_options [OF sample_read_only this actions, of st]
  obtain hash st' where "upk_db_upsert_options sample_sqlite h nb ?svc st = Inr (hash, st')" "dbh st' = dbh st"
    by blast
  then show ?thesis by (simp add: stored_options_def)
qed

lemma sample_concat: "upk_concat_svcid '''' [c] = Inr [c]"
  by (simp add: upk_concat_svcid_def UPK_MAX_STRING_LEN_def)

lemma sample_known:
  "\<exists>st1. upk_db_insert_cfg sample_sqlite True h nb (named ''a'') sample_store =
       Some (Inr (False, (named ''a'')\<lparr>UUID := upk_string_to_uuid zero_uuid ''00000000-0000-4000-8000-000000000001''\<rparr>, st1)) \<and>
     dbh st1 = dbh sample_store"
proof -
  let ?u = "''00000000-0000-4000-8000-000000000001''"
  have c: "upk_concat_svcid (Package (named ''a'')) (Name (named ''a'')) = Inr ''a''" by (simp add: sample_concat)
  from sample_stored [where h = h and nb = nb and n = "''a''" and u = "upk_string_to_uuid zero_uuid ?u" and
      st = "sample_store\<lparr>lookup_uuid := ?u\<rparr>"]
  show ?thesis
    using insert_cfg_looked_up [OF c sample_finds(1), where st = sample_store and res = "Some ?u" and opened = True and h = h and nb = nb]
      sample_finds(2)
    by (simp add: zero_uuid_text looked_up_def Let_def)
qed

lemma new_service_overwrites_witness:
  "\<exists>ok a' st1. upk_db_insert_cfg sample_sqlite True \<lparr>strings = (\<lambda>_. None), brk = 0, list_frees = 0\<rparr> (\<lambda>_. 0) (named ''a'') sample_store =
       Some (Inr (ok, a', st1)) \<and>
     upk_db_insert_cfg sample_sqlite True \<lparr>strings = (\<lambda>_. None), brk = 0, list_frees = 0\<rparr> (\<lambda>_. 0) (named ''b'') st1 =
       stored_options sample_sqlite \<lparr>strings = (\<lambda>_. None), brk = 0, list_frees = 0\<rparr> (\<lambda>_. 0) ((named ''b'')\<lparr>UUID := UUID a'\<rparr>) st1"
proof -
  let ?h = "\<lparr>strings = (\<lambda>_. None), brk = 0, list_frees = 0\<rparr> :: cheap" and ?nb = "\<lambda>_ :: string. 0 :: u32"
  let ?u = "''00000000-0000-4000-8000-000000000001''"
  have c: "upk_concat_svcid (Package (named [c])) (Name (named [c])) = Inr [c]" for c
    by (simp add: sample_concat)
  obtain a' st1 where st1: "upk_db_insert_cfg sample_sqlite True ?h ?nb (named ''a'') sample_store = Some (Inr (False, a', st1))"
    "dbh st1 = dbh sample_store"
    using sample_known by blast
  show ?thesis
    using new_service_overwrites [OF named_sel(1) named_sel(1) c [of "CHR ''a''"] c [of "CHR ''b''"], where q = sample_sqlite and table = "''services_s1''"
        and table' = "''services_s1''" and st = sample_store and u = ?u and opened = True and h = ?h and nb = ?nb
        and a' = a' and ?st1.0 = st1 and ok = False]
      sample_finds st1 by auto
qed

lemma identified_service_witness:
  "let svc = (named ''b'')\<lparr>UUID := zero_uuid\<lparr>uu_clk_seq_low := 1\<rparr>\<rparr>; h = \<lparr>strings = (\<lambda>_. None), brk = 0, list_frees = 0\<rparr>;
     same = sample_store\<lparr>lookup_uuid := upk_uuid_to_string (UUID svc)\<rparr> in
   upk_db_insert_cfg sample_sqlite True h (\<lambda>_. 0) svc sample_store = Some (Inl Null_deref) \<and>
   upk_db_insert_cfg sample_sqlite True h (\<lambda>_. 0) svc same = Some (Inr (False, svc, same))"
proof -
  let ?svc = "(named ''b'')\<lparr>UUID := zero_uuid\<lparr>uu_clk_seq_low := 1\<rparr>\<rparr>"
  let ?same = "sample_store\<lparr>lookup_uuid := upk_uuid_to_string (UUID ?svc)\<rparr>"
  have u: "upk_uuid_to_string (UUID ?svc) \<noteq> zero_uuid_string" by simp code_simp
  have node: "length (uu_node (UUID ?svc)) = 6" by (simp add: zero_uuid_def)
  have c: "upk_concat_svcid (Package ?svc) (Name ?svc) = Inr ''b''" using sample_concat by simp
  have len: "length (upk_uuid_to_string (UUID ?svc)) = UPK_UUID_STRING_LEN" using node by (rule uuid_text_length)
  then have ne: "upk_uuid_to_string (UUID ?svc) \<noteq> ''''" by (auto simp: UPK_UUID_STRING_LEN_def)
  have find: "services_table sample_sqlite ''services_s1'' (dbh st)"
    "finds sample_sqlite (lookup_sql ''services_s1'' (Some (Package ?svc))) [Name ?svc, Package ?svc] None (dbh st)"
    if "dbh st = dbh sample_store" for st :: "(string \<times> string \<times> string) list store"
    using sample_finds(1,3) that by simp_all
  have "lookup_uuid sample_store = ''''" by (simp add: sample_store_def)
  then show ?thesis
    using identified_service [OF u node c find, of sample_store True "\<lparr>strings = (\<lambda>_. None), brk = 0, list_frees = 0\<rparr>" "\<lambda>_. 0"]
      identified_service [OF u node c find, of ?same True "\<lparr>strings = (\<lambda>_. None), brk = 0, list_frees = 0\<rparr>" "\<lambda>_. 0"] len ne
    by (simp add: Let_def)
qed

lemma unbound_option_lost_witness:
  "upk_db_upsert sample_sqlite ''t'' (named ''a'') ''Name'' (Sql_text (replicate 1001 CHR ''x'')) None None sample_store =
     (True, sample_store\<lparr>ticks := 2\<rparr>)"
  using unbound_option_lost [of sample_sqlite "''t''" None None sample_store "(insert_option_sql ''t'' None None, [], None)"
      "Sql_text (replicate 1001 CHR ''x'')" "named ''a''" "''Name''"]
  by (simp add: sample_sqlite_def sqlite_codes sample_store_def)

definition first_draw :: upk_uuid where
  "first_draw = zero_uuid\<lparr>uu_time_high_and_version := 0x4000, uu_clk_seq_high := 0x80\<rparr>"

lemma first_draw_drawn: "upk_gen_uuid_bytes True [(16, False, replicate 16 0)] (\<lambda>_. 0) = Some first_draw"
  by code_simp

lemma first_draw_free: "finds sample_sqlite sql [upk_uuid_to_string first_draw] None (dbh sample_store)"
proof -
  have len: "length (upk_uuid_to_string first_draw) = 36"
    by (subst uuid_text_length) (simp_all add: first_draw_def zero_uuid_def UPK_UUID_STRING_LEN_def)
  have node: "uu_node first_draw = replicate 6 0" by (simp add: first_draw_def zero_uuid_def)
  have zeros: "concat (map (\<lambda>b. fixed_digits 16 2 (unat b)) (replicate 6 (0 :: u8))) = ''000000000000''"
    by code_simp
  have "last (upk_uuid_to_string first_draw) = CHR ''0''"
    unfolding upk_uuid_to_string_def node zeros by simp
  then have "upk_uuid_to_string first_draw \<noteq> ''00000000-0000-4000-8000-000000000001''" by fastforce
  moreover have "upk_uuid_to_string first_draw \<noteq> ''services''" using len by fastforce
  ultimately show ?thesis
    using len by (auto simp: finds_def sample_sqlite_def sample_step_def sample_row_def sqlite_codes sample_store_def)
qed

lemma first_draw_decides_witness:
  "upk_db_gen_uuid sample_sqlite True (sample_store\<lparr>draws := [([(16, False, replicate 16 0)], \<lambda>_. 0)]\<rparr>) =
     Some (upk_uuid_to_string first_draw, sample_store)"
proof -
  have "finds sample_sqlite (uuid_sql ''services_s1'') [upk_uuid_to_string first_draw] None
      (dbh (sample_store\<lparr>draws := [([(16, False, replicate 16 0)], \<lambda>_. 0)]\<rparr>))"
    using first_draw_free by simp
  from first_draw_decides [OF sample_finds(1) _ first_draw_drawn this, of "[]"] show ?thesis
    by (simp add: sample_store_def)
qed

end
