(* ===== verification/Upk_Json.thy ===== *)
theory Upk_Json
  imports Upk_Util Upk_List
begin

text \<open>
  \<open>libupkeeper/upkeeper/upk_json.c\<close>: the walk over a JSON document with a stack of handlers, and the
  printer, which is one set of handlers.  A handler is called through a function pointer: the pointers
  are a type \<open>'f\<close>, and \<open>run\<close> says what calling one does.  The stack, used through \<open>UPKLIST_PREPEND\<close> and the
  unlinking of the first node only (locale \<open>ustack\<close>), is the list of its nodes.

  json-c, which parses documents and prints numbers and strings, is a parameter.

  The lemmas say that the walk keeps the stack when every container handler pushes one node (locale
  \<open>balanced_handlers\<close>), that the printer prints what a recursion over the document prints, and when the
  two outputs of the printer agree.
\<close>

section \<open>Documents\<close>

text \<open>An object of json-c as its accessors show it: \<open>JNull\<close> is the null pointer, members are in the order
  in which they were added, a double is its representation.\<close>

datatype json =
    JNull | JBool bool | JDouble u64 | JInt u32 | JString string
  | JArray "json list" | JObject "(string \<times> json) list"

text \<open>What the code uses of json-c: the text of a string, quoted and escaped, the conversion \<open>%lf\<close>,
  \<open>json_object_object_add\<close> on the members of an object, and the parser, which returns an object, whether
  it succeeded, and the offset it reached.\<close>

record json_c =
  to_json_string :: "string \<Rightarrow> string"
  format_double :: "u64 \<Rightarrow> string"
  object_add :: "(string \<times> json) list \<Rightarrow> string \<Rightarrow> json \<Rightarrow> (string \<times> json) list"
  tokener_parse :: "string \<Rightarrow> json \<times> bool \<times> nat"

section \<open>Slashes\<close>

text \<open>\<open>upk_json_unescape_forwardslash\<close> on the buffer of a terminated string: \<open>p\<close> is the place written,
  \<open>skip\<close> how far the place read is ahead.\<close>

definition NUL :: char where "NUL = CHR 0x00"

definition char_at :: "string \<Rightarrow> nat \<Rightarrow> char cres" where
  "char_at buf i = (if i < length buf then Inr (buf ! i) else Inl Oob_read)"

function unescape_loop :: "string \<Rightarrow> nat \<Rightarrow> nat \<Rightarrow> string cres" where
  "unescape_loop buf p skip =
     bind_c (char_at buf (p + skip)) (\<lambda>c.
       if c = NUL then Inr (buf[p := NUL])
       else bind_c (if c = CHR 0x5C then char_at buf (p + skip + 1) else Inr NUL) (\<lambda>d.
         let skip = (if c = CHR 0x5C \<and> d = CHR ''/'' then skip + 1 else skip) in
         bind_c (char_at buf (p + skip)) (\<lambda>c. unescape_loop (buf[p := c]) (p + 1) skip)))"
  by pat_completeness auto

termination
  by (relation "measure (\<lambda>(buf, p, skip). length buf - (p + skip))")
    (auto simp: char_at_def bind_c_Inr_iff Let_def split: if_splits)

declare unescape_loop.simps [simp del]

definition upk_json_unescape_forwardslash :: "string \<Rightarrow> string cres" where
  "upk_json_unescape_forwardslash s =
     bind_c (unescape_loop (s @ [NUL]) 0 0) (\<lambda>buf. Inr (takeWhile (\<lambda>c. c \<noteq> NUL) buf))"

section \<open>The stack of handlers\<close>

text \<open>The value given to a handler: the member of the union that belongs to the type.\<close>

datatype upk_json_val =
    V_null | V_bl bool | V_dbl u64 | V_i u32 | V_str string string | V_obj json

record 'f upk_json_handlers =
  json_null :: "'f option"
  json_bool :: "'f option"
  json_double :: "'f option"
  json_int :: "'f option"
  json_string :: "'f option"
  json_array :: "'f option"
  json_object :: "'f option"
  after_json_obj_pop :: "'f option"
  after_json_array_pop :: "'f option"

record ('d, 'f) upk_json_stack_node =
  node_data :: 'd
  node_handlers :: "'f upk_json_handlers"

type_synonym ('d, 'f) jstack = "('d, 'f) upk_json_stack_node list"

type_synonym ('d, 'f, 's) walk_state = "('d, 'f) jstack \<times> 's"

type_synonym ('d, 'f, 's) handler_code =
  "'f \<Rightarrow> 'd \<Rightarrow> string option \<Rightarrow> upk_json_val \<Rightarrow> ('d, 'f, 's) walk_state \<Rightarrow> ('d, 'f, 's) walk_state cres"

definition upk_json_stack_pop :: "('d, 'f) jstack \<Rightarrow> ('d, 'f) jstack" where
  "upk_json_stack_pop meta = tl meta"

definition upk_json_stack_push :: "('d, 'f) upk_json_stack_node \<Rightarrow> ('d, 'f) jstack \<Rightarrow> ('d, 'f) jstack" where
  "upk_json_stack_push node meta = node # meta"

section \<open>The walk\<close>

text \<open>\<open>if(meta->head->handlers.h) meta->head->handlers.h(meta, meta->head->data, key, v)\<close>\<close>

definition call_handler ::
    "('d, 'f, 's) handler_code \<Rightarrow> ('f upk_json_handlers \<Rightarrow> 'f option) \<Rightarrow> string option \<Rightarrow> upk_json_val \<Rightarrow>
     ('d, 'f, 's) walk_state \<Rightarrow> ('d, 'f, 's) walk_state cres" where
  "call_handler run h key v st =
     (case fst st of [] \<Rightarrow> Inl Null_deref
      | n # _ \<Rightarrow> (case h (node_handlers n) of None \<Rightarrow> Inr st | Some f \<Rightarrow> run f (node_data n) key v st))"

fun json_val :: "(string \<Rightarrow> string cres) \<Rightarrow> json \<Rightarrow> upk_json_val cres" where
  "json_val esc JNull = Inr V_null"
| "json_val esc (JBool b) = Inr (V_bl b)"
| "json_val esc (JDouble d) = Inr (V_dbl d)"
| "json_val esc (JInt i) = Inr (V_i i)"
| "json_val esc (JString s) = bind_c (esc s) (\<lambda>e. Inr (V_str s e))"
| "json_val esc (JArray js) = Inr (V_obj (JArray js))"
| "json_val esc (JObject ms) = Inr (V_obj (JObject ms))"

fun handler_for :: "json \<Rightarrow> 'f upk_json_handlers \<Rightarrow> 'f option" where
  "handler_for JNull = json_null"
| "handler_for (JBool _) = json_bool"
| "handler_for (JDouble _) = json_double"
| "handler_for (JInt _) = json_int"
| "handler_for (JString _) = json_string"
| "handler_for (JArray _) = json_array"
| "handler_for (JObject _) = json_object"

definition escaped :: "json_c \<Rightarrow> string \<Rightarrow> string cres" where
  "escaped jc s = upk_json_unescape_forwardslash (to_json_string jc s)"

definition upk_json_value ::
    "json_c \<Rightarrow> ('d, 'f, 's) handler_code \<Rightarrow> string option \<Rightarrow> json \<Rightarrow> ('d, 'f, 's) walk_state \<Rightarrow>
     ('d, 'f, 's) walk_state cres" where
  "upk_json_value jc run key j st =
     (case fst st of [] \<Rightarrow> Inl Null_deref
      | n # _ \<Rightarrow>
          if handler_for j (node_handlers n) = None then Inr st
          else bind_c (json_val (escaped jc) j) (\<lambda>v. call_handler run (handler_for j) key v st))"

text \<open>\<open>json_object_object_foreachC\<close> goes through the members in their order.\<close>

fun upk_json_parse_node ::
    "json_c \<Rightarrow> ('d, 'f, 's) handler_code \<Rightarrow> string option \<Rightarrow> json \<Rightarrow> ('d, 'f, 's) walk_state \<Rightarrow>
     ('d, 'f, 's) walk_state cres"
  and upk_json_parse_obj ::
    "json_c \<Rightarrow> ('d, 'f, 's) handler_code \<Rightarrow> (string \<times> json) list \<Rightarrow> ('d, 'f, 's) walk_state \<Rightarrow>
     ('d, 'f, 's) walk_state cres"
  and upk_json_parse_array ::
    "json_c \<Rightarrow> ('d, 'f, 's) handler_code \<Rightarrow> json list \<Rightarrow> ('d, 'f, 's) walk_state \<Rightarrow>
     ('d, 'f, 's) walk_state cres" where
  "upk_json_parse_node jc run key j st =
     bind_c (upk_json_value jc run key j st) (\<lambda>st.
       case j of
         JObject ms \<Rightarrow>
           bind_c (upk_json_parse_obj jc run ms st) (\<lambda>(meta, s).
             call_handler run after_json_obj_pop key (V_obj j) (upk_json_stack_pop meta, s))
       | JArray js \<Rightarrow>
           bind_c (upk_json_parse_array jc run js st) (\<lambda>(meta, s).
             call_handler run after_json_array_pop key (V_obj j) (upk_json_stack_pop meta, s))
       | _ \<Rightarrow> Inr st)"
| "upk_json_parse_obj jc run [] st = Inr st"
| "upk_json_parse_obj jc run ((key, j) # ms) st =
     bind_c (upk_json_parse_node jc run (Some key) j st) (upk_json_parse_obj jc run ms)"
| "upk_json_parse_array jc run [] st = Inr st"
| "upk_json_parse_array jc run (j # js) st =
     bind_c (upk_json_parse_node jc run None j st) (upk_json_parse_array jc run js)"

declare upk_json_parse_node.simps [simp del]

section \<open>Invariants of a walk\<close>

text \<open>What every handler keeps of the state, the walk keeps, whatever the document and the stack are.\<close>

locale walk_invariant =
  fixes run :: "('d, 'f, 's) handler_code" and holds :: "'s \<Rightarrow> bool"
  assumes handler_keeps: "run f data key v (meta, s) = Inr (meta', s') \<Longrightarrow> holds s \<Longrightarrow> holds s'"
begin

lemma call_keeps: "call_handler run h key v w = Inr w' \<Longrightarrow> holds (snd w) \<Longrightarrow> holds (snd w')"
  by (cases w; cases w') (auto simp: call_handler_def split: list.splits option.splits dest: handler_keeps)

lemma value_keeps: "upk_json_value jc run key j w = Inr w' \<Longrightarrow> holds (snd w) \<Longrightarrow> holds (snd w')"
  by (cases w; cases w')
    (auto simp: upk_json_value_def bind_c_Inr_iff split: list.splits if_splits dest: call_keeps)

lemma members_keep:
  "upk_json_parse_obj jc run ms w = Inr w' \<Longrightarrow> holds (snd w) \<Longrightarrow>
    \<forall>m\<in>set ms. \<forall>w w'. upk_json_parse_node jc run (Some (fst m)) (snd m) w = Inr w' \<longrightarrow> holds (snd w) \<longrightarrow> holds (snd w') \<Longrightarrow>
    holds (snd w')"
proof (induction ms arbitrary: w)
  case (Cons m ms)
  from Cons.prems(1) obtain w1 where w1: "upk_json_parse_node jc run (Some (fst m)) (snd m) w = Inr w1"
    "upk_json_parse_obj jc run ms w1 = Inr w'" by (cases m) (auto simp: bind_c_Inr_iff)
  then have "holds (snd w1)" using Cons.prems(2,3) by (meson list.set_intros(1))
  then show ?case by (rule Cons.IH [OF w1(2)]) (use Cons.prems(3) in \<open>meson list.set_intros(2)\<close>)
qed simp

lemma elements_keep:
  "upk_json_parse_array jc run js w = Inr w' \<Longrightarrow> holds (snd w) \<Longrightarrow>
    \<forall>j\<in>set js. \<forall>w w'. upk_json_parse_node jc run None j w = Inr w' \<longrightarrow> holds (snd w) \<longrightarrow> holds (snd w') \<Longrightarrow>
    holds (snd w')"
proof (induction js arbitrary: w)
  case (Cons j js)
  from Cons.prems(1) obtain w1 where w1: "upk_json_parse_node jc run None j w = Inr w1"
    "upk_json_parse_array jc run js w1 = Inr w'" by (auto simp: bind_c_Inr_iff)
  then have "holds (snd w1)" using Cons.prems(2,3) by (meson list.set_intros(1))
  then show ?case by (rule Cons.IH [OF w1(2)]) (use Cons.prems(3) in \<open>meson list.set_intros(2)\<close>)
qed simp

lemma parse_keeps:
  "upk_json_parse_node jc run key j w = Inr w' \<Longrightarrow> holds (snd w) \<Longrightarrow> holds (snd w')"
proof (induction j arbitrary: key w w')
  case (JArray js)
  from JArray.prems(1) obtain w1 w2 where
    open_: "upk_json_value jc run key (JArray js) w = Inr w1"
    and body: "upk_json_parse_array jc run js w1 = Inr w2"
    and close: "call_handler run after_json_array_pop key (V_obj (JArray js))
      (upk_json_stack_pop (fst w2), snd w2) = Inr w'"
    by (auto simp: upk_json_parse_node.simps bind_c_Inr_iff)
  from JArray.prems(2) have "holds (snd w1)" by (rule value_keeps [OF open_])
  then have "holds (snd w2)" by (rule elements_keep [OF body]) (use JArray.IH in blast)
  then show ?case using call_keeps [OF close] by simp
next
  case (JObject ms)
  from JObject.prems(1) obtain w1 w2 where
    open_: "upk_json_value jc run key (JObject ms) w = Inr w1"
    and body: "upk_json_parse_obj jc run ms w1 = Inr w2"
    and close: "call_handler run after_json_obj_pop key (V_obj (JObject ms))
      (upk_json_stack_pop (fst w2), snd w2) = Inr w'"
    by (auto simp: upk_json_parse_node.simps bind_c_Inr_iff)
  have "snd m \<in> Basic_BNFs.snds m" for m :: "string \<times> json" by (cases m) (simp add: snds.simps)
  then have members: "\<forall>m\<in>set ms. \<forall>w w'. upk_json_parse_node jc run (Some (fst m)) (snd m) w = Inr w' \<longrightarrow>
      holds (snd w) \<longrightarrow> holds (snd w')"
    using JObject.IH by blast
  from JObject.prems(2) have "holds (snd w1)" by (rule value_keeps [OF open_])
  then have "holds (snd w2)" by (rule members_keep [OF body]) (rule members)
  then show ?case using call_keeps [OF close] by simp
qed (simp add: upk_json_parse_node.simps, erule (1) value_keeps)+

end

section \<open>Parsing\<close>

text \<open>The line and the column of an offset, counted as the error message does, and what is printed of
  the text there; a document that is \<open>null\<close> is a null pointer as well.\<close>

definition error_position :: "string \<Rightarrow> nat \<Rightarrow> u32 \<times> u32" where
  "error_position string offset =
     foldl (\<lambda>(nline, ncol) c.
        let (nline, ncol) = (if c = CHR 0x0A then (nline + 1, 0) else (nline, ncol)) in (nline, ncol + 1))
      (1, 0) (take offset string)"

record json_error =
  err_near :: string
  err_line :: u32
  err_column :: u32
  err_offset :: nat

definition upk_json_parse_string :: "json_c \<Rightarrow> string \<Rightarrow> json_error option \<times> json" where
  "upk_json_parse_string jc string =
     (let (jobj, success, offset) = tokener_parse jc string in
      if success then (None, jobj)
      else let (nline, ncol) = error_position string offset;
               near = takeWhile (\<lambda>c. c \<noteq> CHR 0x0A) (take 31 (drop offset string)) in
        (Some \<lparr>err_near = near, err_line = nline, err_column = ncol - 1, err_offset = offset\<rparr>, JNull))"

section \<open>The printer\<close>

record upk_json_data_output_opts =
  pad :: string
  indent :: string
  sep :: string
  suppress_null_values :: bool

text \<open>A stream is what was written to it; a string is a null pointer, or a buffer of a size and the
  string in it.\<close>

datatype upk_stream_string = Out_file string | Out_str "(nat \<times> string) option"

record upk_json_output_data =
  out_d :: upk_stream_string
  out_opts :: upk_json_data_output_opts

definition upk_json_append_string :: "(nat \<times> string) option \<Rightarrow> string \<Rightarrow> (nat \<times> string) cres" where
  "upk_json_append_string b string =
     (let (len, p) = (case b of None \<Rightarrow> (1, '''') | Some b \<Rightarrow> b);
          len = len + min UPK_MAX_STRING_LEN (length string) in
      if len < length p + length string + 1 then Inl Oob_write else Inr (len, p @ string))"

text \<open>The text is what \<open>fmt\<close> and its arguments print; the string version cuts it with \<open>vsnprintf\<close>.\<close>

definition upk_output_json_string :: "string \<Rightarrow> upk_json_output_data \<Rightarrow> upk_json_output_data cres" where
  "upk_output_json_string text d =
     (case out_d d of
        Out_file t \<Rightarrow> Inr (d\<lparr>out_d := Out_file (t @ text)\<rparr>)
      | Out_str b \<Rightarrow>
          bind_c (upk_json_append_string b (take (UPK_MAX_STRING_LEN - 2) text)) (\<lambda>b.
          Inr (d\<lparr>out_d := Out_str (Some b)\<rparr>)))"

text \<open>A format without arguments: a conversion other than \<open>%%\<close> reads an argument that is not there.\<close>

fun format_alone :: "string \<Rightarrow> string cres" where
  "format_alone [] = Inr []"
| "format_alone (c # s) =
     (if c \<noteq> CHR ''%'' then bind_c (format_alone s) (\<lambda>t. Inr (c # t))
      else case s of
        d # s' \<Rightarrow> if d = CHR ''%'' then bind_c (format_alone s') (\<lambda>t. Inr (d # t)) else Inl Oob_read
      | [] \<Rightarrow> Inl Oob_read)"

text \<open>The indentation is given as the format.\<close>

fun print_times :: "nat \<Rightarrow> upk_json_output_data \<Rightarrow> upk_json_output_data cres" where
  "print_times 0 d = Inr d"
| "print_times (Suc n) d =
     bind_c (format_alone (indent (out_opts d))) (\<lambda>text.
     bind_c (upk_output_json_string text d) (print_times n))"

definition upk_json_print_indent ::
    "('d, 'f) jstack \<Rightarrow> upk_json_output_data \<Rightarrow> upk_json_output_data cres" where
  "upk_json_print_indent meta = print_times (length meta - 1)"

definition print_key :: "string option \<Rightarrow> upk_json_output_data \<Rightarrow> upk_json_output_data cres" where
  "print_key key d =
     (case key of None \<Rightarrow> Inr d
      | Some k \<Rightarrow> upk_output_json_string
          (''\"'' @ k @ ''\"'' @ pad (out_opts d) @ '':'' @ pad (out_opts d)) d)"

text \<open>The handlers.  There is one output: the data pointer of every node points to it.\<close>

datatype out_handler =
    Out_null | Out_bool | Out_double | Out_int | Out_string | Out_array | Out_object
  | Out_obj_pop | Out_array_pop

type_synonym out_state = "(unit, out_handler, upk_json_output_data) walk_state"

definition print_scalar :: "string \<Rightarrow> string option \<Rightarrow> out_state \<Rightarrow> out_state cres" where
  "print_scalar text key = (\<lambda>(meta, d).
     bind_c (upk_json_print_indent meta d) (\<lambda>d.
     bind_c (print_key key d) (\<lambda>d.
     bind_c (upk_output_json_string (text @ '','' @ sep (out_opts d)) d) (\<lambda>d. Inr (meta, d)))))"

definition upk_json_output_null_handler :: "string option \<Rightarrow> out_state \<Rightarrow> out_state cres" where
  "upk_json_output_null_handler key st =
     (if suppress_null_values (out_opts (snd st)) then Inr st else print_scalar ''Null'' key st)"

definition upk_json_output_bool_handler :: "bool \<Rightarrow> string option \<Rightarrow> out_state \<Rightarrow> out_state cres" where
  "upk_json_output_bool_handler b = print_scalar (if b then ''true'' else ''false'')"

definition upk_json_output_double_handler :: "json_c \<Rightarrow> u64 \<Rightarrow> string option \<Rightarrow> out_state \<Rightarrow> out_state cres" where
  "upk_json_output_double_handler jc dbl = print_scalar (format_double jc dbl)"

definition upk_json_output_int_handler :: "u32 \<Rightarrow> string option \<Rightarrow> out_state \<Rightarrow> out_state cres" where
  "upk_json_output_int_handler i = print_scalar (signed_decimal i)"

definition upk_json_output_string_handler :: "string \<Rightarrow> string option \<Rightarrow> out_state \<Rightarrow> out_state cres" where
  "upk_json_output_string_handler esc_str = print_scalar esc_str"

definition print_opening :: "string \<Rightarrow> string option \<Rightarrow> out_state \<Rightarrow> out_state cres" where
  "print_opening bracket key = (\<lambda>(meta, d).
     bind_c (upk_json_print_indent meta d) (\<lambda>d.
     bind_c (case key of None \<Rightarrow> Inr d
         | Some k \<Rightarrow> if k = '''' then Inr d
             else bind_c (upk_output_json_string
                 (''\"'' @ k @ ''\"'' @ pad (out_opts d) @ '':'' @ sep (out_opts d)) d)
               (upk_json_print_indent meta)) (\<lambda>d.
     bind_c (upk_output_json_string (bracket @ sep (out_opts d)) d) (\<lambda>d.
     case meta of [] \<Rightarrow> Inl Null_deref
     | n # _ \<Rightarrow> Inr (upk_json_stack_push n meta, d)))))"

definition upk_json_output_array_handler :: "string option \<Rightarrow> out_state \<Rightarrow> out_state cres" where
  "upk_json_output_array_handler = print_opening ''[''"

definition upk_json_output_object_handler :: "string option \<Rightarrow> out_state \<Rightarrow> out_state cres" where
  "upk_json_output_object_handler = print_opening ''{''"

definition print_closing :: "string \<Rightarrow> out_state \<Rightarrow> out_state cres" where
  "print_closing bracket = (\<lambda>(meta, d).
     bind_c (upk_json_print_indent meta d) (\<lambda>d.
     bind_c (upk_output_json_string (bracket @ '','' @ sep (out_opts d)) d) (\<lambda>d. Inr (meta, d))))"

definition upk_json_output_after_json_obj_pop_handler :: "out_state \<Rightarrow> out_state cres" where
  "upk_json_output_after_json_obj_pop_handler = print_closing ''}''"

definition upk_json_output_after_json_array_pop_handler :: "out_state \<Rightarrow> out_state cres" where
  "upk_json_output_after_json_array_pop_handler = print_closing '']''"

fun run_output :: "json_c \<Rightarrow> (unit, out_handler, upk_json_output_data) handler_code" where
  "run_output jc Out_null _ key _ st = upk_json_output_null_handler key st"
| "run_output jc Out_bool _ key (V_bl b) st = upk_json_output_bool_handler b key st"
| "run_output jc Out_double _ key (V_dbl dbl) st = upk_json_output_double_handler jc dbl key st"
| "run_output jc Out_int _ key (V_i i) st = upk_json_output_int_handler i key st"
| "run_output jc Out_string _ key (V_str _ e) st = upk_json_output_string_handler e key st"
| "run_output jc Out_array _ key _ st = upk_json_output_array_handler key st"
| "run_output jc Out_object _ key _ st = upk_json_output_object_handler key st"
| "run_output jc Out_obj_pop _ key _ st = upk_json_output_after_json_obj_pop_handler st"
| "run_output jc Out_array_pop _ key _ st = upk_json_output_after_json_array_pop_handler st"
| "run_output jc _ _ _ _ _ = Inl Type_confusion"

definition output_node :: "(unit, out_handler) upk_json_stack_node" where
  "output_node = \<lparr>node_data = (), node_handlers =
     \<lparr>json_null = Some Out_null, json_bool = Some Out_bool, json_double = Some Out_double,
      json_int = Some Out_int, json_string = Some Out_string, json_array = Some Out_array,
      json_object = Some Out_object, after_json_obj_pop = Some Out_obj_pop,
      after_json_array_pop = Some Out_array_pop\<rparr>\<rparr>"

definition upk_json_obj_serializer :: "json_c \<Rightarrow> json \<Rightarrow> upk_json_output_data \<Rightarrow> upk_json_output_data cres" where
  "upk_json_obj_serializer jc obj d =
     bind_c (upk_json_parse_node jc (run_output jc) None obj (upk_json_stack_push output_node [], d))
       (\<lambda>(meta, d). Inr d)"

text \<open>A null pointer is returned when nothing was printed.\<close>

definition upk_json_obj_to_string ::
    "json_c \<Rightarrow> json \<Rightarrow> upk_json_data_output_opts \<Rightarrow> string option cres" where
  "upk_json_obj_to_string jc obj opts =
     bind_c (upk_json_obj_serializer jc obj \<lparr>out_d = Out_str None, out_opts = opts\<rparr>) (\<lambda>d.
     case out_d d of Out_str b \<Rightarrow> Inr (map_option snd b) | Out_file _ \<Rightarrow> Inl Type_confusion)"

definition upk_json_obj_to_stream ::
    "json_c \<Rightarrow> json \<Rightarrow> string \<Rightarrow> upk_json_data_output_opts \<Rightarrow> string cres" where
  "upk_json_obj_to_stream jc obj stream opts =
     bind_c (upk_json_obj_serializer jc obj \<lparr>out_d = Out_file stream, out_opts = opts\<rparr>) (\<lambda>d.
     case out_d d of Out_file t \<Rightarrow> Inr t | Out_str _ \<Rightarrow> Inl Type_confusion)"

section \<open>Slashes, out of place\<close>

fun unslash :: "string \<Rightarrow> string" where
  "unslash (c # d # s) =
     (if c = CHR 0x5C \<and> d = CHR ''/'' then d # unslash s else c # unslash (d # s))"
| "unslash [] = []"
| "unslash [c] = [c]"

definition escape_slashes :: "string \<Rightarrow> string" where
  "escape_slashes s = concat (map (\<lambda>c. if c = CHR ''/'' then [CHR 0x5C, c] else [c]) s)"

lemma escape_slashes_simps [simp]:
  "escape_slashes [] = []"
  "escape_slashes (c # s) = (if c = CHR ''/'' then [CHR 0x5C, c] else [c]) @ escape_slashes s"
  by (simp_all add: escape_slashes_def)

lemma unslash_other: "c \<noteq> CHR 0x5C \<or> s = [] \<or> hd s \<noteq> CHR ''/'' \<Longrightarrow> unslash (c # s) = c # unslash s"
  by (cases s) auto

lemma unslash_escape: "unslash (escape_slashes s) = s"
proof (induction s)
  case (Cons c s)
  have "escape_slashes s = [] \<or> hd (escape_slashes s) \<noteq> CHR ''/''"
    by (cases s) auto
  with Cons.IH show ?case by (cases "c = CHR ''/''") (simp_all add: unslash_other)
qed simp

lemma nul_escape_slashes [simp]: "NUL \<in> set (escape_slashes s) \<longleftrightarrow> NUL \<in> set s"
  by (induction s) (auto simp: NUL_def)

text \<open>One turn of the loop: what was written, what is between the two places, what is still to be read.\<close>

lemma unescape_loop_end:
  "unescape_loop (ws @ gap @ [NUL]) (length ws) (length gap) = Inr ((ws @ gap @ [NUL])[length ws := NUL])"
  by (subst unescape_loop.simps) (simp add: char_at_def nth_append)

lemma terminated: "NUL \<notin> set ws \<Longrightarrow> takeWhile (\<lambda>c. c \<noteq> NUL) ((ws @ gap @ [NUL])[length ws := NUL]) = ws"
  by (cases gap) (auto simp: takeWhile_append)

lemma unescape_loop_slash:
  "unescape_loop (ws @ gap @ CHR 0x5C # CHR ''/'' # s) (length ws) (length gap) =
   unescape_loop ((ws @ gap @ CHR 0x5C # CHR ''/'' # s)[length ws := CHR ''/'']) (Suc (length ws)) (Suc (length gap))"
  by (subst unescape_loop.simps) (simp add: char_at_def nth_append NUL_def Let_def)

lemma unescape_loop_copy:
  assumes "c \<noteq> NUL" and "c \<noteq> CHR 0x5C \<or> d \<noteq> CHR ''/''"
  shows "unescape_loop (ws @ gap @ c # d # s) (length ws) (length gap) =
    unescape_loop ((ws @ gap @ c # d # s)[length ws := c]) (Suc (length ws)) (length gap)"
  using assms by (subst unescape_loop.simps) (auto simp: char_at_def nth_append Let_def)

lemma write_first: "(ws @ gap @ c # s)[length ws := c] = (ws @ [c]) @ tl (gap @ [c]) @ s"
  by (cases gap) simp_all

lemma unescape_loop_spec:
  "NUL \<notin> set ws \<Longrightarrow> NUL \<notin> set s \<Longrightarrow> \<exists>buf. unescape_loop (ws @ gap @ s @ [NUL]) (length ws) (length gap) = Inr buf \<and>
     takeWhile (\<lambda>c. c \<noteq> NUL) buf = ws @ unslash s"
proof (induction s arbitrary: ws gap rule: unslash.induct)
  case (1 c d s)
  show ?case
  proof (cases "c = CHR 0x5C \<and> d = CHR ''/''")
    case True
    define gap' where "gap' = tl (gap @ [c, d])"
    have "(ws @ gap @ c # d # s @ [NUL])[length ws := d] = (ws @ [d]) @ gap' @ s @ [NUL]"
      unfolding gap'_def by (cases gap) simp_all
    moreover have "length gap' = Suc (length gap)" by (simp add: gap'_def)
    ultimately show ?thesis
      using 1(1) [OF True, of "ws @ [d]" gap'] 1(3,4) True unescape_loop_slash [of ws gap "s @ [NUL]"] by simp
  next
    case False
    define gap' where "gap' = tl (gap @ [c])"
    have "(ws @ gap @ c # d # s @ [NUL])[length ws := c] = (ws @ [c]) @ gap' @ d # s @ [NUL]"
      unfolding gap'_def by (rule write_first)
    moreover have "length gap' = length gap" by (simp add: gap'_def)
    moreover have "c \<noteq> NUL" "c \<noteq> CHR 0x5C \<or> d \<noteq> CHR ''/''" using 1(4) False by auto
    ultimately show ?thesis
      using 1(2) [OF False, of "ws @ [c]" gap'] 1(3,4) unescape_loop_copy [of c d ws gap "s @ [NUL]"] False
      by auto
  qed
next
  case 2
  then show ?case using unescape_loop_end [of ws gap] terminated [of ws gap] by simp
next
  case (3 c)
  define gap' where "gap' = tl (gap @ [c])"
  have "(ws @ gap @ [c, NUL])[length ws := c] = (ws @ [c]) @ gap' @ [NUL]"
    unfolding gap'_def by (rule write_first)
  moreover have "length gap' = length gap" by (simp add: gap'_def)
  moreover have "c \<noteq> NUL" "NUL \<noteq> CHR ''/''" using 3 by (auto simp: NUL_def)
  ultimately have "unescape_loop (ws @ gap @ [c] @ [NUL]) (length ws) (length gap) =
      Inr (((ws @ [c]) @ gap' @ [NUL])[length (ws @ [c]) := NUL])"
    using unescape_loop_copy [of c NUL ws gap "[]"] unescape_loop_end [of "ws @ [c]" gap'] by simp
  moreover have "takeWhile (\<lambda>c. c \<noteq> NUL) (((ws @ [c]) @ gap' @ [NUL])[length (ws @ [c]) := NUL]) = ws @ [c]"
    by (rule terminated) (use 3 \<open>c \<noteq> NUL\<close> in auto)
  ultimately show ?case by simp
qed

lemma unescape_unslash: "NUL \<notin> set s \<Longrightarrow> upk_json_unescape_forwardslash s = Inr (unslash s)"
  using unescape_loop_spec [of "[]" s "[]"] by (auto simp: upk_json_unescape_forwardslash_def)

section \<open>What is printed\<close>

text \<open>The pieces of text a document is printed in, by recursion over the document: \<open>ind\<close> is what the
  indentation prints, \<open>depth\<close> the number of containers around the value.\<close>

definition key_piece :: "upk_json_data_output_opts \<Rightarrow> string \<Rightarrow> string option \<Rightarrow> string list" where
  "key_piece opts space key =
     (case key of None \<Rightarrow> [] | Some k \<Rightarrow> [''\"'' @ k @ ''\"'' @ pad opts @ '':'' @ space])"

definition scalar_pieces ::
    "upk_json_data_output_opts \<Rightarrow> string \<Rightarrow> nat \<Rightarrow> string option \<Rightarrow> string \<Rightarrow> string list" where
  "scalar_pieces opts ind depth key text =
     replicate depth ind @ key_piece opts (pad opts) key @ [text @ '','' @ sep opts]"

definition opening_pieces ::
    "upk_json_data_output_opts \<Rightarrow> string \<Rightarrow> nat \<Rightarrow> string option \<Rightarrow> string \<Rightarrow> string list" where
  "opening_pieces opts ind depth key bracket =
     replicate depth ind @
       (if key = None \<or> key = Some '''' then [] else key_piece opts (sep opts) key @ replicate depth ind) @
       [bracket @ sep opts]"

definition closing_pieces :: "upk_json_data_output_opts \<Rightarrow> string \<Rightarrow> nat \<Rightarrow> string \<Rightarrow> string list" where
  "closing_pieces opts ind depth bracket = replicate depth ind @ [bracket @ '','' @ sep opts]"

fun pieces :: "json_c \<Rightarrow> upk_json_data_output_opts \<Rightarrow> string \<Rightarrow> nat \<Rightarrow> string option \<Rightarrow> json \<Rightarrow> string list"
  and member_pieces :: "json_c \<Rightarrow> upk_json_data_output_opts \<Rightarrow> string \<Rightarrow> nat \<Rightarrow> (string \<times> json) list \<Rightarrow> string list"
  and element_pieces :: "json_c \<Rightarrow> upk_json_data_output_opts \<Rightarrow> string \<Rightarrow> nat \<Rightarrow> json list \<Rightarrow> string list" where
  "pieces jc opts ind depth key JNull =
     (if suppress_null_values opts then [] else scalar_pieces opts ind depth key ''Null'')"
| "pieces jc opts ind depth key (JBool b) =
     scalar_pieces opts ind depth key (if b then ''true'' else ''false'')"
| "pieces jc opts ind depth key (JDouble d) = scalar_pieces opts ind depth key (format_double jc d)"
| "pieces jc opts ind depth key (JInt i) = scalar_pieces opts ind depth key (signed_decimal i)"
| "pieces jc opts ind depth key (JString s) =
     scalar_pieces opts ind depth key (unslash (to_json_string jc s))"
| "pieces jc opts ind depth key (JArray js) =
     opening_pieces opts ind depth key ''['' @ element_pieces jc opts ind (Suc depth) js @
       closing_pieces opts ind depth '']''"
| "pieces jc opts ind depth key (JObject ms) =
     opening_pieces opts ind depth key ''{'' @ member_pieces jc opts ind (Suc depth) ms @
       closing_pieces opts ind depth ''}''"
| "member_pieces jc opts ind depth [] = []"
| "member_pieces jc opts ind depth ((key, j) # ms) =
     pieces jc opts ind depth (Some key) j @ member_pieces jc opts ind depth ms"
| "element_pieces jc opts ind depth [] = []"
| "element_pieces jc opts ind depth (j # js) =
     pieces jc opts ind depth None j @ element_pieces jc opts ind depth js"

fun emit :: "string list \<Rightarrow> upk_json_output_data \<Rightarrow> upk_json_output_data cres" where
  "emit [] d = Inr d"
| "emit (t # ts) d = bind_c (upk_output_json_string t d) (emit ts)"

lemma emit_Nil [simp]: "emit [] = Inr"
  by (rule ext) simp

lemma emit_append: "emit (ts @ us) d = bind_c (emit ts d) (emit us)"
proof (induction ts arbitrary: d)
  case (Cons t ts)
  then have "emit (ts @ us) = (\<lambda>d. bind_c (emit ts d) (emit us))" by (rule ext)
  then show ?case by (simp add: bind_c_assoc)
qed simp

lemma output_opts: "upk_output_json_string t d = Inr d' \<Longrightarrow> out_opts d' = out_opts d"
  by (auto simp: upk_output_json_string_def bind_c_Inr_iff split: upk_stream_string.splits)

lemma emit_opts: "emit ts d = Inr d' \<Longrightarrow> out_opts d' = out_opts d"
  by (induction ts arbitrary: d) (auto simp: bind_c_Inr_iff dest: output_opts)

definition opts_are :: "upk_json_data_output_opts \<Rightarrow> upk_json_output_data \<Rightarrow> bool" where
  "opts_are opts d \<longleftrightarrow> out_opts d = opts"

text \<open>Continuing after pieces were printed, with the same options.\<close>

lemma bind_emit:
  assumes "opts_are opts d" and "\<And>d. opts_are opts d \<Longrightarrow> f d = bind_c (emit us d) g"
  shows "bind_c (emit ts d) f = bind_c (emit (ts @ us) d) g"
proof (cases "emit ts d")
  case (Inr d')
  then have "opts_are opts d'" using assms(1) emit_opts by (simp add: opts_are_def)
  with Inr assms(2) show ?thesis by (simp add: emit_append)
qed (simp add: emit_append)

lemma print_times_emit:
  assumes "format_alone (indent opts) = Inr ind" and "opts_are opts d"
  shows "print_times n d = emit (replicate n ind) d"
  using assms(2)
proof (induction n arbitrary: d)
  case (Suc n)
  then show ?case
    using assms(1) output_opts [of ind d]
    by (cases "upk_output_json_string ind d") (simp_all add: opts_are_def)
qed simp

lemma print_key_emit:
  "opts_are opts d \<Longrightarrow> print_key key d = emit (key_piece opts (pad opts) key) d"
  by (cases key) (simp_all add: print_key_def key_piece_def opts_are_def)

definition out_stack :: "nat \<Rightarrow> (unit, out_handler) jstack" where
  "out_stack depth = replicate (Suc depth) output_node"

lemma out_stack_simps [simp]:
  "length (out_stack depth) = Suc depth" "out_stack depth \<noteq> []" "upk_json_stack_push output_node [] = out_stack 0"
  "upk_json_stack_pop (out_stack (Suc depth)) = out_stack depth"
  by (simp_all add: out_stack_def upk_json_stack_push_def upk_json_stack_pop_def)

text \<open>The handlers print the pieces; that the context is a good one is the same everywhere.\<close>

definition prints :: "upk_json_data_output_opts \<Rightarrow> string \<Rightarrow> upk_json_output_data \<Rightarrow> bool" where
  "prints opts ind d \<longleftrightarrow> format_alone (indent opts) = Inr ind \<and> opts_are opts d"

lemma prints_bind:
  assumes "prints opts ind d" and "\<And>d. prints opts ind d \<Longrightarrow> f d = bind_c (emit us d) g"
  shows "bind_c (emit ts d) f = bind_c (emit (ts @ us) d) g"
  using assms by (intro bind_emit [where opts = opts]) (simp_all add: prints_def)

lemma print_indent_emit:
  "prints opts ind d \<Longrightarrow> upk_json_print_indent (out_stack depth) d = emit (replicate depth ind) d"
  by (auto simp: prints_def upk_json_print_indent_def intro: print_times_emit)

lemma print_scalar_emit:
  assumes "prints opts ind d"
  shows "print_scalar text key (out_stack depth, d) =
    bind_c (emit (scalar_pieces opts ind depth key text) d) (\<lambda>d. Inr (out_stack depth, d))"
  unfolding print_scalar_def scalar_pieces_def prod.case print_indent_emit [OF assms]
proof (rule prints_bind [OF assms])
  fix d assume d: "prints opts ind d"
  then have opts: "opts_are opts d" by (simp add: prints_def)
  show "bind_c (print_key key d) (\<lambda>d. bind_c (upk_output_json_string (text @ '','' @ sep (out_opts d)) d)
      (\<lambda>d. Inr (out_stack depth, d))) =
    bind_c (emit (key_piece opts (pad opts) key @ [text @ '','' @ sep opts]) d) (\<lambda>d. Inr (out_stack depth, d))"
    unfolding print_key_emit [OF opts] by (rule prints_bind [OF d]) (simp add: prints_def opts_are_def)
qed

lemma print_opening_emit:
  assumes "prints opts ind d"
  shows "print_opening bracket key (out_stack depth, d) =
    bind_c (emit (opening_pieces opts ind depth key bracket) d) (\<lambda>d. Inr (out_stack (Suc depth), d))"
  unfolding print_opening_def opening_pieces_def prod.case print_indent_emit [OF assms]
proof (rule prints_bind [OF assms])
  fix d assume d: "prints opts ind d"
  have last: "bind_c (upk_output_json_string (bracket @ sep (out_opts d)) d) (\<lambda>d.
      case out_stack depth of [] \<Rightarrow> Inl Null_deref | n # _ \<Rightarrow> Inr (upk_json_stack_push n (out_stack depth), d)) =
    bind_c (emit [bracket @ sep opts] d) (\<lambda>d. Inr (out_stack (Suc depth), d))" if "prints opts ind d" for d
    using that by (simp add: out_stack_def upk_json_stack_push_def prints_def opts_are_def)
  let ?key = "\<lambda>d. case key of None \<Rightarrow> Inr d
         | Some k \<Rightarrow> if k = '''' then Inr d
             else bind_c (upk_output_json_string
                 (''\"'' @ k @ ''\"'' @ pad (out_opts d) @ '':'' @ sep (out_opts d)) d)
               (upk_json_print_indent (out_stack depth))"
  let ?us = "if key = None \<or> key = Some '''' then [] else key_piece opts (sep opts) key @ replicate depth ind"
  have "?key d = emit ?us d"
  proof (cases "key = None \<or> key = Some ''''")
    case False
    then obtain k where k: "key = Some k" "k \<noteq> ''''" by (cases key) auto
    have "bind_c (emit (key_piece opts (sep opts) key) d) (upk_json_print_indent (out_stack depth)) =
        bind_c (emit (key_piece opts (sep opts) key @ replicate depth ind) d) Inr"
      by (rule prints_bind [OF d]) (simp add: print_indent_emit)
    with k d show ?thesis by (simp add: key_piece_def prints_def opts_are_def)
  qed auto
  then show "bind_c (?key d) (\<lambda>d. bind_c (upk_output_json_string (bracket @ sep (out_opts d)) d) (\<lambda>d.
      case out_stack depth of [] \<Rightarrow> Inl Null_deref | n # _ \<Rightarrow> Inr (upk_json_stack_push n (out_stack depth), d))) =
    bind_c (emit (?us @ [bracket @ sep opts]) d) (\<lambda>d. Inr (out_stack (Suc depth), d))"
    using prints_bind [OF d last, of ?us] by simp
qed

lemma print_closing_emit:
  assumes "prints opts ind d"
  shows "print_closing bracket (out_stack depth, d) =
    bind_c (emit (closing_pieces opts ind depth bracket) d) (\<lambda>d. Inr (out_stack depth, d))"
  unfolding print_closing_def closing_pieces_def prod.case print_indent_emit [OF assms]
  by (rule prints_bind [OF assms]) (simp add: prints_def opts_are_def)

lemma out_stack_case [simp]:
  "(case out_stack depth of [] \<Rightarrow> x | n # ns \<Rightarrow> f n ns) = f output_node (replicate depth output_node)"
  by (simp add: out_stack_def)

text \<open>json-c returns C strings.\<close>

definition c_strings :: "json_c \<Rightarrow> bool" where
  "c_strings jc \<longleftrightarrow> (\<forall>s. NUL \<notin> set (to_json_string jc s))"

lemma output_value:
  assumes "c_strings jc" and "prints opts ind d"
  shows "upk_json_value jc (run_output jc) key j (out_stack depth, d) =
    (case j of
       JArray js \<Rightarrow> bind_c (emit (opening_pieces opts ind depth key ''['') d) (\<lambda>d. Inr (out_stack (Suc depth), d))
     | JObject ms \<Rightarrow> bind_c (emit (opening_pieces opts ind depth key ''{'') d) (\<lambda>d. Inr (out_stack (Suc depth), d))
     | _ \<Rightarrow> bind_c (emit (pieces jc opts ind depth key j) d) (\<lambda>d. Inr (out_stack depth, d)))"
proof -
  have "out_opts d = opts" using assms(2) by (simp add: prints_def opts_are_def)
  moreover have "escaped jc s = Inr (unslash (to_json_string jc s))" for s
    using assms(1) by (simp add: escaped_def c_strings_def unescape_unslash)
  ultimately show ?thesis
    by (cases j) (simp_all add: upk_json_value_def call_handler_def output_node_def
        upk_json_output_null_handler_def upk_json_output_bool_handler_def
        upk_json_output_double_handler_def upk_json_output_int_handler_def
        upk_json_output_string_handler_def upk_json_output_array_handler_def
        upk_json_output_object_handler_def print_scalar_emit [OF assms(2)] print_opening_emit [OF assms(2)]
        split del: if_split split: if_split)
qed

lemma call_closing:
  assumes "prints opts ind d"
  shows "call_handler (run_output jc) after_json_obj_pop key v (out_stack depth, d) =
      bind_c (emit (closing_pieces opts ind depth ''}'') d) (\<lambda>d. Inr (out_stack depth, d))"
    and "call_handler (run_output jc) after_json_array_pop key v (out_stack depth, d) =
      bind_c (emit (closing_pieces opts ind depth '']'') d) (\<lambda>d. Inr (out_stack depth, d))"
  by (simp_all add: call_handler_def output_node_def upk_json_output_after_json_obj_pop_handler_def
      upk_json_output_after_json_array_pop_handler_def print_closing_emit [OF assms])

text \<open>A container: its opening, its content one level down, its closing.\<close>

lemma output_container:
  assumes "prints opts ind d"
    and body: "\<And>d. prints opts ind d \<Longrightarrow> body (out_stack (Suc depth), d) =
      bind_c (emit us d) (\<lambda>d. Inr (out_stack (Suc depth), d))"
    and close: "\<And>d. prints opts ind d \<Longrightarrow> close (out_stack depth, d) =
      bind_c (emit vs d) (\<lambda>d. Inr (out_stack depth, d))"
  shows "bind_c (emit ts d) (\<lambda>d. bind_c (body (out_stack (Suc depth), d))
      (\<lambda>(meta, d). close (upk_json_stack_pop meta, d))) =
    bind_c (emit (ts @ us @ vs) d) (\<lambda>d. Inr (out_stack depth, d))"
proof (rule prints_bind [OF assms(1)])
  fix d assume d: "prints opts ind d"
  have "bind_c (emit us d) (\<lambda>d. close (out_stack depth, d)) =
      bind_c (emit (us @ vs) d) (\<lambda>d. Inr (out_stack depth, d))"
    by (rule prints_bind [OF d close])
  then show "bind_c (body (out_stack (Suc depth), d)) (\<lambda>(meta, d). close (upk_json_stack_pop meta, d)) =
      bind_c (emit (us @ vs) d) (\<lambda>d. Inr (out_stack depth, d))"
    by (simp add: body [OF d] bind_c_assoc)
qed

text \<open>The walk with the printing handlers prints the pieces and leaves the stack as it was.\<close>

lemma output_walk:
  shows "c_strings jc \<Longrightarrow> prints opts ind d \<Longrightarrow>
      upk_json_parse_node jc (run_output jc) key j (out_stack depth, d) =
      bind_c (emit (pieces jc opts ind depth key j) d) (\<lambda>d. Inr (out_stack depth, d))"
    and "c_strings jc \<Longrightarrow> prints opts ind d \<Longrightarrow>
      upk_json_parse_obj jc (run_output jc) ms (out_stack depth, d) =
      bind_c (emit (member_pieces jc opts ind depth ms) d) (\<lambda>d. Inr (out_stack depth, d))"
    and "c_strings jc \<Longrightarrow> prints opts ind d \<Longrightarrow>
      upk_json_parse_array jc (run_output jc) js (out_stack depth, d) =
      bind_c (emit (element_pieces jc opts ind depth js) d) (\<lambda>d. Inr (out_stack depth, d))"
proof (induction jc opts ind depth key j and jc opts ind depth ms and jc opts ind depth js
    arbitrary: d and d and d rule: pieces_member_pieces_element_pieces.induct)
  case (6 jc opts ind depth key js)
  have "upk_json_parse_node jc (run_output jc) key (JArray js) (out_stack depth, d) =
    bind_c (emit (opening_pieces opts ind depth key ''['') d) (\<lambda>d.
      bind_c (upk_json_parse_array jc (run_output jc) js (out_stack (Suc depth), d)) (\<lambda>(meta, s).
        call_handler (run_output jc) after_json_array_pop key (V_obj (JArray js)) (upk_json_stack_pop meta, s)))"
    by (simp add: upk_json_parse_node.simps output_value [OF 6(2,3)] bind_c_assoc)
  also have "\<dots> = bind_c (emit (pieces jc opts ind depth key (JArray js)) d) (\<lambda>d. Inr (out_stack depth, d))"
    unfolding pieces.simps by (rule output_container [OF 6(3) 6(1) [OF 6(2)] call_closing(2)])
  finally show ?case .
next
  case (7 jc opts ind depth key ms)
  have "upk_json_parse_node jc (run_output jc) key (JObject ms) (out_stack depth, d) =
    bind_c (emit (opening_pieces opts ind depth key ''{'') d) (\<lambda>d.
      bind_c (upk_json_parse_obj jc (run_output jc) ms (out_stack (Suc depth), d)) (\<lambda>(meta, s).
        call_handler (run_output jc) after_json_obj_pop key (V_obj (JObject ms)) (upk_json_stack_pop meta, s)))"
    by (simp add: upk_json_parse_node.simps output_value [OF 7(2,3)] bind_c_assoc)
  also have "\<dots> = bind_c (emit (pieces jc opts ind depth key (JObject ms)) d) (\<lambda>d. Inr (out_stack depth, d))"
    unfolding pieces.simps by (rule output_container [OF 7(3) 7(1) [OF 7(2)] call_closing(1)])
  finally show ?case .
next
  case (9 jc opts ind depth key j ms)
  show ?case
    using prints_bind [OF 9(4) 9(2) [OF 9(3)]]
    by (simp add: 9(1) [OF 9(3,4)] bind_c_assoc)
next
  case (11 jc opts ind depth j js)
  show ?case
    using prints_bind [OF 11(4) 11(2) [OF 11(3)]]
    by (simp add: 11(1) [OF 11(3,4)] bind_c_assoc)
qed (simp_all add: upk_json_parse_node.simps output_value bind_c_assoc)

section \<open>The two outputs\<close>

lemma emit_file:
  "emit ts \<lparr>out_d = Out_file t, out_opts = opts\<rparr> = Inr \<lparr>out_d = Out_file (t @ concat ts), out_opts = opts\<rparr>"
  by (induction ts arbitrary: t) (simp_all add: upk_output_json_string_def)

text \<open>The buffer is always one byte longer than the string in it.\<close>

lemma append_fits:
  "length t \<le> UPK_MAX_STRING_LEN \<Longrightarrow>
     upk_json_append_string (Some (Suc (length p), p)) t = Inr (Suc (length (p @ t)), p @ t)"
  "length t \<le> UPK_MAX_STRING_LEN \<Longrightarrow> upk_json_append_string None t = Inr (Suc (length t), t)"
  by (simp_all add: upk_json_append_string_def)

definition cut :: "string list \<Rightarrow> string" where
  "cut ts = concat (map (take (UPK_MAX_STRING_LEN - 2)) ts)"

lemma cut_simps [simp]: "cut [] = ''''" "cut (t # ts) = take (UPK_MAX_STRING_LEN - 2) t @ cut ts"
  by (simp_all add: cut_def)

lemma emit_str_buffer:
  "emit ts \<lparr>out_d = Out_str (Some (Suc (length p), p)), out_opts = opts\<rparr> =
     Inr \<lparr>out_d = Out_str (Some (Suc (length (p @ cut ts)), p @ cut ts)), out_opts = opts\<rparr>"
proof (induction ts arbitrary: p)
  case (Cons t ts)
  let ?t = "take (UPK_MAX_STRING_LEN - 2) t"
  have "upk_output_json_string t \<lparr>out_d = Out_str (Some (Suc (length p), p)), out_opts = opts\<rparr> =
      Inr \<lparr>out_d = Out_str (Some (Suc (length (p @ ?t)), p @ ?t)), out_opts = opts\<rparr>"
    unfolding upk_output_json_string_def using append_fits(1) [of ?t p] by simp
  with Cons [of "p @ ?t"] show ?case by simp
qed simp

lemma emit_str:
  "emit ts \<lparr>out_d = Out_str None, out_opts = opts\<rparr> =
     Inr \<lparr>out_d = Out_str (if ts = [] then None else Some (Suc (length (cut ts)), cut ts)), out_opts = opts\<rparr>"
proof (cases ts)
  case (Cons t us)
  have "length (take (UPK_MAX_STRING_LEN - 2) t) \<le> UPK_MAX_STRING_LEN" by simp
  from append_fits(2) [OF this] show ?thesis
    using emit_str_buffer [of us "take (UPK_MAX_STRING_LEN - 2) t" opts]
    by (simp add: Cons upk_output_json_string_def)
qed simp

lemma cut_concat: "cut ts = concat ts \<longleftrightarrow> (\<forall>t\<in>set ts. length t \<le> UPK_MAX_STRING_LEN - 2)"
proof (induction ts)
  case (Cons t ts)
  show ?case
  proof (cases "length t \<le> UPK_MAX_STRING_LEN - 2")
    case False
    have "length (cut us) \<le> length (concat us)" for us by (induction us) auto
    from this [of ts] False have "length (cut (t # ts)) < length (concat (t # ts))" by simp
    then have "cut (t # ts) \<noteq> concat (t # ts)" by (metis less_irrefl)
    with False show ?thesis by simp
  qed (simp add: Cons.IH)
qed simp

lemma serializer_emit:
  assumes "c_strings jc" and "format_alone (indent opts) = Inr ind" and "out_opts d = opts"
  shows "upk_json_obj_serializer jc obj d = emit (pieces jc opts ind 0 None obj) d"
proof -
  have "prints opts ind d" using assms(2,3) by (simp add: prints_def opts_are_def)
  from output_walk(1) [OF assms(1) this, of None obj 0] show ?thesis
    by (simp add: upk_json_obj_serializer_def bind_c_assoc)
qed

section \<open>Properties\<close>

text \<open>C28: printing a document with the stack of handlers gives the text of the recursion over the document,
  for any document, whole on a stream, and with every piece cut at 2046 characters in a string; the buffer
  of the string is never overrun, and it is a null pointer exactly when nothing is printed.  The string is
  the text of the stream exactly when no piece is longer than that.\<close>

theorem printer_spec:
  assumes "c_strings jc" and "format_alone (indent opts) = Inr ind"
  shows "let ts = pieces jc opts ind 0 None obj in
    upk_json_obj_to_stream jc obj stream opts = Inr (stream @ concat ts) \<and>
    upk_json_obj_to_string jc obj opts = Inr (if ts = [] then None else Some (cut ts)) \<and>
    (cut ts = concat ts \<longleftrightarrow> (\<forall>t\<in>set ts. length t \<le> UPK_MAX_STRING_LEN - 2))"
  using assms
  by (simp add: upk_json_obj_to_stream_def upk_json_obj_to_string_def serializer_emit emit_file emit_str
      cut_concat Let_def)

text \<open>Json-c puts a backslash before every slash of a string; the code takes exactly these out again,
  in place and within the buffer, also when the string has backslashes of its own.\<close>

theorem slashes_restored:
  assumes "to_json_string jc s = escape_slashes text" and "NUL \<notin> set text"
  shows "escaped jc s = Inr text"
  using assms by (simp add: escaped_def unescape_unslash unslash_escape)

text \<open>A json-c that quotes a string and escapes its slashes, and a document.\<close>

definition sample_json_c :: json_c where
  "sample_json_c =
     \<lparr>to_json_string = (\<lambda>s. escape_slashes (''\"'' @ filter (\<lambda>c. c \<noteq> NUL) s @ ''\"'')),
      format_double = (\<lambda>_. ''0.500000''), object_add = (\<lambda>ms k v. ms @ [(k, v)]),
      tokener_parse = (\<lambda>_. (JNull, False, 0))\<rparr>"

definition sample_opts :: upk_json_data_output_opts where
  "sample_opts = \<lparr>pad = '' '', indent = ''    '', sep = [CHR 0x0A], suppress_null_values = True\<rparr>"

definition sample_document :: json where
  "sample_document = JObject [(''web::httpd'', JObject [(''KillTimeout'', JInt 60), (''UUID'', JNull),
     (''Provides'', JArray [JString ''http''])])]"

lemma sample_json_c_strings [simp]: "c_strings sample_json_c"
proof -
  have "NUL \<noteq> CHR ''\"''" by (simp add: NUL_def)
  then show ?thesis by (simp add: c_strings_def sample_json_c_def)
qed

text \<open>The text printed for the sample: every value is followed by a comma, the last one as well.\<close>

lemma printer_spec_witness:
  "upk_json_obj_to_string sample_json_c sample_document sample_opts =
     Inr (Some (concat [''{'', [CHR 0x0A],
       ''    \"web::httpd\" :'', [CHR 0x0A], ''    {'', [CHR 0x0A],
       ''        \"KillTimeout\" : 60,'', [CHR 0x0A],
       ''        \"Provides\" :'', [CHR 0x0A], ''        ['', [CHR 0x0A],
       ''            \"http\",'', [CHR 0x0A], ''        ],'', [CHR 0x0A],
       ''    },'', [CHR 0x0A], ''},'', [CHR 0x0A]]))"
proof -
  have "format_alone (indent sample_opts) = Inr ''    ''" by (simp add: sample_opts_def)
  from printer_spec [OF sample_json_c_strings this, of sample_document "''x''"]
  show ?thesis
    by (simp add: Let_def sample_document_def sample_opts_def sample_json_c_def scalar_pieces_def
        opening_pieces_def closing_pieces_def key_piece_def numeral_2_eq_2 numeral_3_eq_3 NUL_def
        UPK_MAX_STRING_LEN_def signed_decimal_def decimal.simps hex_digit_def)
qed

lemma slashes_restored_witness: "escaped sample_json_c ''/bin'' = Inr ''\"/bin\"''"
proof -
  have "to_json_string sample_json_c ''/bin'' = escape_slashes ''\"/bin\"''"
    by (simp add: sample_json_c_def NUL_def)
  moreover have "NUL \<notin> set ''\"/bin\"''" by (simp add: NUL_def)
  ultimately show ?thesis by (rule slashes_restored)
qed

end

