(* ===== verification/Upk_Config_Json.thy ===== *)
theory Upk_Config_Json
  imports Upk_Config Upk_Json
begin

text \<open>
  The part of \<open>libupkeeper/upkeeper/upk_config.c\<close> that reads configurations and descriptions of services
  from JSON, with handlers on the walk of \<open>upk_json.c\<close>, that makes JSON of descriptions, and that loads
  the configuration of the controller and the files of its services.

  A data pointer of a handler is the structure it points to: the configuration, one of its descriptions,
  or a list of a description.  The user database, the conversion of an \<open>int\<close> to a \<open>double\<close> and json-c are
  parameters.
\<close>

section \<open>State of a load\<close>

record conf_env =
  json_lib :: json_c
  getpwnam :: "string \<Rightarrow> (u32 \<times> u32) option"
  double_of_int :: "u32 \<Rightarrow> u64"

text \<open>The configuration being filled, the strings, and the keys reported as invalid.\<close>

record conf_state =
  conf :: upk_controller_config
  conf_heap :: cheap
  alerts :: "string option list"

datatype svc_ref = Svc_defaults | Svc_entry nat
datatype id_list = Ids_provides | Ids_prerequisites
datatype conf_data = D_config | D_service svc_ref | D_ids svc_ref id_list | D_actions svc_ref

definition get_svc :: "svc_ref \<Rightarrow> conf_state \<Rightarrow> upk_svc_desc cres" where
  "get_svc r st =
     (case r of Svc_defaults \<Rightarrow> Inr (ServiceDefaults (conf st))
      | Svc_entry n \<Rightarrow> (case svclist (conf st) of None \<Rightarrow> Inl Null_deref
          | Some ss \<Rightarrow> if n < length ss then Inr (ss ! n) else Inl Use_after_free))"

definition put_svc :: "svc_ref \<Rightarrow> upk_svc_desc \<Rightarrow> conf_state \<Rightarrow> conf_state" where
  "put_svc r d st =
     (case r of Svc_defaults \<Rightarrow> st\<lparr>conf := (conf st)\<lparr>ServiceDefaults := d\<rparr>\<rparr>
      | Svc_entry n \<Rightarrow> st\<lparr>conf := (conf st)\<lparr>svclist := map_option (\<lambda>ss. ss[n := d]) (svclist (conf st))\<rparr>\<rparr>)"

definition update_svc ::
    "svc_ref \<Rightarrow> (upk_svc_desc \<Rightarrow> cheap \<Rightarrow> (upk_svc_desc \<times> cheap) cres) \<Rightarrow> conf_state \<Rightarrow> conf_state cres" where
  "update_svc r f st =
     bind_c (get_svc r st) (\<lambda>d. bind_c (f d (conf_heap st)) (\<lambda>(d, h).
     Inr ((put_svc r d st)\<lparr>conf_heap := h\<rparr>)))"

definition upk_alert :: "string option \<Rightarrow> conf_state \<Rightarrow> conf_state" where
  "upk_alert key st = st\<lparr>alerts := alerts st @ [key]\<rparr>"

section \<open>Keys\<close>

text \<open>\<open>strcasecmp(a, b) == 0\<close>.\<close>

fun same_word :: "string \<Rightarrow> string \<Rightarrow> bool" where
  "same_word [] [] = True"
| "same_word (a # as) (b # bs) = (if to_lower a = to_lower b then same_word as bs else False)"
| "same_word _ _ = False"

text \<open>The code compares the key with one name after the other; a null key is dereferenced.\<close>

fun lookup_key :: "string \<Rightarrow> (string \<times> 'a) list \<Rightarrow> 'a option" where
  "lookup_key key [] = None"
| "lookup_key key ((name, x) # xs) = (if same_word key name then Some x else lookup_key key xs)"

definition with_key :: "string option \<Rightarrow> (string \<Rightarrow> 'a cres) \<Rightarrow> 'a cres" where
  "with_key key f = (case key of None \<Rightarrow> Inl Null_deref | Some k \<Rightarrow> f k)"

section \<open>Handlers of a description\<close>

definition svc_bool_fields :: "(string \<times> (u8 \<Rightarrow> upk_svc_desc \<Rightarrow> upk_svc_desc)) list" where
  "svc_bool_fields =
     [(''RandomizeRateLimit'', \<lambda>b d. d\<lparr>RandomizeRateLimit := b\<rparr>),
      (''UnconfigureOnFileRemoval'', \<lambda>b d. d\<lparr>UnconfigureOnFileRemoval := b\<rparr>),
      (''PreferBuddyStateForStopped'', \<lambda>b d. d\<lparr>PreferBuddyStateForStopped := b\<rparr>),
      (''PreferBuddyStateForRunning'', \<lambda>b d. d\<lparr>PreferBuddyStateForRunning := b\<rparr>),
      (''UnconfigureOnFileRemoval'', \<lambda>b d. d\<lparr>UnconfigureOnFileRemoval := b\<rparr>)]"

definition upk_svcconf_bool_handler :: "svc_ref \<Rightarrow> string option \<Rightarrow> bool \<Rightarrow> conf_state \<Rightarrow> conf_state cres" where
  "upk_svcconf_bool_handler r key bl st = with_key key (\<lambda>k.
     case lookup_key k svc_bool_fields of
       Some store \<Rightarrow> update_svc r (\<lambda>d h. Inr (store (if bl then 1 else 0) d, h)) st
     | None \<Rightarrow> Inr (upk_alert key st))"

text \<open>The size of the ring is a \<open>size_t\<close>.\<close>

definition svc_int_fields :: "(string \<times> (u32 \<Rightarrow> upk_svc_desc \<Rightarrow> upk_svc_desc)) list" where
  "svc_int_fields =
     [(''StartPriority'', \<lambda>i d. d\<lparr>StartPriority := i\<rparr>),
      (''KillTimeout'', \<lambda>i d. d\<lparr>KillTimeout := i\<rparr>),
      (''MaxConsecutiveFailures'', \<lambda>i d. d\<lparr>MaxConsecutiveFailures := i\<rparr>),
      (''UserMaxRestarts'', \<lambda>i d. d\<lparr>UserMaxRestarts := i\<rparr>),
      (''UserRestartWindow'', \<lambda>i d. d\<lparr>UserRestartWindow := i\<rparr>),
      (''UserRateLimit'', \<lambda>i d. d\<lparr>UserRateLimit := i\<rparr>),
      (''SetUID'', \<lambda>i d. d\<lparr>SetUID := i\<rparr>),
      (''SetGID'', \<lambda>i d. d\<lparr>SetGID := i\<rparr>),
      (''RingbufferSize'', \<lambda>i d. d\<lparr>RingbufferSize := scast i\<rparr>),
      (''ReconnectRetries'', \<lambda>i d. d\<lparr>ReconnectRetries := i\<rparr>)]"

definition upk_svcconf_int_handler :: "svc_ref \<Rightarrow> string option \<Rightarrow> u32 \<Rightarrow> conf_state \<Rightarrow> conf_state cres" where
  "upk_svcconf_int_handler r key i st = with_key key (\<lambda>k.
     case lookup_key k svc_int_fields of
       Some store \<Rightarrow> update_svc r (\<lambda>d h. Inr (store i d, h)) st
     | None \<Rightarrow> Inr (upk_alert key st))"

text \<open>The strings that are arrays, those that are copied to the heap, and the others.  The copy of a long
  description has room for at most 16384 characters; a string it replaces is not freed.\<close>

definition svc_array_fields :: "(string \<times> nat \<times> (string \<Rightarrow> upk_svc_desc \<Rightarrow> upk_svc_desc)) list" where
  "svc_array_fields =
     [(''Package'', UPK_MAX_STRING_LEN, \<lambda>s d. d\<lparr>Package := s\<rparr>),
      (''Name'', UPK_MAX_STRING_LEN, \<lambda>s d. d\<lparr>Name := s\<rparr>),
      (''ShortDescription'', UPK_MAX_STRING_LEN, \<lambda>s d. d\<lparr>ShortDescription := s\<rparr>),
      (''ExecStart'', UPK_MAX_PATH_LEN, \<lambda>s d. d\<lparr>ExecStart := s\<rparr>),
      (''ExecStop'', UPK_MAX_PATH_LEN, \<lambda>s d. d\<lparr>ExecStop := s\<rparr>),
      (''ExecReload'', UPK_MAX_PATH_LEN, \<lambda>s d. d\<lparr>ExecReload := s\<rparr>),
      (''RedirectStdout'', UPK_MAX_PATH_LEN, \<lambda>s d. d\<lparr>RedirectStdout := s\<rparr>),
      (''RedirectStderr'', UPK_MAX_PATH_LEN, \<lambda>s d. d\<lparr>RedirectStderr := s\<rparr>)]"

definition svc_script_fields :: "(string \<times> (cptr \<Rightarrow> upk_svc_desc \<Rightarrow> upk_svc_desc)) list" where
  "svc_script_fields =
     [(''StartScript'', \<lambda>p d. d\<lparr>StartScript := p\<rparr>),
      (''StopScript'', \<lambda>p d. d\<lparr>StopScript := p\<rparr>),
      (''ReloadScript'', \<lambda>p d. d\<lparr>ReloadScript := p\<rparr>),
      (''PipeStdoutScript'', \<lambda>p d. d\<lparr>PipeStdoutScript := p\<rparr>),
      (''PipeStderrScript'', \<lambda>p d. d\<lparr>PipeStderrScript := p\<rparr>)]"

definition set_script ::
    "(cptr \<Rightarrow> upk_svc_desc \<Rightarrow> upk_svc_desc) \<Rightarrow> string \<Rightarrow> upk_svc_desc \<Rightarrow> cheap \<Rightarrow> (upk_svc_desc \<times> cheap) cres" where
  "set_script store s d h = (let (p, h) = cstr_new s h in Inr (store p d, h))"

definition set_long_description :: "string \<Rightarrow> upk_svc_desc \<Rightarrow> cheap \<Rightarrow> (upk_svc_desc \<times> cheap) cres" where
  "set_long_description s d h =
     (if 16384 < length s then Inl Oob_write else set_script (\<lambda>p d. d\<lparr>LongDescription := p\<rparr>) s d h)"

definition initial_state :: "string \<Rightarrow> upk_state" where
  "initial_state s =
     (if same_word s ''running'' \<or> same_word s ''up'' \<or> same_word s ''start'' \<or> same_word s ''run''
      then UPK_STATE_RUNNING else UPK_STATE_SHUTDOWN)"

definition upk_svcconf_string_handler ::
    "conf_env \<Rightarrow> svc_ref \<Rightarrow> string option \<Rightarrow> string \<Rightarrow> conf_state \<Rightarrow> conf_state cres" where
  "upk_svcconf_string_handler env r key s st = with_key key (\<lambda>k.
     case lookup_key k svc_array_fields of
       Some (sz, store) \<Rightarrow> update_svc r (\<lambda>d h. Inr (store (take (sz - 1) s) d, h)) st
     | None \<Rightarrow>
         if same_word k ''UUID'' then
           update_svc r (\<lambda>d h. Inr (d\<lparr>UUID := upk_string_to_uuid (UUID d) s\<rparr>, h)) st
         else if same_word k ''LongDescription'' then update_svc r (set_long_description s) st
         else case lookup_key k svc_script_fields of
           Some store \<Rightarrow> update_svc r (set_script store s) st
         | None \<Rightarrow>
             if same_word k ''InitialState'' then
               update_svc r (\<lambda>d h. Inr (d\<lparr>InitialState := initial_state s\<rparr>, h)) st
             else if same_word k ''SetUID'' then
               (case getpwnam env s of None \<Rightarrow> Inr st
                | Some (uid, gid) \<Rightarrow> update_svc r (\<lambda>d h. Inr (d\<lparr>SetUID := uid\<rparr>, h)) st)
             else if same_word k ''SetGID'' then
               (case getpwnam env s of None \<Rightarrow> Inr st
                | Some (uid, gid) \<Rightarrow> update_svc r (\<lambda>d h. Inr (d\<lparr>SetGID := gid\<rparr>, h)) st)
             else Inr (upk_alert key st))"

section \<open>Lists of a description\<close>

definition map_ids :: "id_list \<Rightarrow> (upk_svcid list option \<Rightarrow> upk_svcid list option) \<Rightarrow> upk_svc_desc \<Rightarrow> upk_svc_desc" where
  "map_ids l f d =
     (case l of Ids_provides \<Rightarrow> d\<lparr>Provides := f (Provides d)\<rparr>
      | Ids_prerequisites \<Rightarrow> d\<lparr>Prerequisites := f (Prerequisites d)\<rparr>)"

definition ids_of :: "id_list \<Rightarrow> upk_svc_desc \<Rightarrow> upk_svcid list option" where
  "ids_of l d = (case l of Ids_provides \<Rightarrow> Provides d | Ids_prerequisites \<Rightarrow> Prerequisites d)"

text \<open>What is before the first colon is the package, what is behind it the name.\<close>

definition read_svcid :: "string \<Rightarrow> upk_svcid" where
  "read_svcid s =
     (let pkg = takeWhile (\<lambda>c. c \<noteq> CHR '':'') s in
      if length pkg < length s then
        if length pkg < UPK_MAX_STRING_LEN then
          \<lparr>svcid_name = take (UPK_MAX_STRING_LEN - 1) (drop (length pkg + 1) s), svcid_pkg = pkg\<rparr>
        else \<lparr>svcid_name = '''', svcid_pkg = ''''\<rparr>
      else if same_word (take 5 s) ''uuid#'' then
        \<lparr>svcid_name = '''', svcid_pkg = take (UPK_MAX_STRING_LEN - 1) (drop 5 s)\<rparr>
      else \<lparr>svcid_name = take (UPK_MAX_STRING_LEN - 1) s, svcid_pkg = ''''\<rparr>)"

definition upk_svcconf_svcid_array_appender ::
    "svc_ref \<Rightarrow> id_list \<Rightarrow> string \<Rightarrow> conf_state \<Rightarrow> conf_state cres" where
  "upk_svcconf_svcid_array_appender r l s st =
     bind_c (get_svc r st) (\<lambda>d. case ids_of l d of
       None \<Rightarrow> Inl Null_deref
     | Some ids \<Rightarrow> update_svc r (\<lambda>d h. Inr (map_ids l (\<lambda>_. Some (ids @ [read_svcid s])) d, h)) st)"

definition upk_svcconf_customaction_array_appender ::
    "svc_ref \<Rightarrow> string option \<Rightarrow> string \<Rightarrow> conf_state \<Rightarrow> conf_state cres" where
  "upk_svcconf_customaction_array_appender r key s st = with_key key (\<lambda>k.
     bind_c (get_svc r st) (\<lambda>d. case CustomActions d of
       None \<Rightarrow> Inl Null_deref
     | Some as \<Rightarrow> update_svc r (set_script (\<lambda>p d.
           d\<lparr>CustomActions := Some (as @ [\<lparr>act_name = take (UPK_MAX_STRING_LEN - 1) k, act_script = p\<rparr>])\<rparr>) s) st))"

section \<open>Sets of handlers\<close>

datatype conf_handler =
    H_error | H_svcid_appender | H_customaction_appender
  | H_svc_bool | H_svc_int | H_svc_string | H_svc_array | H_svc_nested_object
  | H_ctrl_object | H_ctrl_string | H_ctrl_int | H_ctrl_double | H_ctrl_toplvl
  | H_svclist_object | H_svc_toplvl

type_synonym conf_walk = "(conf_data, conf_handler, conf_state) walk_state"

definition only_strings :: "conf_handler \<Rightarrow> conf_handler upk_json_handlers" where
  "only_strings f =
     \<lparr>json_null = None, json_bool = Some H_error, json_double = Some H_error, json_int = Some H_error,
      json_string = Some f, json_array = Some H_error, json_object = Some H_error,
      after_json_obj_pop = None, after_json_array_pop = None\<rparr>"

definition upk_svcconf_setup_array_handlers :: "conf_handler upk_json_handlers" where
  "upk_svcconf_setup_array_handlers = only_strings H_svcid_appender"

definition upk_svcconf_setup_object_handlers :: "conf_handler upk_json_handlers" where
  "upk_svcconf_setup_object_handlers = only_strings H_customaction_appender"

definition upk_svcconf_setup_handlers :: "conf_handler upk_json_handlers" where
  "upk_svcconf_setup_handlers =
     \<lparr>json_null = None, json_bool = Some H_svc_bool, json_double = Some H_error,
      json_int = Some H_svc_int, json_string = Some H_svc_string, json_array = Some H_svc_array,
      json_object = Some H_svc_nested_object, after_json_obj_pop = None, after_json_array_pop = None\<rparr>"

definition only_objects :: "conf_handler \<Rightarrow> conf_handler upk_json_handlers" where
  "only_objects f =
     \<lparr>json_null = Some H_error, json_bool = Some H_error, json_double = Some H_error,
      json_int = Some H_error, json_string = Some H_error, json_array = Some H_error,
      json_object = Some f, after_json_obj_pop = None, after_json_array_pop = None\<rparr>"

definition ctrl_handlers :: "conf_handler upk_json_handlers" where
  "ctrl_handlers =
     (only_objects H_ctrl_object)\<lparr>json_double := Some H_ctrl_double, json_int := Some H_ctrl_int,
       json_string := Some H_ctrl_string\<rparr>"

definition conf_node ::
    "conf_data \<Rightarrow> conf_handler upk_json_handlers \<Rightarrow> (conf_data, conf_handler) upk_json_stack_node" where
  "conf_node data hs = \<lparr>node_data = data, node_handlers = hs\<rparr>"

text \<open>A list or an object under a name that is not known pushes nothing.\<close>

definition push_ids :: "svc_ref \<Rightarrow> id_list \<Rightarrow> conf_walk \<Rightarrow> conf_walk cres" where
  "push_ids r l = (\<lambda>(meta, st).
     bind_c (update_svc r (\<lambda>d h. Inr (map_ids l (\<lambda>ids. if ids = None then Some [] else ids) d, h)) st) (\<lambda>st.
     Inr (upk_json_stack_push (conf_node (D_ids r l) upk_svcconf_setup_array_handlers) meta, st)))"

definition upk_svcconf_array_handler :: "svc_ref \<Rightarrow> string option \<Rightarrow> conf_walk \<Rightarrow> conf_walk cres" where
  "upk_svcconf_array_handler r key w = with_key key (\<lambda>k.
     if same_word k ''Provides'' then push_ids r Ids_provides w
     else if same_word k ''Prerequisites'' then push_ids r Ids_prerequisites w
     else Inr w)"

definition upk_svcconf_nested_object_handler :: "svc_ref \<Rightarrow> string option \<Rightarrow> conf_walk \<Rightarrow> conf_walk cres" where
  "upk_svcconf_nested_object_handler r key = (\<lambda>(meta, st). with_key key (\<lambda>k.
     if same_word k ''CustomActions'' then
       bind_c (update_svc r (\<lambda>d h.
         Inr (if CustomActions d = None then d\<lparr>CustomActions := Some []\<rparr> else d, h)) st) (\<lambda>st.
       Inr (upk_json_stack_push (conf_node (D_actions r) upk_svcconf_setup_object_handlers) meta, st))
     else Inr (meta, st)))"

section \<open>Handlers of the configuration\<close>

definition upk_ctrlconf_object_handler :: "string option \<Rightarrow> conf_walk \<Rightarrow> conf_walk cres" where
  "upk_ctrlconf_object_handler key = (\<lambda>(meta, st). with_key key (\<lambda>k.
     if same_word k ''ServiceDefaults'' then
       bind_c (update_svc Svc_defaults (\<lambda>d h. Inr (snd (upk_parse_svc_id k d), h)) st) (\<lambda>st.
       Inr (upk_json_stack_push (conf_node (D_service Svc_defaults) upk_svcconf_setup_handlers) meta, st))
     else Inr (meta, st)))"

definition ctrl_string_fields :: "(string \<times> (string \<Rightarrow> upk_controller_config \<Rightarrow> upk_controller_config)) list" where
  "ctrl_string_fields =
     [(''StateDir'', \<lambda>s c. c\<lparr>StateDir := s\<rparr>), (''SvcConfigPath'', \<lambda>s c. c\<lparr>SvcConfigPath := s\<rparr>),
      (''SvcRunPath'', \<lambda>s c. c\<lparr>SvcRunPath := s\<rparr>), (''UpkBuddyPath'', \<lambda>s c. c\<lparr>UpkBuddyPath := s\<rparr>)]"

definition upk_ctrlconf_string_handler :: "string option \<Rightarrow> string \<Rightarrow> conf_state \<Rightarrow> conf_state cres" where
  "upk_ctrlconf_string_handler key s st = with_key key (\<lambda>k.
     case lookup_key k ctrl_string_fields of
       Some store \<Rightarrow> Inr (st\<lparr>conf := store (take (UPK_MAX_STRING_LEN - 1) s) (conf st)\<rparr>)
     | None \<Rightarrow> Inl Exit_failure)"

definition upk_ctrlconf_int_handler :: "conf_env \<Rightarrow> string option \<Rightarrow> u32 \<Rightarrow> conf_state \<Rightarrow> conf_state cres" where
  "upk_ctrlconf_int_handler env key i st = with_key key (\<lambda>k.
     if same_word k ''BuddyVerbosity'' then Inr (st\<lparr>conf := (conf st)\<lparr>BuddyVerbosity := i\<rparr>\<rparr>)
     else if same_word k ''BuddyPollingInterval'' then
       Inr (st\<lparr>conf := (conf st)\<lparr>BuddyPollingInterval := double_of_int env i\<rparr>\<rparr>)
     else Inl Exit_failure)"

definition upk_ctrlconf_double_handler :: "string option \<Rightarrow> u64 \<Rightarrow> conf_state \<Rightarrow> conf_state cres" where
  "upk_ctrlconf_double_handler key dbl st = with_key key (\<lambda>k.
     if same_word k ''BuddyPollingInterval'' then Inr (st\<lparr>conf := (conf st)\<lparr>BuddyPollingInterval := dbl\<rparr>\<rparr>)
     else Inl Exit_failure)"

definition upk_ctrlconf_toplvl_obj :: "conf_walk \<Rightarrow> conf_walk cres" where
  "upk_ctrlconf_toplvl_obj = (\<lambda>(meta, st).
     Inr (upk_json_stack_push (conf_node D_config ctrl_handlers) meta, st))"

text \<open>A service is cleared and named by its key.\<close>

definition upk_svcconf_object_handler :: "string option \<Rightarrow> conf_walk \<Rightarrow> conf_walk cres" where
  "upk_svcconf_object_handler key = (\<lambda>(meta, st). with_key key (\<lambda>k.
     let ss = (case svclist (conf st) of None \<Rightarrow> [] | Some ss \<Rightarrow> ss);
         d = snd (upk_parse_svc_id k upk_svc_desc_clear);
         st = st\<lparr>conf := (conf st)\<lparr>svclist := Some (ss @ [d])\<rparr>\<rparr> in
     Inr (upk_json_stack_push (conf_node (D_service (Svc_entry (length ss))) upk_svcconf_setup_handlers) meta, st)))"

definition upk_svcconf_toplvl_obj :: "conf_walk \<Rightarrow> conf_walk cres" where
  "upk_svcconf_toplvl_obj = (\<lambda>(meta, st).
     Inr (upk_json_stack_push (conf_node D_config (only_objects H_svclist_object)) meta, st))"

section \<open>Packing\<close>

definition keep_stack :: "(conf_state \<Rightarrow> conf_state cres) \<Rightarrow> conf_walk \<Rightarrow> conf_walk cres" where
  "keep_stack f = (\<lambda>(meta, st). bind_c (f st) (\<lambda>st. Inr (meta, st)))"

text \<open>The casts of the data pointer and the members of the union that the handlers use.\<close>

definition as_config :: "conf_data \<Rightarrow> 'a cres \<Rightarrow> 'a cres" where
  "as_config data x = (case data of D_config \<Rightarrow> x | _ \<Rightarrow> Inl Type_confusion)"

definition as_service :: "conf_data \<Rightarrow> (svc_ref \<Rightarrow> 'a cres) \<Rightarrow> 'a cres" where
  "as_service data f = (case data of D_service r \<Rightarrow> f r | _ \<Rightarrow> Inl Type_confusion)"

definition as_ids :: "conf_data \<Rightarrow> (svc_ref \<Rightarrow> id_list \<Rightarrow> 'a cres) \<Rightarrow> 'a cres" where
  "as_ids data f = (case data of D_ids r l \<Rightarrow> f r l | _ \<Rightarrow> Inl Type_confusion)"

definition as_actions :: "conf_data \<Rightarrow> (svc_ref \<Rightarrow> 'a cres) \<Rightarrow> 'a cres" where
  "as_actions data f = (case data of D_actions r \<Rightarrow> f r | _ \<Rightarrow> Inl Type_confusion)"

definition val_str :: "upk_json_val \<Rightarrow> (string \<Rightarrow> 'a cres) \<Rightarrow> 'a cres" where
  "val_str v f = (case v of V_str s _ \<Rightarrow> f s | _ \<Rightarrow> Inl Type_confusion)"

definition val_bl :: "upk_json_val \<Rightarrow> (bool \<Rightarrow> 'a cres) \<Rightarrow> 'a cres" where
  "val_bl v f = (case v of V_bl b \<Rightarrow> f b | _ \<Rightarrow> Inl Type_confusion)"

definition val_i :: "upk_json_val \<Rightarrow> (u32 \<Rightarrow> 'a cres) \<Rightarrow> 'a cres" where
  "val_i v f = (case v of V_i i \<Rightarrow> f i | _ \<Rightarrow> Inl Type_confusion)"

definition val_dbl :: "upk_json_val \<Rightarrow> (u64 \<Rightarrow> 'a cres) \<Rightarrow> 'a cres" where
  "val_dbl v f = (case v of V_dbl x \<Rightarrow> f x | _ \<Rightarrow> Inl Type_confusion)"

lemmas casts = as_config_def as_service_def as_ids_def as_actions_def val_str_def val_bl_def val_i_def
  val_dbl_def

fun run_conf :: "conf_env \<Rightarrow> (conf_data, conf_handler, conf_state) handler_code" where
  "run_conf env H_error data key v w = keep_stack (\<lambda>st. Inr (upk_alert key st)) w"
| "run_conf env H_svcid_appender data key v w = as_ids data (\<lambda>r l. val_str v (\<lambda>s.
     keep_stack (upk_svcconf_svcid_array_appender r l s) w))"
| "run_conf env H_customaction_appender data key v w = as_actions data (\<lambda>r. val_str v (\<lambda>s.
     keep_stack (upk_svcconf_customaction_array_appender r key s) w))"
| "run_conf env H_svc_bool data key v w = as_service data (\<lambda>r. val_bl v (\<lambda>b.
     keep_stack (upk_svcconf_bool_handler r key b) w))"
| "run_conf env H_svc_int data key v w = as_service data (\<lambda>r. val_i v (\<lambda>i.
     keep_stack (upk_svcconf_int_handler r key i) w))"
| "run_conf env H_svc_string data key v w = as_service data (\<lambda>r. val_str v (\<lambda>s.
     keep_stack (upk_svcconf_string_handler env r key s) w))"
| "run_conf env H_svc_array data key v w = as_service data (\<lambda>r. upk_svcconf_array_handler r key w)"
| "run_conf env H_svc_nested_object data key v w =
     as_service data (\<lambda>r. upk_svcconf_nested_object_handler r key w)"
| "run_conf env H_ctrl_object data key v w = as_config data (upk_ctrlconf_object_handler key w)"
| "run_conf env H_ctrl_string data key v w = as_config data (val_str v (\<lambda>s.
     keep_stack (upk_ctrlconf_string_handler key s) w))"
| "run_conf env H_ctrl_int data key v w = as_config data (val_i v (\<lambda>i.
     keep_stack (upk_ctrlconf_int_handler env key i) w))"
| "run_conf env H_ctrl_double data key v w = as_config data (val_dbl v (\<lambda>x.
     keep_stack (upk_ctrlconf_double_handler key x) w))"
| "run_conf env H_ctrl_toplvl data key v w = as_config data (upk_ctrlconf_toplvl_obj w)"
| "run_conf env H_svclist_object data key v w = as_config data (upk_svcconf_object_handler key w)"
| "run_conf env H_svc_toplvl data key v w = as_config data (upk_svcconf_toplvl_obj w)"

text \<open>A document that does not parse, or is \<open>null\<close>, is a null pointer.\<close>

definition conf_pack :: "conf_handler \<Rightarrow> conf_env \<Rightarrow> string \<Rightarrow> conf_state \<Rightarrow> conf_state cres" where
  "conf_pack toplvl env text st =
     (case snd (upk_json_parse_string (json_lib env) text) of
        JNull \<Rightarrow> Inr st
      | obj \<Rightarrow> bind_c (upk_json_parse_node (json_lib env) (run_conf env) None obj
            (upk_json_stack_push (conf_node D_config (only_objects toplvl)) [], st)) (\<lambda>(meta, st). Inr st))"

definition upk_ctrlconf_pack :: "conf_env \<Rightarrow> string \<Rightarrow> conf_state \<Rightarrow> conf_state cres" where
  "upk_ctrlconf_pack = conf_pack H_ctrl_toplvl"

definition upk_svcconf_pack :: "conf_env \<Rightarrow> string \<Rightarrow> conf_state \<Rightarrow> conf_state cres" where
  "upk_svcconf_pack = conf_pack H_svc_toplvl"

section \<open>Making JSON of descriptions\<close>

text \<open>What \<open>upk_json_serialize_or_null\<close> is given: a string or a null pointer, an array, an \<open>int32_t\<close>, an
  \<open>int8_t\<close>, or the members of an object.\<close>

datatype serial_arg =
    Arg_string "string option" | Arg_array "json list" | Arg_int u32 | Arg_boolean u8
  | Arg_object "(string \<times> json) list"

fun upk_json_serialize_or_null :: "serial_arg \<Rightarrow> json" where
  "upk_json_serialize_or_null (Arg_string s) =
     (case s of None \<Rightarrow> JNull | Some s \<Rightarrow> if s = '''' then JNull else JString s)"
| "upk_json_serialize_or_null (Arg_array js) = (if js = [] then JNull else JArray js)"
| "upk_json_serialize_or_null (Arg_int i) = (if i = INT32_MIN then JNull else JInt i)"
| "upk_json_serialize_or_null (Arg_boolean b) = (if b = INT8_MIN then JNull else JBool (b \<noteq> 0))"
| "upk_json_serialize_or_null (Arg_object ms) = (if ms = [] then JNull else JObject ms)"

definition script_text :: "cheap \<Rightarrow> cptr \<Rightarrow> string option cres" where
  "script_text h p = (if p = None then Inr None else bind_c (cstr_read h p) (\<lambda>s. Inr (Some s)))"

fun svcid_array :: "upk_svcid list \<Rightarrow> json list cres" where
  "svcid_array [] = Inr []"
| "svcid_array (i # is) =
     bind_c (upk_concat_svcid (svcid_pkg i) (svcid_name i)) (\<lambda>s.
     bind_c (svcid_array is) (\<lambda>js. Inr (JString s # js)))"

fun action_members ::
    "json_c \<Rightarrow> cheap \<Rightarrow> upk_cust_actscr list \<Rightarrow> (string \<times> json) list \<Rightarrow> (string \<times> json) list cres" where
  "action_members jc h [] ms = Inr ms"
| "action_members jc h (a # as) ms =
     bind_c (cstr_read h (act_script a)) (\<lambda>s.
     action_members jc h as (object_add jc ms (act_name a) (JString s)))"

definition list_or_empty :: "'a list option \<Rightarrow> 'a list" where
  "list_or_empty l = (case l of None \<Rightarrow> [] | Some xs \<Rightarrow> xs)"

definition initial_state_json :: "upk_state \<Rightarrow> json" where
  "initial_state_json s =
     (case s of UPK_STATE_RUNNING \<Rightarrow> JString ''running''
      | UPK_STATE_STOPPED \<Rightarrow> JString ''stopped''
      | _ \<Rightarrow> JNull)"

text \<open>The members in the order in which they are added, given the texts of the scripts.  The size of the
  ring is read as the \<open>int32_t\<close> at its address, on a little-endian machine its low half.\<close>

definition svc_members ::
    "upk_svc_desc \<Rightarrow> json list \<Rightarrow> json list \<Rightarrow> (string \<times> json) list \<Rightarrow> string option list \<Rightarrow> (string \<times> serial_arg) list" where
  "svc_members svc provides prereqs actions texts =
     [(''Package'', Arg_string (Some (Package svc))),
      (''Provides'', Arg_array provides),
      (''UUID'', Arg_string (Some '''')),
      (''ShortDescription'', Arg_string (Some (ShortDescription svc))),
      (''LongDescription'', Arg_string (texts ! 0)),
      (''Prerequisites'', Arg_array prereqs),
      (''StartPriority'', Arg_int (StartPriority svc)),
      (''KillTimeout'', Arg_int (KillTimeout svc)),
      (''MaxConsecutiveFailures'', Arg_int (MaxConsecutiveFailures svc)),
      (''UserMaxRestarts'', Arg_int (UserMaxRestarts svc)),
      (''UserRestartWindow'', Arg_int (UserRestartWindow svc)),
      (''UserRateLimit'', Arg_int (UserRateLimit svc)),
      (''RandomizeRateLimit'', Arg_boolean (RandomizeRateLimit svc)),
      (''SetUID'', Arg_int (SetUID svc)),
      (''SetGID'', Arg_int (SetGID svc)),
      (''RingbufferSize'', Arg_int (ucast (RingbufferSize svc))),
      (''ReconnectRetries'', Arg_int (ReconnectRetries svc)),
      (''ExecStart'', Arg_string (Some (ExecStart svc))),
      (''StartScript'', Arg_string (texts ! 1)),
      (''ExecStop'', Arg_string (Some (ExecStop svc))),
      (''StopScript'', Arg_string (texts ! 2)),
      (''ExecReload'', Arg_string (Some (ExecReload svc))),
      (''ReloadScript'', Arg_string (texts ! 3)),
      (''CustomActions'', Arg_object actions),
      (''PipeStdoutScript'', Arg_string (texts ! 4)),
      (''PipeStderrScript'', Arg_string (texts ! 5)),
      (''RedirectStdout'', Arg_string (Some (RedirectStdout svc))),
      (''RedirectStderr'', Arg_string (Some (RedirectStderr svc)))]"

definition svc_members_end :: "upk_svc_desc \<Rightarrow> (string \<times> json) list" where
  "svc_members_end svc =
     [(''InitialState'', initial_state_json (InitialState svc)),
      (''UnconfigureOnFileRemoval'', upk_json_serialize_or_null (Arg_boolean (UnconfigureOnFileRemoval svc))),
      (''PreferBuddyStateForStopped'', upk_json_serialize_or_null (Arg_boolean (PreferBuddyStateForStopped svc))),
      (''PreferBuddyStateForRunning'', upk_json_serialize_or_null (Arg_boolean (PreferBuddyStateForRunning svc)))]"

fun script_texts :: "cheap \<Rightarrow> cptr list \<Rightarrow> string option list cres" where
  "script_texts h [] = Inr []"
| "script_texts h (p # ps) =
     bind_c (script_text h p) (\<lambda>t. bind_c (script_texts h ps) (\<lambda>ts. Inr (t # ts)))"

definition add_all :: "json_c \<Rightarrow> (string \<times> json) list \<Rightarrow> (string \<times> json) list" where
  "add_all jc kvs = foldl (\<lambda>ms (k, v). object_add jc ms k v) [] kvs"

text \<open>\<open>upk_string_to_uuid\<close> is called where \<open>upk_uuid_to_string\<close> is meant: the buffer stays empty.\<close>

definition upk_svc_desc_to_json_obj :: "json_c \<Rightarrow> cheap \<Rightarrow> upk_svc_desc \<Rightarrow> (json \<times> upk_svc_desc) cres" where
  "upk_svc_desc_to_json_obj jc h svc =
     bind_c (svcid_array (list_or_empty (Provides svc))) (\<lambda>provides.
     bind_c (svcid_array (list_or_empty (Prerequisites svc))) (\<lambda>prereqs.
     bind_c (script_texts h [LongDescription svc, StartScript svc, StopScript svc, ReloadScript svc,
       PipeStdoutScript svc, PipeStderrScript svc]) (\<lambda>texts.
     bind_c (action_members jc h (list_or_empty (CustomActions svc)) []) (\<lambda>actions.
     Inr (JObject (add_all jc
         (map (\<lambda>(k, arg). (k, upk_json_serialize_or_null arg)) (svc_members svc provides prereqs actions texts) @
          svc_members_end svc)),
       svc\<lparr>UUID := upk_string_to_uuid (UUID svc) ''''\<rparr>)))))"

fun svclist_members ::
    "json_c \<Rightarrow> cheap \<Rightarrow> upk_svc_desc list \<Rightarrow> (string \<times> json) list \<Rightarrow> (string \<times> json) list cres" where
  "svclist_members jc h [] ms = Inr ms"
| "svclist_members jc h (svc # ss) ms =
     bind_c (upk_svc_id svc) (\<lambda>key.
     bind_c (upk_svc_desc_to_json_obj jc h svc) (\<lambda>(j, svc).
     svclist_members jc h ss (object_add jc ms key j)))"

definition upk_svclist_to_json_obj :: "json_c \<Rightarrow> cheap \<Rightarrow> upk_svc_desc list option \<Rightarrow> json cres" where
  "upk_svclist_to_json_obj jc h l =
     (case l of None \<Rightarrow> Inr JNull
      | Some ss \<Rightarrow> bind_c (svclist_members jc h ss []) (\<lambda>ms. Inr (JObject ms)))"

definition upk_json_serialize_svc_config ::
    "json_c \<Rightarrow> cheap \<Rightarrow> upk_svc_desc \<Rightarrow> upk_json_data_output_opts \<Rightarrow> string option cres" where
  "upk_json_serialize_svc_config jc h svc opts =
     bind_c (upk_svclist_to_json_obj jc h (Some [svc])) (\<lambda>top. upk_json_obj_to_string jc top opts)"

section \<open>Loading files\<close>

text \<open>What successive calls of \<open>fgets\<close> with a buffer of \<open>n\<close> bytes return: lines with their newline, cut at
  \<open>n - 1\<close> characters.\<close>

function fgets_chunks :: "nat \<Rightarrow> string \<Rightarrow> string list" where
  "fgets_chunks n s =
     (if s = '''' \<or> n < 2 then []
      else let line = takeWhile (\<lambda>c. c \<noteq> CHR 0x0A) s;
               chunk = take (n - 1) (take (length line + 1) s) in
        chunk # fgets_chunks n (drop (length chunk) s))"
  by pat_completeness auto

termination
  by (relation "measure (\<lambda>(n, s). length s)") (auto simp: Let_def)

declare fgets_chunks.simps [simp del]

text \<open>The buffer: its size on the heap, and the variable \<open>size\<close>, which is one less once it has grown.\<close>

record load_buf =
  lb_alloc :: nat
  lb_size :: nat
  lb_text :: string

definition load_chunk :: "string \<Rightarrow> load_buf \<Rightarrow> load_buf cres" where
  "load_chunk chunk b =
     (let len = length (lb_text b) + length chunk;
          b = (if lb_size b < len then b\<lparr>lb_size := lb_size b * 2, lb_alloc := lb_size b * 2 + 1\<rparr> else b) in
      if lb_alloc b < len + 1 then Inl Oob_write else Inr (b\<lparr>lb_text := lb_text b @ chunk\<rparr>))"

fun load_chunks :: "string list \<Rightarrow> load_buf \<Rightarrow> load_buf cres" where
  "load_chunks [] b = Inr b"
| "load_chunks (c # cs) b = bind_c (load_chunk c b) (load_chunks cs)"

text \<open>What \<open>strnlen\<close> and \<open>strncat\<close> see of the lines: each ends at its first zero byte.\<close>

definition file_chunks :: "string \<Rightarrow> string list" where
  "file_chunks content = map c_string (fgets_chunks (UPK_MAX_STRING_LEN - 1) content)"

text \<open>\<open>None\<close> is a file that cannot be opened.\<close>

definition upk_config_loadfile :: "string option \<Rightarrow> string cres" where
  "upk_config_loadfile file =
     (case file of None \<Rightarrow> Inr ''''
      | Some content \<Rightarrow>
          bind_c (load_chunks (file_chunks content) \<lparr>lb_alloc = 64, lb_size = 64, lb_text = ''''\<rparr>) (\<lambda>b. Inr (lb_text b)))"

section \<open>Loading the configuration\<close>

text \<open>The three configurations of the program, the heap, the keys reported, and the file system as far as
  files are read: contents by path, names in a directory.\<close>

record load_state =
  default_conf :: upk_controller_config
  file_conf :: upk_controller_config
  runtime_conf :: upk_controller_config
  load_heap :: cheap
  load_alerts :: "string option list"

record load_files =
  contents :: "string \<Rightarrow> string option"
  names_in :: "string \<Rightarrow> string list option"

definition zero_config :: "upk_svc_desc \<Rightarrow> upk_controller_config" where
  "zero_config d =
     \<lparr>StateDir = '''', SvcConfigPath = '''', SvcRunPath = '''', UpkBuddyPath = '''', AuditMaxAge = 0,
      AuditMaxRecords = 0, BuddyVerbosity = 0, BuddyPollingInterval = 0, controller_socket = '''',
      controller_buddy_sock = '''', ServiceDefaults = d, svclist = None\<rparr>"

definition pack_into ::
    "(conf_env \<Rightarrow> string \<Rightarrow> conf_state \<Rightarrow> conf_state cres) \<Rightarrow> conf_env \<Rightarrow> string \<Rightarrow> upk_controller_config \<Rightarrow>
     load_state \<Rightarrow> (upk_controller_config \<times> load_state) cres" where
  "pack_into pack env text cfg s =
     bind_c (pack env text \<lparr>conf = cfg, conf_heap = load_heap s, alerts = load_alerts s\<rparr>) (\<lambda>st.
     Inr (conf st, s\<lparr>load_heap := conf_heap st, load_alerts := alerts st\<rparr>))"

text \<open>The sockets are named after the state directory, into arrays of \<open>UPK_MAX_PATH_LEN\<close> bytes.\<close>

definition socket_path :: "string \<Rightarrow> string \<Rightarrow> string" where
  "socket_path dir name = take (UPK_MAX_STRING_LEN - 1) dir @ name"

definition upk_ctrl_load_config ::
    "conf_env \<Rightarrow> load_files \<Rightarrow> string \<Rightarrow> string \<Rightarrow> load_state \<Rightarrow> load_state cres" where
  "upk_ctrl_load_config env files default_str path s =
     bind_c (pack_into upk_ctrlconf_pack env default_str
         ((default_conf s)\<lparr>ServiceDefaults := upk_svc_desc_clear\<rparr>) s) (\<lambda>(dflt, s).
     let dflt = dflt\<lparr>controller_socket := socket_path (StateDir dflt) ''/.controler.sock'',
           controller_buddy_sock := socket_path (StateDir dflt) ''/.buddy.sock''\<rparr>;
         file = (file_conf s)\<lparr>BuddyPollingInterval := DBL_MIN\<rparr> in
     bind_c (if path = '''' then Inr (file, s)
        else bind_c (upk_config_loadfile (contents files path)) (\<lambda>json.
          if json = '''' then Inr (file, s)
          else pack_into upk_ctrlconf_pack env json (file\<lparr>ServiceDefaults := upk_svc_desc_clear\<rparr>) s)) (\<lambda>(file, s).
     let runtime = (runtime_conf s)\<lparr>ServiceDefaults := upk_svc_desc_clear\<rparr> in
     bind_c (upk_overlay_ctrlconf_values runtime dflt (load_heap s)) (\<lambda>(runtime, h).
     bind_c (upk_overlay_ctrlconf_values runtime file h) (\<lambda>(runtime, h).
     Inr (s\<lparr>default_conf := dflt, file_conf := file, runtime_conf := runtime, load_heap := h\<rparr>)))))"

text \<open>The name of a file ends in \<open>.conf\<close>.  For a name shorter than that the code reads before it, in the
  directory entry, where the preceding byte is the type of the file and no letter.\<close>

definition conf_file :: "string \<Rightarrow> bool" where
  "conf_file name \<longleftrightarrow> 5 \<le> length name \<and> drop (length name - 5) name = ''.conf''"

fun load_service_files ::
    "conf_env \<Rightarrow> load_files \<Rightarrow> string \<Rightarrow> string list \<Rightarrow> upk_controller_config \<Rightarrow> load_state \<Rightarrow>
     (upk_controller_config \<times> load_state) cres" where
  "load_service_files env files dir [] cfg s = Inr (cfg, s)"
| "load_service_files env files dir (name # names) cfg s =
     (if \<not> conf_file name then load_service_files env files dir names cfg s
      else let path = dir @ ''/'' @ name in
        if UPK_MAX_PATH_LEN \<le> length path then Inl Oob_write
        else bind_c (upk_config_loadfile (contents files path)) (\<lambda>p.
          bind_c (pack_into upk_svcconf_pack env p cfg s) (\<lambda>(cfg, s).
          load_service_files env files dir names cfg s)))"

fun finalize_services ::
    "(nat \<Rightarrow> char) \<Rightarrow> upk_svc_desc \<Rightarrow> upk_svc_desc list \<Rightarrow> cheap \<Rightarrow> (upk_svc_desc list \<times> cheap) cres" where
  "finalize_services junk defaults [] h = Inr ([], h)"
| "finalize_services junk defaults (svc # ss) h =
     bind_c (upk_finalize_svc_desc junk defaults upk_svc_desc_clear (Some svc) h) (\<lambda>(d, h).
     bind_c (finalize_services junk defaults ss h) (\<lambda>(ds, h). Inr (d # ds, h)))"

text \<open>The list of the file configuration is replaced by an empty one first; without a directory that is all.\<close>

definition upk_load_runtime_services ::
    "(nat \<Rightarrow> char) \<Rightarrow> conf_env \<Rightarrow> load_files \<Rightarrow> load_state \<Rightarrow> load_state cres" where
  "upk_load_runtime_services junk env files s =
     (let dir = SvcConfigPath (runtime_conf s); file = (file_conf s)\<lparr>svclist := Some []\<rparr> in
      case (if dir = '''' then None else names_in files dir) of
        None \<Rightarrow> Inr (s\<lparr>file_conf := file\<rparr>)
      | Some names \<Rightarrow>
          bind_c (load_service_files env files (take (UPK_MAX_PATH_LEN - 1) dir) names file s) (\<lambda>(file, s).
          bind_c (finalize_services junk (ServiceDefaults (runtime_conf s)) (list_or_empty (svclist file))
              (load_heap s)) (\<lambda>(ds, h).
          Inr (s\<lparr>file_conf := file, runtime_conf := (runtime_conf s)\<lparr>svclist := Some ds\<rparr>, load_heap := h\<rparr>))))"

end
