(* ===== verification/Upk_Config_Read.thy ===== *)
theory Upk_Config_Read
  imports Upk_Config_Json
begin

text \<open>
  What reading a configuration does: when the buffer of a file is overrun, what a container under an
  unknown name leads to, which values never reach the running configuration, and that a description
  written as JSON is read back.
\<close>

section \<open>Files\<close>

lemma concat_fgets: "2 \<le> n \<Longrightarrow> concat (fgets_chunks n s) = s"
proof (induction n s rule: fgets_chunks.induct)
  case (1 n s)
  show ?case
  proof (cases "s = ''''")
    case True
    then show ?thesis by (simp add: fgets_chunks.simps)
  next
    case False
    define line where "line = takeWhile (\<lambda>c. c \<noteq> CHR 0x0A) s"
    define chunk where "chunk = take (n - 1) (take (length line + 1) s)"
    have "chunk @ drop (length chunk) s = s"
      unfolding chunk_def take_take by (metis append_take_drop_id length_take min.commute take_take take_all nle_le)
    moreover have "fgets_chunks n s = chunk # fgets_chunks n (drop (length chunk) s)"
      using False 1(2) by (subst fgets_chunks.simps) (simp only: Let_def flip: line_def chunk_def, simp)
    moreover have "concat (fgets_chunks n (drop (length chunk) s)) = drop (length chunk) s"
      using 1(1) [OF _ line_def chunk_def] False 1(2) by simp
    ultimately show ?thesis by simp
  qed
qed

text \<open>The lines of a file without zero bytes make up the file.\<close>

lemma concat_lines:
  assumes "CHR 0x00 \<notin> set content"
  shows "concat (file_chunks content) = content"
proof -
  let ?cs = "fgets_chunks (UPK_MAX_STRING_LEN - 1) content"
  have concat: "concat ?cs = content" by (simp add: concat_fgets UPK_MAX_STRING_LEN_def)
  have "c_string c = c" if "c \<in> set ?cs" for c
  proof -
    have "set c \<subseteq> set content" using that arg_cong [OF concat, of set] by auto
    then have "\<forall>x\<in>set c. x \<noteq> CHR 0x00" using assms by auto
    then show ?thesis unfolding c_string_def by (simp only: takeWhile_eq_all_conv)
  qed
  then have "map c_string ?cs = ?cs" by (simp add: map_idI)
  with concat show ?thesis by (simp add: file_chunks_def)
qed

text \<open>A buffer that has grown has room for one more line of less than 64 characters; the first buffer,
  which has no byte for the terminator, has not.\<close>

definition grown :: "load_buf \<Rightarrow> bool" where
  "grown b \<longleftrightarrow> 64 \<le> lb_size b \<and> lb_alloc b = lb_size b + 1 \<and> length (lb_text b) \<le> lb_size b"

lemma load_grown:
  "grown b \<Longrightarrow> \<forall>c\<in>set cs. length c < 64 \<Longrightarrow>
     \<exists>b'. load_chunks cs b = Inr b' \<and> lb_text b' = lb_text b @ concat cs"
proof (induction cs arbitrary: b)
  case (Cons c cs)
  let ?len = "length (lb_text b) + length c"
  let ?b = "if lb_size b < ?len then b\<lparr>lb_size := lb_size b * 2, lb_alloc := lb_size b * 2 + 1\<rparr> else b"
  define b1 where "b1 = ?b\<lparr>lb_text := lb_text b @ c\<rparr>"
  have "load_chunk c b = Inr b1" "grown b1" "lb_text b1 = lb_text b @ c"
    using Cons.prems by (auto simp: load_chunk_def grown_def Let_def b1_def)
  with Cons.IH [of b1] Cons.prems(2) show ?case by auto
qed simp

definition small_buf :: "string \<Rightarrow> load_buf" where
  "small_buf t = \<lparr>lb_alloc = 64, lb_size = 64, lb_text = t\<rparr>"

definition hits :: "nat \<Rightarrow> string list \<Rightarrow> bool" where
  "hits n cs \<longleftrightarrow> (\<exists>k. length (concat (take k cs)) = n)"

lemma hits_Cons: "hits n (c # cs) \<longleftrightarrow> n = 0 \<or> (length c \<le> n \<and> hits (n - length c) cs)"
proof
  assume "hits n (c # cs)"
  then obtain k where k: "length (concat (take k (c # cs))) = n" by (auto simp: hits_def)
  then show "n = 0 \<or> (length c \<le> n \<and> hits (n - length c) cs)"
    by (cases k) (auto simp: hits_def intro: exI [of _ "k - 1"])
next
  assume "n = 0 \<or> (length c \<le> n \<and> hits (n - length c) cs)"
  then show "hits n (c # cs)"
  proof
    assume "length c \<le> n \<and> hits (n - length c) cs"
    then obtain k where "length (concat (take k cs)) = n - length c" "length c \<le> n"
      by (auto simp: hits_def)
    then show ?thesis unfolding hits_def by (intro exI [of _ "Suc k"]) simp
  qed (auto simp: hits_def intro: exI [of _ 0])
qed

lemma load_small:
  "length t < 64 \<Longrightarrow> \<forall>c\<in>set cs. length c < 64 \<Longrightarrow>
     (if hits (64 - length t) cs then load_chunks cs (small_buf t) = Inl Oob_write
      else \<exists>b. load_chunks cs (small_buf t) = Inr b \<and> lb_text b = t @ concat cs)"
proof (induction cs arbitrary: t)
  case Nil
  then show ?case by (simp add: hits_def small_buf_def)
next
  case (Cons c cs)
  consider (less) "length t + length c < 64" | (eq) "length t + length c = 64" | (greater) "64 < length t + length c"
    by linarith
  then show ?case
  proof cases
    case less
    then have "load_chunk c (small_buf t) = Inr (small_buf (t @ c))"
      by (simp add: load_chunk_def small_buf_def Let_def)
    moreover have "hits (64 - length t) (c # cs) = hits (64 - length (t @ c)) cs"
      using less by (auto simp: hits_Cons diff_diff_left)
    ultimately show ?thesis
      using Cons.IH [of "t @ c"] Cons.prems(2) less by (cases "hits (64 - length (t @ c)) cs") simp_all
  next
    case eq
    then have "load_chunk c (small_buf t) = Inl Oob_write"
      by (simp add: load_chunk_def small_buf_def Let_def)
    moreover have "hits (64 - length t) (c # cs)"
      unfolding hits_def using eq by (intro exI [of _ 1]) simp
    ultimately show ?thesis by simp
  next
    case greater
    let ?b = "\<lparr>lb_alloc = 129, lb_size = 128, lb_text = t @ c\<rparr>"
    have "load_chunk c (small_buf t) = Inr ?b" "grown ?b"
      using greater Cons.prems by (simp_all add: load_chunk_def small_buf_def grown_def Let_def)
    moreover have "\<not> hits (64 - length t) (c # cs)"
      using greater Cons.prems(1) by (auto simp: hits_Cons)
    ultimately show ?thesis using load_grown [of ?b cs] Cons.prems(2) by simp
  qed
qed

text \<open>C36: for a file whose lines are all shorter than 64 characters, a line being counted up to its first zero byte,
  the text that is read is these lines, unless the first of them add up to exactly 64 characters: then
  the terminator is written behind the buffer.  Without zero bytes the text is the whole file.  A file that
  begins with a line of more than 128 characters always overruns the buffer, which is doubled only once.\<close>

theorem loadfile_spec:
  "let lines = file_chunks content; loaded = upk_config_loadfile (Some content) in
    ((\<forall>c\<in>set lines. length c < 64) \<longrightarrow>
      loaded = (if \<exists>k. length (concat (take k lines)) = 64 then Inl Oob_write else Inr (concat lines))) \<and>
    (lines \<noteq> [] \<and> 128 < length (hd lines) \<longrightarrow> loaded = Inl Oob_write) \<and>
    (CHR 0x00 \<notin> set content \<longrightarrow> concat lines = content)"
proof -
  let ?lines = "file_chunks content"
  have start: "\<lparr>lb_alloc = 64, lb_size = 64, lb_text = []\<rparr> = small_buf []" by (simp add: small_buf_def)
  have "upk_config_loadfile (Some content) =
      (if \<exists>k. length (concat (take k ?lines)) = 64 then Inl Oob_write else Inr (concat ?lines))"
    if "\<forall>c\<in>set ?lines. length c < 64"
    using load_small [of "[]" ?lines] that
    by (auto simp: upk_config_loadfile_def start hits_def split: if_splits)
  moreover have "upk_config_loadfile (Some content) = Inl Oob_write" if "?lines \<noteq> [] \<and> 128 < length (hd ?lines)"
    using that by (cases ?lines) (simp_all add: upk_config_loadfile_def load_chunk_def Let_def)
  moreover have "concat ?lines = content" if "CHR 0x00 \<notin> set content"
    using that by (rule concat_lines)
  ultimately show ?thesis unfolding Let_def by blast
qed

lemma fgets_line:
  assumes "CHR 0x0A \<notin> set l" and "length l + 1 < n"
  shows "fgets_chunks n (l @ CHR 0x0A # s) = (l @ [CHR 0x0A]) # fgets_chunks n s"
proof -
  have "takeWhile (\<lambda>c. c \<noteq> CHR 0x0A) (l @ CHR 0x0A # s) = l"
    using assms(1) by (auto simp: takeWhile_append)
  moreover have "take (n - 1) (take (length l + 1) (l @ CHR 0x0A # s)) = l @ [CHR 0x0A]"
    using assms(2) by simp
  ultimately show ?thesis using assms(2) by (subst fgets_chunks.simps) (simp add: Let_def)
qed

text \<open>Two lines of 32 characters.\<close>

definition unlucky_line :: string where
  "unlucky_line = replicate 31 (CHR ''x'') @ [CHR 0x0A]"

lemma c_unlucky: "c_string unlucky_line = unlucky_line"
  by (simp add: c_string_def unlucky_line_def takeWhile_append2)

lemma unlucky_chunks: "file_chunks (unlucky_line @ unlucky_line) = [unlucky_line, unlucky_line]"
proof -
  have "fgets_chunks n (unlucky_line @ s) = unlucky_line # fgets_chunks n s" if "32 < n" for n s
    using fgets_line [of "replicate 31 (CHR ''x'')" n s] that by (simp add: unlucky_line_def)
  from this [of "UPK_MAX_STRING_LEN - 1" unlucky_line] this [of "UPK_MAX_STRING_LEN - 1" "[]"]
  show ?thesis by (simp add: file_chunks_def UPK_MAX_STRING_LEN_def fgets_chunks.simps [of _ "[]"] c_unlucky)
qed

lemma loadfile_spec_witness:
  "upk_config_loadfile (Some (unlucky_line @ unlucky_line)) = Inl Oob_write \<and>
   concat (file_chunks (unlucky_line @ unlucky_line)) = unlucky_line @ unlucky_line"
proof -
  have "length (concat (take 2 [unlucky_line, unlucky_line])) = 64" by (simp add: unlucky_line_def)
  moreover have "\<forall>c\<in>set [unlucky_line, unlucky_line]. length c < 64" by (simp add: unlucky_line_def)
  moreover have "CHR 0x00 \<notin> set (unlucky_line @ unlucky_line)" by (simp add: unlucky_line_def)
  ultimately show ?thesis
    using loadfile_spec [of "unlucky_line @ unlucky_line"] unfolding unlucky_chunks Let_def by metis
qed

section \<open>Steps of the walk\<close>

lemma parse_obj_append:
  "upk_json_parse_obj jc run (ms @ ms') w = bind_c (upk_json_parse_obj jc run ms w) (upk_json_parse_obj jc run ms')"
proof (induction ms arbitrary: w)
  case (Cons m ms)
  then have "upk_json_parse_obj jc run (ms @ ms') =
      (\<lambda>w. bind_c (upk_json_parse_obj jc run ms w) (upk_json_parse_obj jc run ms'))" by (rule ext)
  then show ?case by (cases m) (simp add: bind_c_assoc)
qed simp

fun scalar :: "json \<Rightarrow> bool" where
  "scalar (JArray _) = False"
| "scalar (JObject _) = False"
| "scalar _ = True"

lemma escaped_ok: "c_strings jc \<Longrightarrow> escaped jc s = Inr (unslash (to_json_string jc s))"
  by (simp add: escaped_def c_strings_def unescape_unslash)

lemma parse_scalar:
  "scalar j \<Longrightarrow> upk_json_parse_node jc run key j w = upk_json_value jc run key j w"
  by (cases j) (simp_all add: upk_json_parse_node.simps)

text \<open>What a value does to the node on top of the stack, when strings can be escaped.\<close>

fun val_of :: "json_c \<Rightarrow> json \<Rightarrow> upk_json_val" where
  "val_of jc JNull = V_null"
| "val_of jc (JBool b) = V_bl b"
| "val_of jc (JDouble d) = V_dbl d"
| "val_of jc (JInt i) = V_i i"
| "val_of jc (JString s) = V_str s (unslash (to_json_string jc s))"
| "val_of jc j = V_obj j"

lemma json_value_conf:
  assumes "c_strings jc"
  shows "upk_json_value jc run key j (conf_node data hs # ns, st) =
    (case handler_for j hs of None \<Rightarrow> Inr (conf_node data hs # ns, st)
     | Some f \<Rightarrow> run f data key (val_of jc j) (conf_node data hs # ns, st))"
proof -
  have "json_val (escaped jc) j = Inr (val_of jc j)"
    by (cases j) (simp_all add: escaped_ok [OF assms])
  then show ?thesis
    by (simp add: upk_json_value_def call_handler_def conf_node_def split: option.split)
qed

section \<open>Settings no file can give\<close>

text \<open>The part of a configuration that no handler writes.\<close>

definition fixed_part :: "upk_controller_config \<Rightarrow> string \<times> string \<times> u32 \<times> u32" where
  "fixed_part c = (controller_socket c, controller_buddy_sock c, AuditMaxAge c, AuditMaxRecords c)"

lemma fixed_put_svc [simp]: "fixed_part (conf (put_svc r d st)) = fixed_part (conf st)"
  by (cases r) (simp_all add: put_svc_def fixed_part_def)

lemma fixed_update_svc: "update_svc r f st = Inr st' \<Longrightarrow> fixed_part (conf st') = fixed_part (conf st)"
  by (auto simp: update_svc_def bind_c_Inr_iff)

lemma fixed_alert [simp]: "fixed_part (conf (upk_alert key st)) = fixed_part (conf st)"
  by (simp add: upk_alert_def)

lemma lookup_key_in: "lookup_key k xs = Some x \<Longrightarrow> \<exists>n. (n, x) \<in> set xs"
  by (induction xs) (auto split: if_splits)

lemma fixed_string_field:
  "lookup_key k ctrl_string_fields = Some store \<Longrightarrow> \<forall>s c. fixed_part (store s c) = fixed_part c"
  by (drule lookup_key_in) (auto simp: ctrl_string_fields_def fixed_part_def)

lemma keep_stackD:
  "keep_stack f (meta, st) = Inr (meta', st') \<Longrightarrow> f st = Inr st' \<and> meta' = meta"
  by (auto simp: keep_stack_def bind_c_Inr_iff)

lemmas handler_defs = upk_svcconf_svcid_array_appender_def upk_svcconf_customaction_array_appender_def
  upk_svcconf_bool_handler_def upk_svcconf_int_handler_def upk_svcconf_string_handler_def
  upk_svcconf_array_handler_def push_ids_def upk_svcconf_nested_object_handler_def
  upk_ctrlconf_object_handler_def upk_ctrlconf_string_handler_def upk_ctrlconf_int_handler_def
  upk_ctrlconf_double_handler_def upk_ctrlconf_toplvl_obj_def upk_svcconf_object_handler_def
  upk_svcconf_toplvl_obj_def with_key_def

lemma fixed_updates [simp]:
  "fixed_part (c\<lparr>BuddyVerbosity := n\<rparr>) = fixed_part c" "fixed_part (c\<lparr>BuddyPollingInterval := x\<rparr>) = fixed_part c"
  "fixed_part (c\<lparr>svclist := l\<rparr>) = fixed_part c" "fixed_part (c\<lparr>ServiceDefaults := d\<rparr>) = fixed_part c"
  by (simp_all add: fixed_part_def)

lemma fixed_handler:
  "run_conf env f data key v (meta, st) = Inr (meta', st') \<Longrightarrow> fixed_part (conf st') = fixed_part (conf st)"
  by (cases f)
    (auto simp: casts handler_defs bind_c_Inr_iff Let_def dest!: keep_stackD fixed_string_field fixed_update_svc
      split: conf_data.splits upk_json_val.splits option.splits if_splits prod.splits)

interpretation fixed: walk_invariant "run_conf env" "\<lambda>st. fixed_part (conf st) = p" for env p
  by unfold_locales (simp add: fixed_handler)

lemma pack_fixed: "conf_pack t env text st = Inr st' \<Longrightarrow> fixed_part (conf st') = fixed_part (conf st)"
  by (auto simp: conf_pack_def bind_c_Inr_iff split: json.splits dest: fixed.parse_keeps)

section \<open>Containers under unknown names\<close>

definition ctrl_stack :: "conf_handler \<Rightarrow> (conf_data, conf_handler) jstack" where
  "ctrl_stack toplvl = [conf_node D_config ctrl_handlers, conf_node D_config (only_objects toplvl)]"

definition top_stack :: "conf_handler \<Rightarrow> (conf_data, conf_handler) jstack" where
  "top_stack toplvl = [conf_node D_config (only_objects toplvl)]"

lemma ctrl_stack_pop [simp]: "upk_json_stack_pop (ctrl_stack t) = top_stack t" "upk_json_stack_pop (top_stack t) = []"
  by (simp_all add: upk_json_stack_pop_def ctrl_stack_def top_stack_def)

lemma top_stack_quiet [simp]:
  "call_handler run after_json_obj_pop key v (top_stack t, st) = Inr (top_stack t, st)"
  "call_handler run after_json_array_pop key v (top_stack t, st) = Inr (top_stack t, st)"
  by (simp_all add: call_handler_def top_stack_def conf_node_def only_objects_def)

lemma toplvl_pushes:
  assumes "c_strings (json_lib env)"
  shows "upk_json_value (json_lib env) (run_conf env) key (JObject ms) (top_stack H_ctrl_toplvl, st) =
    Inr (ctrl_stack H_ctrl_toplvl, st)"
  unfolding top_stack_def json_value_conf [OF assms]
  by (simp add: only_objects_def casts upk_ctrlconf_toplvl_obj_def upk_json_stack_push_def ctrl_stack_def)

text \<open>The settings the configuration knows; \<open>null\<close> and truth values are only reported.\<close>

fun ctrl_setting :: "string \<times> json \<Rightarrow> bool" where
  "ctrl_setting (k, JString _) = (lookup_key k ctrl_string_fields \<noteq> None)"
| "ctrl_setting (k, JInt _) = (same_word k ''BuddyVerbosity'' \<or> same_word k ''BuddyPollingInterval'')"
| "ctrl_setting (k, JDouble _) = same_word k ''BuddyPollingInterval''"
| "ctrl_setting (k, JNull) = True"
| "ctrl_setting (k, JBool _) = True"
| "ctrl_setting (k, _) = False"

lemma ctrl_settings_walk:
  assumes "c_strings (json_lib env)"
  shows "\<forall>m\<in>set ms. scalar (snd m) \<Longrightarrow>
    if \<forall>m\<in>set ms. ctrl_setting m
    then \<exists>st'. upk_json_parse_obj (json_lib env) (run_conf env) ms (ctrl_stack t, st) = Inr (ctrl_stack t, st')
    else upk_json_parse_obj (json_lib env) (run_conf env) ms (ctrl_stack t, st) = Inl Exit_failure"
proof (induction ms arbitrary: st)
  case (Cons m ms)
  obtain k j where m: "m = (k, j)" by (cases m)
  let ?r = "upk_json_parse_node (json_lib env) (run_conf env) (Some k) j (ctrl_stack t, st)"
  have "if ctrl_setting (k, j) then \<exists>st'. ?r = Inr (ctrl_stack t, st') else ?r = Inl Exit_failure"
    using Cons.prems m
    by (cases j) (auto simp: ctrl_stack_def parse_scalar json_value_conf [OF assms] ctrl_handlers_def
        only_objects_def casts keep_stack_def upk_ctrlconf_string_handler_def upk_ctrlconf_int_handler_def
        upk_ctrlconf_double_handler_def with_key_def split: option.split)
  then show ?case
  proof (cases "ctrl_setting (k, j)")
    case True
    with \<open>if ctrl_setting (k, j) then _ else _\<close> obtain st1 where "?r = Inr (ctrl_stack t, st1)" by auto
    with Cons.IH [of st1] Cons.prems m True show ?thesis by (auto split: if_splits)
  qed (use m in auto)
qed simp

lemma top_scalars_walk:
  assumes "c_strings (json_lib env)"
  shows "\<forall>m\<in>set ms. scalar (snd m) \<Longrightarrow>
    \<exists>st'. upk_json_parse_obj (json_lib env) (run_conf env) ms (top_stack t, st) = Inr (top_stack t, st')"
proof (induction ms arbitrary: st)
  case (Cons m ms)
  obtain k j where m: "m = (k, j)" by (cases m)
  have "\<exists>st'. upk_json_parse_node (json_lib env) (run_conf env) (Some k) j (top_stack t, st) =
      Inr (top_stack t, st')"
    using Cons.prems m
    by (cases j) (simp_all add: top_stack_def parse_scalar json_value_conf [OF assms] only_objects_def keep_stack_def)
  then obtain st1 where "upk_json_parse_node (json_lib env) (run_conf env) (Some k) j (top_stack t, st) =
      Inr (top_stack t, st1)" by blast
  with Cons.IH [of st1] Cons.prems m show ?case by simp
qed simp

text \<open>A container under a name the configuration does not know, with plain values in it, and its members.\<close>

definition unknown_container :: "string \<Rightarrow> json \<Rightarrow> bool" where
  "unknown_container k j \<longleftrightarrow>
     (case j of JObject ms \<Rightarrow> \<not> same_word k ''ServiceDefaults'' \<and> (\<forall>m\<in>set ms. scalar (snd m))
      | JArray js \<Rightarrow> (\<forall>x\<in>set js. scalar x)
      | _ \<Rightarrow> False)"

definition members :: "json \<Rightarrow> (string \<times> json) list" where
  "members j = (case j of JObject ms \<Rightarrow> ms | _ \<Rightarrow> [])"

text \<open>The elements of an array have no key.\<close>

lemma ctrl_elements_walk:
  assumes "c_strings (json_lib env)"
  shows "\<forall>x\<in>set js. scalar x \<Longrightarrow>
    (\<exists>st'. upk_json_parse_array (json_lib env) (run_conf env) js (ctrl_stack t, st) = Inr (ctrl_stack t, st')) \<or>
    upk_json_parse_array (json_lib env) (run_conf env) js (ctrl_stack t, st) = Inl Null_deref"
proof (induction js arbitrary: st)
  case (Cons j js)
  have "(\<exists>st'. upk_json_parse_node (json_lib env) (run_conf env) None j (ctrl_stack t, st) =
      Inr (ctrl_stack t, st')) \<or>
    upk_json_parse_node (json_lib env) (run_conf env) None j (ctrl_stack t, st) = Inl Null_deref"
    using Cons.prems
    by (cases j) (simp_all add: ctrl_stack_def parse_scalar json_value_conf [OF assms] ctrl_handlers_def
        only_objects_def casts keep_stack_def upk_ctrlconf_string_handler_def upk_ctrlconf_int_handler_def
        upk_ctrlconf_double_handler_def with_key_def)
  then show ?case
  proof
    assume "\<exists>st'. upk_json_parse_node (json_lib env) (run_conf env) None j (ctrl_stack t, st) = Inr (ctrl_stack t, st')"
    then obtain st1 where "upk_json_parse_node (json_lib env) (run_conf env) None j (ctrl_stack t, st) =
      Inr (ctrl_stack t, st1)" by blast
    with Cons.IH [of st1] Cons.prems show ?thesis by simp
  qed simp
qed simp

text \<open>An unknown container takes the node of the configuration off the stack, if nothing in it ends the
  program.\<close>

lemma unknown_container_pops:
  assumes "c_strings (json_lib env)" and "unknown_container k j"
  shows "if \<forall>m\<in>set (members j). ctrl_setting m
    then (\<exists>st'. upk_json_parse_node (json_lib env) (run_conf env) (Some k) j (ctrl_stack t, st) =
        Inr (top_stack t, st')) \<or>
      upk_json_parse_node (json_lib env) (run_conf env) (Some k) j (ctrl_stack t, st) = Inl Null_deref
    else upk_json_parse_node (json_lib env) (run_conf env) (Some k) j (ctrl_stack t, st) = Inl Exit_failure"
proof -
  let ?jc = "json_lib env" and ?run = "run_conf env"
  show ?thesis
  proof (cases j)
    case (JObject ms)
    have "upk_json_value ?jc ?run (Some k) j (ctrl_stack t, st) = Inr (ctrl_stack t, st)"
      using assms JObject by (simp add: ctrl_stack_def json_value_conf [OF assms(1)] ctrl_handlers_def
          only_objects_def casts upk_ctrlconf_object_handler_def with_key_def unknown_container_def)
    moreover have "\<forall>m\<in>set ms. scalar (snd m)" using assms(2) JObject by (simp add: unknown_container_def)
    note ctrl_settings_walk [OF assms(1) this, of t st]
    ultimately show ?thesis by (auto simp: upk_json_parse_node.simps JObject members_def split: if_splits)
  next
    case (JArray js)
    have "upk_json_value ?jc ?run (Some k) j (ctrl_stack t, st) = Inr (ctrl_stack t, upk_alert (Some k) st)"
      using assms JArray by (simp add: ctrl_stack_def json_value_conf [OF assms(1)] ctrl_handlers_def
          only_objects_def keep_stack_def)
    then show ?thesis
      using ctrl_elements_walk [OF assms(1), of js t "upk_alert (Some k) st"] assms(2) JArray
      by (auto simp: upk_json_parse_node.simps unknown_container_def members_def)
  qed (use assms(2) in \<open>simp_all add: unknown_container_def\<close>)
qed

section \<open>Properties\<close>

text \<open>C35: a configuration of plain values with one object or array of plain values among them, under a name
  the configuration does not know.  If a value before it or in the object is no setting of the controller,
  reading ends the program with a message.  Otherwise it dereferences a null pointer, although every such
  name is only reported: the walk takes a node off the stack for every container, but only the known
  ones have put one there, so the stack is empty when the document ends.\<close>

theorem unknown_container_crashes:
  assumes "c_strings (json_lib env)"
    and "tokener_parse (json_lib env) text = (JObject (before @ (k, j) # after), True, n)"
    and "unknown_container k j" and "\<forall>m\<in>set (before @ after). scalar (snd m)"
  shows "upk_ctrlconf_pack env text st =
    Inl (if \<forall>m\<in>set (before @ members j). ctrl_setting m then Null_deref else Exit_failure)"
proof -
  let ?jc = "json_lib env" and ?run = "run_conf env" and ?t = H_ctrl_toplvl
  let ?ms = "before @ (k, j) # after"
  have plain: "\<forall>m\<in>set before. scalar (snd m)" "\<forall>m\<in>set after. scalar (snd m)" using assms(4) by simp_all
  note walk = ctrl_settings_walk [OF assms(1) plain(1), of ?t] unknown_container_pops [OF assms(1,3), of ?t]
    top_scalars_walk [OF assms(1) plain(2), of ?t]
  have "if \<forall>m\<in>set (before @ members j). ctrl_setting m
    then upk_json_parse_obj ?jc ?run ?ms (ctrl_stack ?t, st) = Inl Null_deref \<or>
      (\<exists>st'. upk_json_parse_obj ?jc ?run ?ms (ctrl_stack ?t, st) = Inr (top_stack ?t, st'))
    else upk_json_parse_obj ?jc ?run ?ms (ctrl_stack ?t, st) = Inl Exit_failure"
  proof (cases "\<forall>m\<in>set before. ctrl_setting m")
    case True
    then obtain st1 where before: "upk_json_parse_obj ?jc ?run before (ctrl_stack ?t, st) = Inr (ctrl_stack ?t, st1)"
      using walk(1) [of st] by auto
    show ?thesis
      using walk(2) [of st1] walk(3) True
      by (cases "\<forall>m\<in>set (members j). ctrl_setting m") (auto simp: parse_obj_append before)
  next
    case False
    then have "upk_json_parse_obj ?jc ?run before (ctrl_stack ?t, st) = Inl Exit_failure"
      using walk(1) [of st] by auto
    moreover have "(\<forall>m\<in>set (before @ members j). ctrl_setting m) = False" using False by auto
    ultimately show ?thesis by (simp only: parse_obj_append bind_c_simps if_False)
  qed
  then have "upk_json_parse_node ?jc ?run None (JObject ?ms) (top_stack ?t, st) =
      Inl (if \<forall>m\<in>set (before @ members j). ctrl_setting m then Null_deref else Exit_failure)"
    by (auto simp: upk_json_parse_node.simps toplvl_pushes [OF assms(1)] call_handler_def [of _ _ _ _ "([], _)"]
        simp del: upk_json_parse_obj.simps split: if_splits)
  then show ?thesis
    by (simp add: upk_ctrlconf_pack_def conf_pack_def upk_json_parse_string_def assms(2) upk_json_stack_push_def
        flip: top_stack_def)
qed

text \<open>A file with a misspelt section.\<close>

definition sample_env :: "json \<Rightarrow> conf_env" where
  "sample_env j = \<lparr>json_lib = sample_json_c\<lparr>tokener_parse := (\<lambda>_. (j, True, 0))\<rparr>, getpwnam = (\<lambda>_. None),
     double_of_int = (\<lambda>_. 0)\<rparr>"

lemma sample_env_strings [simp]: "c_strings (json_lib (sample_env j))"
  using sample_json_c_strings by (simp add: sample_env_def c_strings_def)

definition empty_load :: conf_state where
  "empty_load = \<lparr>conf = zero_config upk_svc_desc_clear, conf_heap = \<lparr>strings = (\<lambda>_. None), brk = 0, list_frees = 0\<rparr>, alerts = []\<rparr>"

lemma unknown_container_crashes_witness:
  "upk_ctrlconf_pack (sample_env (JObject [(''StateDir'', JString ''/var''),
     (''ServiceDefault'', JObject [(''BuddyVerbosity'', JInt 1)]), (''BuddyVerbosity'', JInt 3)])) ''x'' empty_load =
   Inl Null_deref \<and>
   upk_ctrlconf_pack (sample_env (JObject [(''ServiceDefault'', JObject [(''KillTimeout'', JInt 60)])])) ''x'' empty_load =
   Inl Exit_failure"
proof
  have c: "c_strings (json_lib (sample_env js))" for js by simp
  have parse: "tokener_parse (json_lib (sample_env js)) ''x'' = (js, True, 0)" for js by (simp add: sample_env_def)
  have u: "unknown_container ''ServiceDefault'' (JObject [(''BuddyVerbosity'', JInt 1)])"
    "unknown_container ''ServiceDefault'' (JObject [(''KillTimeout'', JInt 60)])"
    by (simp_all add: unknown_container_def to_lower_def)
  show "upk_ctrlconf_pack (sample_env (JObject [(''StateDir'', JString ''/var''),
     (''ServiceDefault'', JObject [(''BuddyVerbosity'', JInt 1)]), (''BuddyVerbosity'', JInt 3)])) ''x'' empty_load =
   Inl Null_deref"
    using unknown_container_crashes [OF c _ u(1), where before = "[(''StateDir'', JString ''/var'')]" and
        after = "[(''BuddyVerbosity'', JInt 3)]"] parse
    by (simp add: ctrl_string_fields_def members_def)
  show "upk_ctrlconf_pack (sample_env (JObject [(''ServiceDefault'', JObject [(''KillTimeout'', JInt 60)])])) ''x'' empty_load =
   Inl Exit_failure"
    using unknown_container_crashes [OF c _ u(2), where before = "[]" and after = "[]"] parse
    by (simp add: members_def to_lower_def)
qed

lemma overlay_ctrlconf_sel:
  assumes "upk_overlay_ctrlconf_values dest high h = Inr (d, h')"
  shows "StateDir d = overlay_array UPK_MAX_PATH_LEN (StateDir high) (StateDir dest)"
    and "controller_socket d = overlay_array UPK_MAX_PATH_LEN (controller_socket high) (controller_socket dest)"
    and "controller_buddy_sock d =
      overlay_array UPK_MAX_PATH_LEN (controller_buddy_sock high) (controller_buddy_sock dest)"
    and "BuddyVerbosity d = BuddyVerbosity dest"
  using assms by (auto simp: upk_overlay_ctrlconf_values_def bind_c_Inr_iff)

lemma pack_into_sel:
  assumes "pack_into (conf_pack t) env text cfg s = Inr (c, s')"
  shows "controller_socket c = controller_socket cfg" and "controller_buddy_sock c = controller_buddy_sock cfg"
    and "default_conf s' = default_conf s" and "file_conf s' = file_conf s" and "runtime_conf s' = runtime_conf s"
  using assms by (auto simp: pack_into_def bind_c_Inr_iff dest!: pack_fixed simp: fixed_part_def)

lemmas ctrl_pack_sel = pack_into_sel [where t = H_ctrl_toplvl, folded upk_ctrlconf_pack_def]

lemma socket_overlay:
  "overlay_array UPK_MAX_PATH_LEN (socket_path dir ''/.controler.sock'') x = socket_path dir ''/.controler.sock''"
  "overlay_array UPK_MAX_PATH_LEN (socket_path dir ''/.buddy.sock'') x = socket_path dir ''/.buddy.sock''"
  by (simp_all add: overlay_array_def socket_path_def UPK_MAX_STRING_LEN_def UPK_MAX_PATH_LEN_def)

text \<open>C29: after a first load the program runs with the state directory of the file, or else of the default,
  but with the sockets in the state directory of the default, whatever the file says; and the verbosity of
  the buddies is what it was before, whatever either says.\<close>

theorem load_config_runtime:
  assumes "upk_ctrl_load_config env files default_str path s = Inr s'"
    and "controller_socket (file_conf s) = ''''" and "controller_buddy_sock (file_conf s) = ''''"
    and "StateDir (runtime_conf s) = ''''"
  shows "StateDir (runtime_conf s') = take (UPK_MAX_PATH_LEN - 1)
      (if StateDir (file_conf s') \<noteq> '''' then StateDir (file_conf s') else StateDir (default_conf s')) \<and>
    controller_socket (runtime_conf s') = socket_path (StateDir (default_conf s')) ''/.controler.sock'' \<and>
    controller_buddy_sock (runtime_conf s') = socket_path (StateDir (default_conf s')) ''/.buddy.sock'' \<and>
    BuddyVerbosity (runtime_conf s') = BuddyVerbosity (runtime_conf s)"
proof -
  let ?sock = "\<lambda>c. c\<lparr>controller_socket := socket_path (StateDir c) ''/.controler.sock'',
      controller_buddy_sock := socket_path (StateDir c) ''/.buddy.sock''\<rparr>"
  obtain dflt s1 where
    dflt: "pack_into upk_ctrlconf_pack env default_str
      ((default_conf s)\<lparr>ServiceDefaults := upk_svc_desc_clear\<rparr>) s = Inr (dflt, s1)"
    using assms(1) by (auto simp: upk_ctrl_load_config_def bind_c_Inr_iff Let_def)
  let ?low1 = "(file_conf s1)\<lparr>BuddyPollingInterval := DBL_MIN\<rparr>"
  obtain high s2 runtime h1 r2 h2 where
    high: "(if path = '''' then Inr (?low1, s1)
      else bind_c (upk_config_loadfile (contents files path)) (\<lambda>json.
        if json = '''' then Inr (?low1, s1)
        else pack_into upk_ctrlconf_pack env json (?low1\<lparr>ServiceDefaults := upk_svc_desc_clear\<rparr>) s1)) =
      Inr (high, s2)"
    and over: "upk_overlay_ctrlconf_values ((runtime_conf s2)\<lparr>ServiceDefaults := upk_svc_desc_clear\<rparr>)
        (?sock dflt) (load_heap s2) = Inr (runtime, h1)"
      "upk_overlay_ctrlconf_values runtime high h1 = Inr (r2, h2)"
    and s': "s' = s2\<lparr>default_conf := ?sock dflt, file_conf := high, runtime_conf := r2, load_heap := h2\<rparr>"
    using assms(1) dflt by (auto simp: upk_ctrl_load_config_def bind_c_Inr_iff Let_def)
  have "controller_socket high = '''' \<and> controller_buddy_sock high = '''' \<and> runtime_conf s2 = runtime_conf s1"
    using high assms(2,3) ctrl_pack_sel(4) [OF dflt]
    by (auto simp: bind_c_Inr_iff split: if_splits dest: ctrl_pack_sel)
  then show ?thesis
    using assms(4) ctrl_pack_sel(5) [OF dflt]
    by (simp add: s' overlay_ctrlconf_sel [OF over(1)] overlay_ctrlconf_sel [OF over(2)] socket_overlay)
      (simp add: overlay_array_def)
qed

definition two_documents :: conf_env where
  "two_documents = (sample_env JNull)\<lparr>json_lib := sample_json_c\<lparr>tokener_parse := (\<lambda>text.
     (if text = ''default'' then JObject [(''StateDir'', JString ''/var/upk''), (''BuddyVerbosity'', JInt 1)]
      else JObject [(''StateDir'', JString ''/srv'')], True, 0))\<rparr>\<rparr>"

definition program_start :: load_state where
  "program_start =
     (let zero = zero_config upk_svc_desc_clear in
      \<lparr>default_conf = zero, file_conf = zero, runtime_conf = zero,
       load_heap = \<lparr>strings = (\<lambda>_. None), brk = 0, list_frees = 0\<rparr>, load_alerts = []\<rparr>)"

definition one_file :: load_files where
  "one_file = \<lparr>contents = (\<lambda>_. Some ''x''), names_in = (\<lambda>_. None)\<rparr>"

lemma two_documents_strings: "c_strings (json_lib two_documents)"
  using sample_json_c_strings by (simp add: two_documents_def c_strings_def)

lemma pack_settings:
  assumes "c_strings (json_lib env)" and "tokener_parse (json_lib env) text = (JObject ms, True, n)"
    and "upk_json_parse_obj (json_lib env) (run_conf env) ms (ctrl_stack H_ctrl_toplvl, st) =
      Inr (ctrl_stack H_ctrl_toplvl, st')"
  shows "upk_ctrlconf_pack env text st = Inr st'"
proof -
  have "upk_json_parse_node (json_lib env) (run_conf env) None (JObject ms) (top_stack H_ctrl_toplvl, st) =
      Inr (top_stack H_ctrl_toplvl, st')"
    by (simp add: upk_json_parse_node.simps toplvl_pushes [OF assms(1)] assms(3) ctrl_stack_pop top_stack_quiet)
  then show ?thesis
    by (simp add: upk_ctrlconf_pack_def conf_pack_def upk_json_parse_string_def assms(2) upk_json_stack_push_def
        flip: top_stack_def)
qed

lemma load_config_runtime_witness:
  "\<exists>s'. upk_ctrl_load_config two_documents one_file ''default'' ''upkeeper.conf'' program_start = Inr s' \<and>
    StateDir (runtime_conf s') = ''/srv'' \<and>
    controller_socket (runtime_conf s') = ''/var/upk/.controler.sock'' \<and> BuddyVerbosity (runtime_conf s') = 0"
proof -
  let ?pack = "upk_ctrlconf_pack two_documents"
  have chunks: "file_chunks ''x'' = [''x'']"
    by (simp add: file_chunks_def UPK_MAX_STRING_LEN_def fgets_chunks.simps c_string_def)
  have walk: "upk_json_parse_obj (json_lib two_documents) (run_conf two_documents) [(''StateDir'', JString dir)]
      (ctrl_stack t, st) = Inr (ctrl_stack t, st\<lparr>conf := (conf st)\<lparr>StateDir := take (UPK_MAX_STRING_LEN - 1) dir\<rparr>\<rparr>)"
    "upk_json_parse_obj (json_lib two_documents) (run_conf two_documents) [(''BuddyVerbosity'', JInt i)]
      (ctrl_stack t, st) = Inr (ctrl_stack t, st\<lparr>conf := (conf st)\<lparr>BuddyVerbosity := i\<rparr>\<rparr>)" for dir t st i
    by (simp_all add: ctrl_stack_def parse_scalar json_value_conf [OF two_documents_strings] ctrl_handlers_def
        only_objects_def casts keep_stack_def upk_ctrlconf_string_handler_def upk_ctrlconf_int_handler_def
        with_key_def ctrl_string_fields_def)
  have "?pack ''default'' st = Inr (st\<lparr>conf := (conf st)\<lparr>StateDir := ''/var/upk'', BuddyVerbosity := 1\<rparr>\<rparr>)" for st
    by (rule pack_settings [OF two_documents_strings,
          where ms = "[(''StateDir'', JString ''/var/upk'')] @ [(''BuddyVerbosity'', JInt 1)]" and n = 0])
      (simp add: two_documents_def, simp only: parse_obj_append walk bind_c_simps,
        simp add: UPK_MAX_STRING_LEN_def)
  moreover have "?pack ''x'' st = Inr (st\<lparr>conf := (conf st)\<lparr>StateDir := ''/srv''\<rparr>\<rparr>)" for st
    by (rule pack_settings [OF two_documents_strings, where ms = "[(''StateDir'', JString ''/srv'')]" and n = 0])
      (simp add: two_documents_def, simp only: walk, simp add: UPK_MAX_STRING_LEN_def)
  ultimately obtain s' where s': "upk_ctrl_load_config two_documents one_file ''default'' ''upkeeper.conf''
      program_start = Inr s'" "StateDir (file_conf s') = ''/srv''" "StateDir (default_conf s') = ''/var/upk''"
    by (simp add: upk_ctrl_load_config_def pack_into_def program_start_def zero_config_def one_file_def
        upk_config_loadfile_def chunks load_chunk_def Let_def upk_overlay_ctrlconf_values_def
        upk_svc_desc_clear_def)
  from load_config_runtime [OF s'(1)] s' show ?thesis
    by (simp add: program_start_def zero_config_def Let_def socket_path_def UPK_MAX_STRING_LEN_def
        UPK_MAX_PATH_LEN_def)
qed

end
