(* ===== verification/Upk_Config_Trip.thy ===== *)
theory Upk_Config_Trip
  imports Upk_Config_Read
begin

text \<open>
  Descriptions of services written as JSON by \<open>upk_svclist_to_json_obj\<close> and read back by the handlers of
  \<open>upk_config.c\<close>: what comes back, member by member, and for a whole list of services.
\<close>

section \<open>Reading into the last service of the list\<close>

definition loading ::
    "upk_controller_config \<Rightarrow> upk_svc_desc list \<Rightarrow> string option list \<Rightarrow> upk_svc_desc \<Rightarrow> cheap \<Rightarrow> conf_state" where
  "loading c ss al d h = \<lparr>conf = c\<lparr>svclist := Some (ss @ [d])\<rparr>, conf_heap = h, alerts = al\<rparr>"

lemma update_loading [simp]:
  "update_svc (Svc_entry (length ss)) f (loading c ss al d h) =
     bind_c (f d h) (\<lambda>(d, h). Inr (loading c ss al d h))"
  by (cases "f d h") (auto simp: update_svc_def get_svc_def put_svc_def loading_def split: prod.splits)

lemma get_loading [simp]: "get_svc (Svc_entry (length ss)) (loading c ss al d h) = Inr d"
  by (simp add: get_svc_def loading_def)

definition svc_node :: "upk_svc_desc list \<Rightarrow> (conf_data, conf_handler) upk_json_stack_node" where
  "svc_node ss = conf_node (D_service (Svc_entry (length ss))) upk_svcconf_setup_handlers"

text \<open>A walk over members of a description.\<close>

definition svc_walk ::
    "conf_env \<Rightarrow> (conf_data, conf_handler) jstack \<Rightarrow> upk_controller_config \<Rightarrow> upk_svc_desc list \<Rightarrow> string option list \<Rightarrow>
     (string \<times> json) list \<Rightarrow> upk_svc_desc \<Rightarrow> cheap \<Rightarrow> conf_walk cres" where
  "svc_walk env ns c ss al ms d h =
     upk_json_parse_obj (json_lib env) (run_conf env) ms (svc_node ss # ns, loading c ss al d h)"

lemma svc_walk_Nil [simp]: "svc_walk env ns c ss al [] d h = Inr (svc_node ss # ns, loading c ss al d h)"
  by (simp add: svc_walk_def)

lemma svc_container:
  assumes "c_strings (json_lib env)"
  shows "upk_json_value (json_lib env) (run_conf env) key (JArray js) (svc_node ss # ns, st) =
      upk_svcconf_array_handler (Svc_entry (length ss)) key (svc_node ss # ns, st)"
    and "upk_json_value (json_lib env) (run_conf env) key (JObject ms) (svc_node ss # ns, st) =
      upk_svcconf_nested_object_handler (Svc_entry (length ss)) key (svc_node ss # ns, st)"
  unfolding svc_node_def json_value_conf [OF assms] by (simp_all add: upk_svcconf_setup_handlers_def casts)

lemma svc_walk_scalar:
  assumes "c_strings (json_lib env)" and "scalar j"
    and "(case handler_for j upk_svcconf_setup_handlers of None \<Rightarrow> Inr (svc_node ss # ns, loading c ss al d h)
      | Some f \<Rightarrow> run_conf env f (D_service (Svc_entry (length ss))) (Some k) (val_of (json_lib env) j)
          (svc_node ss # ns, loading c ss al d h)) = Inr (svc_node ss # ns, loading c ss al d' h')"
  shows "svc_walk env ns c ss al ((k, j) # ms) d h = svc_walk env ns c ss al ms d' h'"
proof -
  have "upk_json_value (json_lib env) (run_conf env) (Some k) j (svc_node ss # ns, loading c ss al d h) =
      Inr (svc_node ss # ns, loading c ss al d' h')"
    using assms(3) unfolding svc_node_def json_value_conf [OF assms(1)] .
  then show ?thesis by (simp add: svc_walk_def parse_scalar [OF assms(2)])
qed

section \<open>Members\<close>

named_theorems members \<open>what reading a member does\<close>

lemma member_null [members]:
  "c_strings (json_lib env) \<Longrightarrow> svc_walk env ns c ss al ((k, JNull) # ms) d h = svc_walk env ns c ss al ms d h"
  by (rule svc_walk_scalar) (simp_all add: upk_svcconf_setup_handlers_def)

lemma member_int:
  assumes "lookup_key k svc_int_fields = Some store" and "c_strings (json_lib env)" and "store INT32_MIN d = d"
  shows "svc_walk env ns c ss al ((k, upk_json_serialize_or_null (Arg_int i)) # ms) d h =
    svc_walk env ns c ss al ms (store i d) h"
proof (cases "i = INT32_MIN")
  case False
  have "svc_walk env ns c ss al ((k, JInt i) # ms) d h = svc_walk env ns c ss al ms (store i d) h"
    by (rule svc_walk_scalar [OF assms(2)])
      (simp_all add: upk_svcconf_setup_handlers_def casts keep_stack_def upk_svcconf_int_handler_def
        with_key_def assms(1))
  with False show ?thesis by simp
qed (simp add: member_null assms)

definition truth :: "u8 \<Rightarrow> u8" where
  "truth b = (if b = INT8_MIN then b else if b \<noteq> 0 then 1 else 0)"

lemma member_bool:
  assumes "lookup_key k svc_bool_fields = Some store" and "c_strings (json_lib env)" and "store INT8_MIN d = d"
  shows "svc_walk env ns c ss al ((k, upk_json_serialize_or_null (Arg_boolean b)) # ms) d h =
    svc_walk env ns c ss al ms (store (truth b) d) h"
proof (cases "b = INT8_MIN")
  case False
  have "svc_walk env ns c ss al ((k, JBool (b \<noteq> 0)) # ms) d h = svc_walk env ns c ss al ms (store (truth b) d) h"
    by (rule svc_walk_scalar [OF assms(2)])
      (simp_all add: upk_svcconf_setup_handlers_def casts keep_stack_def upk_svcconf_bool_handler_def
        with_key_def assms(1) truth_def False)
  with False show ?thesis by simp
qed (simp add: member_null assms truth_def)

lemma member_array:
  assumes "lookup_key k svc_array_fields = Some (sz, store)" and "c_strings (json_lib env)"
    and "store '''' d = d" and "length s < sz"
  shows "svc_walk env ns c ss al ((k, upk_json_serialize_or_null (Arg_string (Some s))) # ms) d h =
    svc_walk env ns c ss al ms (store s d) h"
proof (cases "s = ''''")
  case False
  have "svc_walk env ns c ss al ((k, JString s) # ms) d h = svc_walk env ns c ss al ms (store s d) h"
    by (rule svc_walk_scalar [OF assms(2)])
      (use assms in \<open>simp_all add: upk_svcconf_setup_handlers_def casts keep_stack_def
        upk_svcconf_string_handler_def with_key_def\<close>)
  with False show ?thesis by simp
qed (simp add: member_null assms)

text \<open>An empty script is not written; the others are copied to new strings.\<close>

definition copy_text :: "string option \<Rightarrow> cheap \<Rightarrow> cptr \<times> cheap" where
  "copy_text t h = (case t of None \<Rightarrow> (None, h) | Some s \<Rightarrow> if s = '''' then (None, h) else cstr_new s h)"

lemma member_script:
  assumes "lookup_key k svc_script_fields = Some store" and "lookup_key k svc_array_fields = None"
    and "\<not> same_word k ''UUID''" and "\<not> same_word k ''LongDescription''"
    and "c_strings (json_lib env)" and "store None d = d"
  shows "svc_walk env ns c ss al ((k, upk_json_serialize_or_null (Arg_string t)) # ms) d h =
    svc_walk env ns c ss al ms (store (fst (copy_text t h)) d) (snd (copy_text t h))"
proof (cases "t = None \<or> t = Some ''''")
  case False
  then obtain s where s: "t = Some s" "s \<noteq> ''''" by auto
  have "svc_walk env ns c ss al ((k, JString s) # ms) d h =
      svc_walk env ns c ss al ms (store (fst (copy_text t h)) d) (snd (copy_text t h))"
    by (rule svc_walk_scalar [OF assms(5)])
      (simp_all add: upk_svcconf_setup_handlers_def casts keep_stack_def s copy_text_def set_script_def
        upk_svcconf_string_handler_def with_key_def assms split: prod.split)
  with s show ?thesis by simp
qed (auto simp: member_null assms copy_text_def)

lemma member_long:
  assumes "c_strings (json_lib env)" and "LongDescription d = None" and "case t of None \<Rightarrow> True | Some s \<Rightarrow> length s \<le> 16384"
  shows "svc_walk env ns c ss al ((''LongDescription'', upk_json_serialize_or_null (Arg_string t)) # ms) d h =
    svc_walk env ns c ss al ms (d\<lparr>LongDescription := fst (copy_text t h)\<rparr>) (snd (copy_text t h))"
proof (cases "t = None \<or> t = Some ''''")
  case False
  then obtain s where s: "t = Some s" "s \<noteq> ''''" by auto
  have "lookup_key ''LongDescription'' svc_array_fields = None" by (simp add: svc_array_fields_def to_lower_def)
  moreover have "\<not> same_word ''LongDescription'' ''UUID''" by (simp add: to_lower_def)
  moreover have "same_word ''LongDescription'' ''LongDescription''" by simp
  ultimately have "svc_walk env ns c ss al ((''LongDescription'', JString s) # ms) d h =
      svc_walk env ns c ss al ms (d\<lparr>LongDescription := fst (copy_text t h)\<rparr>) (snd (copy_text t h))"
    using assms(3) by (intro svc_walk_scalar [OF assms(1)])
      (simp_all add: upk_svcconf_setup_handlers_def casts keep_stack_def s copy_text_def set_script_def
        set_long_description_def upk_svcconf_string_handler_def with_key_def del: same_word.simps split: prod.split)
  with s show ?thesis by simp
next
  case True
  have same: "d\<lparr>LongDescription := None\<rparr> = d" using assms(2) by (cases d) simp
  from True have "fst (copy_text t h) = None" "snd (copy_text t h) = h" by (auto simp: copy_text_def)
  moreover from True have "upk_json_serialize_or_null (Arg_string t) = JNull" by auto
  ultimately show ?thesis by (simp only: same member_null [OF assms(1)])
qed

declare upk_json_serialize_or_null.simps [simp del]

subsection \<open>Lists of identifiers\<close>

definition read_ids :: "string list \<Rightarrow> upk_svcid list option" where
  "read_ids ts = (if ts = [] then None else Some (map read_svcid ts))"

definition ids_node :: "upk_svc_desc list \<Rightarrow> id_list \<Rightarrow> (conf_data, conf_handler) upk_json_stack_node" where
  "ids_node ss l = conf_node (D_ids (Svc_entry (length ss)) l) upk_svcconf_setup_array_handlers"

lemma map_ids_twice [simp]: "map_ids l f (map_ids l g d) = map_ids l (\<lambda>x. f (g x)) d"
  by (cases l) (simp_all add: map_ids_def)

lemma ids_of_map [simp]: "ids_of l (map_ids l f d) = f (ids_of l d)"
  by (cases l) (simp_all add: map_ids_def ids_of_def)

lemma map_ids_same: "f (ids_of l d) = ids_of l d \<Longrightarrow> map_ids l f d = d"
  by (cases l; cases d) (simp_all add: map_ids_def ids_of_def)

lemma ids_elements:
  assumes "c_strings (json_lib env)"
  shows "ids_of l d = Some ids \<Longrightarrow>
    upk_json_parse_array (json_lib env) (run_conf env) (map JString ts) (ids_node ss l # ns, loading c ss al d h) =
    Inr (ids_node ss l # ns, loading c ss al (map_ids l (\<lambda>_. Some (ids @ map read_svcid ts)) d) h)"
proof (induction ts arbitrary: d ids)
  case Nil
  then show ?case by (simp add: map_ids_same)
next
  case (Cons t ts)
  have "upk_json_parse_node (json_lib env) (run_conf env) None (JString t) (ids_node ss l # ns, loading c ss al d h) =
      Inr (ids_node ss l # ns, loading c ss al (map_ids l (\<lambda>_. Some (ids @ [read_svcid t])) d) h)"
    using Cons.prems by (simp add: ids_node_def parse_scalar json_value_conf [OF assms] only_strings_def casts
        upk_svcconf_setup_array_handlers_def keep_stack_def upk_svcconf_svcid_array_appender_def)
  with Cons.IH [of "map_ids l (\<lambda>_. Some (ids @ [read_svcid t])) d" "ids @ [read_svcid t]"] show ?case by simp
qed

lemma svc_node_quiet [simp]:
  "call_handler run after_json_obj_pop key v (svc_node ss # ns, st) = Inr (svc_node ss # ns, st)"
  "call_handler run after_json_array_pop key v (svc_node ss # ns, st) = Inr (svc_node ss # ns, st)"
  by (simp_all add: call_handler_def svc_node_def conf_node_def upk_svcconf_setup_handlers_def)

definition names_ids :: "string \<Rightarrow> id_list \<Rightarrow> bool" where
  "names_ids k l \<longleftrightarrow> (case l of Ids_provides \<Rightarrow> same_word k ''Provides''
     | Ids_prerequisites \<Rightarrow> same_word k ''Prerequisites'' \<and> \<not> same_word k ''Provides'')"

lemma member_ids:
  assumes "c_strings (json_lib env)" and "names_ids k l" and "ids_of l d = None"
  shows "svc_walk env ns c ss al ((k, upk_json_serialize_or_null (Arg_array (map JString ts))) # ms) d h =
    svc_walk env ns c ss al ms (map_ids l (\<lambda>_. read_ids ts) d) h"
proof (cases "ts = []")
  case True
  have "map_ids l (\<lambda>_. None) d = d" by (simp add: map_ids_same assms(3))
  with True show ?thesis by (simp add: member_null assms(1) read_ids_def upk_json_serialize_or_null.simps)
next
  case False
  let ?d = "map_ids l (\<lambda>_. Some []) d"
  have push: "push_ids (Svc_entry (length ss)) l (svc_node ss # ns, loading c ss al d h) =
      Inr (ids_node ss l # svc_node ss # ns, loading c ss al ?d h)"
    using assms(3) by (cases l) (simp_all add: push_ids_def map_ids_def ids_of_def upk_json_stack_push_def ids_node_def)
  have "upk_svcconf_array_handler (Svc_entry (length ss)) (Some k) (svc_node ss # ns, loading c ss al d h) =
      Inr (ids_node ss l # svc_node ss # ns, loading c ss al ?d h)"
    using assms(2) push by (cases l) (simp_all add: upk_svcconf_array_handler_def with_key_def names_ids_def)
  then have "upk_json_value (json_lib env) (run_conf env) (Some k) (JArray (map JString ts))
      (svc_node ss # ns, loading c ss al d h) = Inr (ids_node ss l # svc_node ss # ns, loading c ss al ?d h)"
    by (simp add: svc_container [OF assms(1)])
  moreover have "upk_json_parse_array (json_lib env) (run_conf env) (map JString ts)
      (ids_node ss l # svc_node ss # ns, loading c ss al ?d h) =
      Inr (ids_node ss l # svc_node ss # ns, loading c ss al (map_ids l (\<lambda>_. Some (map read_svcid ts)) d) h)"
    using ids_elements [OF assms(1), of l ?d "[]"] by simp
  ultimately show ?thesis using False
    by (simp add: svc_walk_def upk_json_serialize_or_null.simps upk_json_parse_node.simps upk_json_stack_pop_def
        read_ids_def)
qed

subsection \<open>Custom actions\<close>

fun copy_named :: "(string \<times> string) list \<Rightarrow> cheap \<Rightarrow> upk_cust_actscr list \<times> cheap" where
  "copy_named [] h = ([], h)"
| "copy_named ((k, s) # as) h =
     (let (p, h) = cstr_new s h; (bs, h) = copy_named as h in
      (\<lparr>act_name = take (UPK_MAX_STRING_LEN - 1) k, act_script = p\<rparr> # bs, h))"

definition actions_node :: "upk_svc_desc list \<Rightarrow> (conf_data, conf_handler) upk_json_stack_node" where
  "actions_node ss = conf_node (D_actions (Svc_entry (length ss))) upk_svcconf_setup_object_handlers"

definition action_texts :: "(string \<times> string) list \<Rightarrow> (string \<times> json) list" where
  "action_texts as = map (\<lambda>(k, s). (k, JString s)) as"

lemma actions_members:
  assumes "c_strings (json_lib env)"
  shows "CustomActions d = Some bs \<Longrightarrow>
    upk_json_parse_obj (json_lib env) (run_conf env) (action_texts as) (actions_node ss # ns, loading c ss al d h) =
    Inr (actions_node ss # ns, loading c ss al (d\<lparr>CustomActions := Some (bs @ fst (copy_named as h))\<rparr>)
      (snd (copy_named as h)))"
proof (induction as arbitrary: d bs h)
  case Nil
  then have "d\<lparr>CustomActions := Some bs\<rparr> = d" by (cases d) simp
  then show ?case by (simp add: action_texts_def)
next
  case (Cons a as)
  obtain k s where a: "a = (k, s)" by (cases a)
  obtain p h1 where new: "cstr_new s h = (p, h1)" by (cases "cstr_new s h")
  let ?b = "\<lparr>act_name = take (UPK_MAX_STRING_LEN - 1) k, act_script = p\<rparr>"
  have "upk_json_parse_node (json_lib env) (run_conf env) (Some k) (JString s)
      (actions_node ss # ns, loading c ss al d h) =
      Inr (actions_node ss # ns, loading c ss al (d\<lparr>CustomActions := Some (bs @ [?b])\<rparr>) h1)"
    using Cons.prems new by (simp add: actions_node_def parse_scalar json_value_conf [OF assms] only_strings_def casts
        upk_svcconf_setup_object_handlers_def keep_stack_def upk_svcconf_customaction_array_appender_def with_key_def
        set_script_def)
  with Cons.IH [of "d\<lparr>CustomActions := Some (bs @ [?b])\<rparr>" "bs @ [?b]" h1] show ?case
    by (simp add: a new action_texts_def split: prod.split)
qed

lemma member_actions:
  assumes "c_strings (json_lib env)" and "CustomActions d = None" and "copy_named as h = (bs, h')"
  shows "svc_walk env ns c ss al ((''CustomActions'', upk_json_serialize_or_null (Arg_object (action_texts as))) # ms) d h =
    svc_walk env ns c ss al ms (d\<lparr>CustomActions := (if as = [] then None else Some bs)\<rparr>) h'"
proof (cases "as = []")
  case True
  have "d\<lparr>CustomActions := None\<rparr> = d" using assms(2) by (cases d) simp
  with True assms(3) show ?thesis
    by (simp add: member_null assms(1) upk_json_serialize_or_null.simps action_texts_def)
next
  case False
  let ?d = "d\<lparr>CustomActions := Some []\<rparr>" and ?ms = "action_texts as"
  have "upk_json_value (json_lib env) (run_conf env) (Some ''CustomActions'') (JObject ?ms)
      (svc_node ss # ns, loading c ss al d h) = Inr (actions_node ss # svc_node ss # ns, loading c ss al ?d h)"
    using assms(2) by (simp add: svc_container [OF assms(1)] upk_svcconf_nested_object_handler_def with_key_def
        upk_json_stack_push_def actions_node_def)
  moreover have "upk_json_parse_obj (json_lib env) (run_conf env) ?ms
      (actions_node ss # svc_node ss # ns, loading c ss al ?d h) =
      Inr (actions_node ss # svc_node ss # ns, loading c ss al (d\<lparr>CustomActions := Some bs\<rparr>) h')"
    using actions_members [OF assms(1), of ?d "[]"] assms(3) by simp
  ultimately show ?thesis using False
    by (simp add: svc_walk_def upk_json_serialize_or_null.simps upk_json_parse_node.simps upk_json_stack_pop_def
        action_texts_def)
qed

section \<open>The members of a description\<close>

lemma int_keys:
  "lookup_key ''StartPriority'' svc_int_fields = Some (\<lambda>i d. d\<lparr>StartPriority := i\<rparr>)"
  "lookup_key ''KillTimeout'' svc_int_fields = Some (\<lambda>i d. d\<lparr>KillTimeout := i\<rparr>)"
  "lookup_key ''MaxConsecutiveFailures'' svc_int_fields = Some (\<lambda>i d. d\<lparr>MaxConsecutiveFailures := i\<rparr>)"
  "lookup_key ''UserMaxRestarts'' svc_int_fields = Some (\<lambda>i d. d\<lparr>UserMaxRestarts := i\<rparr>)"
  "lookup_key ''UserRestartWindow'' svc_int_fields = Some (\<lambda>i d. d\<lparr>UserRestartWindow := i\<rparr>)"
  "lookup_key ''UserRateLimit'' svc_int_fields = Some (\<lambda>i d. d\<lparr>UserRateLimit := i\<rparr>)"
  "lookup_key ''SetUID'' svc_int_fields = Some (\<lambda>i d. d\<lparr>SetUID := i\<rparr>)"
  "lookup_key ''SetGID'' svc_int_fields = Some (\<lambda>i d. d\<lparr>SetGID := i\<rparr>)"
  "lookup_key ''RingbufferSize'' svc_int_fields = Some (\<lambda>i d. d\<lparr>RingbufferSize := scast i\<rparr>)"
  "lookup_key ''ReconnectRetries'' svc_int_fields = Some (\<lambda>i d. d\<lparr>ReconnectRetries := i\<rparr>)"
  by (simp_all add: svc_int_fields_def to_lower_def)

lemma bool_keys:
  "lookup_key ''RandomizeRateLimit'' svc_bool_fields = Some (\<lambda>b d. d\<lparr>RandomizeRateLimit := b\<rparr>)"
  "lookup_key ''UnconfigureOnFileRemoval'' svc_bool_fields = Some (\<lambda>b d. d\<lparr>UnconfigureOnFileRemoval := b\<rparr>)"
  "lookup_key ''PreferBuddyStateForStopped'' svc_bool_fields = Some (\<lambda>b d. d\<lparr>PreferBuddyStateForStopped := b\<rparr>)"
  "lookup_key ''PreferBuddyStateForRunning'' svc_bool_fields = Some (\<lambda>b d. d\<lparr>PreferBuddyStateForRunning := b\<rparr>)"
  by (simp_all add: svc_bool_fields_def to_lower_def)

lemma array_keys:
  "lookup_key ''Package'' svc_array_fields = Some (UPK_MAX_STRING_LEN, \<lambda>s d. d\<lparr>Package := s\<rparr>)"
  "lookup_key ''ShortDescription'' svc_array_fields = Some (UPK_MAX_STRING_LEN, \<lambda>s d. d\<lparr>ShortDescription := s\<rparr>)"
  "lookup_key ''ExecStart'' svc_array_fields = Some (UPK_MAX_PATH_LEN, \<lambda>s d. d\<lparr>ExecStart := s\<rparr>)"
  "lookup_key ''ExecStop'' svc_array_fields = Some (UPK_MAX_PATH_LEN, \<lambda>s d. d\<lparr>ExecStop := s\<rparr>)"
  "lookup_key ''ExecReload'' svc_array_fields = Some (UPK_MAX_PATH_LEN, \<lambda>s d. d\<lparr>ExecReload := s\<rparr>)"
  "lookup_key ''RedirectStdout'' svc_array_fields = Some (UPK_MAX_PATH_LEN, \<lambda>s d. d\<lparr>RedirectStdout := s\<rparr>)"
  "lookup_key ''RedirectStderr'' svc_array_fields = Some (UPK_MAX_PATH_LEN, \<lambda>s d. d\<lparr>RedirectStderr := s\<rparr>)"
  by (simp_all add: svc_array_fields_def to_lower_def)

lemma script_keys:
  "lookup_key ''StartScript'' svc_script_fields = Some (\<lambda>p d. d\<lparr>StartScript := p\<rparr>)"
  "lookup_key ''StopScript'' svc_script_fields = Some (\<lambda>p d. d\<lparr>StopScript := p\<rparr>)"
  "lookup_key ''ReloadScript'' svc_script_fields = Some (\<lambda>p d. d\<lparr>ReloadScript := p\<rparr>)"
  "lookup_key ''PipeStdoutScript'' svc_script_fields = Some (\<lambda>p d. d\<lparr>PipeStdoutScript := p\<rparr>)"
  "lookup_key ''PipeStderrScript'' svc_script_fields = Some (\<lambda>p d. d\<lparr>PipeStderrScript := p\<rparr>)"
  by (simp_all add: svc_script_fields_def to_lower_def)

definition copied_key :: "string \<Rightarrow> bool" where
  "copied_key k \<longleftrightarrow> lookup_key k svc_array_fields = None \<and> \<not> same_word k ''UUID'' \<and> \<not> same_word k ''LongDescription''"

lemma copied_keys:
  "copied_key ''StartScript''" "copied_key ''StopScript''" "copied_key ''ReloadScript''"
  "copied_key ''PipeStdoutScript''" "copied_key ''PipeStderrScript''"
  by (simp_all add: copied_key_def svc_array_fields_def to_lower_def)

lemma member_copied:
  assumes "lookup_key k svc_script_fields = Some store" and "copied_key k"
    and "c_strings (json_lib env)" and "store None d = d" and "copy_text t h = (p, h')"
  shows "svc_walk env ns c ss al ((k, upk_json_serialize_or_null (Arg_string t)) # ms) d h =
    svc_walk env ns c ss al ms (store p d) h'"
  using member_script [OF assms(1) _ _ _ assms(3,4), of ns c ss al t ms h] assms(2,5)
  by (simp add: copied_key_def)

lemma member_package:
  assumes "c_strings (json_lib env)" and "Package d = s" and "length s < UPK_MAX_STRING_LEN"
  shows "svc_walk env ns c ss al ((''Package'', upk_json_serialize_or_null (Arg_string (Some s))) # ms) d h =
    svc_walk env ns c ss al ms d h"
proof -
  have same: "d\<lparr>Package := s\<rparr> = d" using assms(2) by (cases d) simp
  show ?thesis
  proof (cases "s = ''''")
    case False
    have "svc_walk env ns c ss al ((''Package'', JString s) # ms) d h = svc_walk env ns c ss al ms d h"
      by (rule svc_walk_scalar [OF assms(1)]) (use assms(3) in \<open>simp_all add: upk_svcconf_setup_handlers_def casts
        keep_stack_def upk_svcconf_string_handler_def with_key_def array_keys same\<close>)
    with False show ?thesis by (simp add: upk_json_serialize_or_null.simps)
  qed (simp add: member_null assms upk_json_serialize_or_null.simps)
qed

text \<open>A stopped service comes back as one that is shut down; other states are not written.\<close>

definition state_back :: "upk_state \<Rightarrow> upk_state" where
  "state_back s =
     (case s of UPK_STATE_RUNNING \<Rightarrow> UPK_STATE_RUNNING | UPK_STATE_STOPPED \<Rightarrow> UPK_STATE_SHUTDOWN
      | _ \<Rightarrow> UPK_STATE_UNDEFINED)"

lemma member_state:
  assumes "c_strings (json_lib env)" and "InitialState d = UPK_STATE_UNDEFINED"
  shows "svc_walk env ns c ss al ((''InitialState'', initial_state_json s) # ms) d h =
    svc_walk env ns c ss al ms (d\<lparr>InitialState := state_back s\<rparr>) h"
proof -
  have same: "d\<lparr>InitialState := UPK_STATE_UNDEFINED\<rparr> = d" using assms(2) by (cases d) simp
  have keys: "lookup_key ''InitialState'' svc_array_fields = None" "lookup_key ''InitialState'' svc_script_fields = None"
    "\<not> same_word ''InitialState'' ''UUID''" "\<not> same_word ''InitialState'' ''LongDescription''"
    by (simp_all add: svc_array_fields_def svc_script_fields_def to_lower_def)
  have "svc_walk env ns c ss al ((''InitialState'', JString t) # ms) d h =
    svc_walk env ns c ss al ms (d\<lparr>InitialState := initial_state t\<rparr>) h" for t
    by (rule svc_walk_scalar [OF assms(1)]) (simp_all add: upk_svcconf_setup_handlers_def casts keep_stack_def
        upk_svcconf_string_handler_def with_key_def keys del: same_word.simps, simp)
  then show ?thesis
    by (cases s) (simp_all add: initial_state_json_def state_back_def member_null assms(1) same,
      simp_all add: initial_state_def to_lower_def)
qed

text \<open>What comes back of a description, apart from its lists and the strings on the heap: the size of the ring
  as a signed 32-bit number, truth values as 0 or 1, and only the fields that are written.\<close>

definition read_back :: "upk_svc_desc \<Rightarrow> upk_svc_desc" where
  "read_back svc = upk_svc_desc_clear\<lparr>
     Name := Name svc, Package := Package svc, ShortDescription := ShortDescription svc,
     StartPriority := StartPriority svc, KillTimeout := KillTimeout svc,
     MaxConsecutiveFailures := MaxConsecutiveFailures svc, UserMaxRestarts := UserMaxRestarts svc,
     UserRestartWindow := UserRestartWindow svc, UserRateLimit := UserRateLimit svc,
     RandomizeRateLimit := truth (RandomizeRateLimit svc), SetUID := SetUID svc, SetGID := SetGID svc,
     RingbufferSize := scast (ucast (RingbufferSize svc) :: u32), ReconnectRetries := ReconnectRetries svc,
     ExecStart := ExecStart svc, ExecStop := ExecStop svc, ExecReload := ExecReload svc,
     RedirectStdout := RedirectStdout svc, RedirectStderr := RedirectStderr svc,
     InitialState := state_back (InitialState svc),
     UnconfigureOnFileRemoval := truth (UnconfigureOnFileRemoval svc),
     PreferBuddyStateForStopped := truth (PreferBuddyStateForStopped svc),
     PreferBuddyStateForRunning := truth (PreferBuddyStateForRunning svc)\<rparr>"

definition fits :: "upk_svc_desc \<Rightarrow> bool" where
  "fits svc \<longleftrightarrow> length (Package svc) < UPK_MAX_STRING_LEN \<and> length (ShortDescription svc) < UPK_MAX_STRING_LEN \<and>
     length (ExecStart svc) < UPK_MAX_PATH_LEN \<and> length (ExecStop svc) < UPK_MAX_PATH_LEN \<and>
     length (ExecReload svc) < UPK_MAX_PATH_LEN \<and> length (RedirectStdout svc) < UPK_MAX_PATH_LEN \<and>
     length (RedirectStderr svc) < UPK_MAX_PATH_LEN"

lemma INT32_MIN_ring: "scast INT32_MIN = INT32_MIN_size"
  by (simp add: INT32_MIN_def INT32_MIN_size_def)

lemma service_walk:
  assumes "c_strings (json_lib env)" and "fits svc" and "case t0 of None \<Rightarrow> True | Some s \<Rightarrow> length s \<le> 16384"
    and "copy_text t0 h = (p0, h0)" and "copy_text t1 h0 = (p1, h1)" and "copy_text t2 h1 = (p2, h2)"
    and "copy_text t3 h2 = (p3, h3)" and "copy_named as h3 = (bs, h4)" and "copy_text t4 h4 = (p4, h5)"
    and "copy_text t5 h5 = (p5, h6)"
  shows "svc_walk env ns c ss al
      (map (\<lambda>(k, arg). (k, upk_json_serialize_or_null arg))
        (svc_members svc (map JString pv) (map JString pr) (action_texts as) [t0, t1, t2, t3, t4, t5]) @
       svc_members_end svc) (upk_svc_desc_clear\<lparr>Package := Package svc, Name := Name svc\<rparr>) h =
    Inr (svc_node ss # ns, loading c ss al ((read_back svc)\<lparr>Provides := read_ids pv, Prerequisites := read_ids pr,
      LongDescription := p0, StartScript := p1, StopScript := p2, ReloadScript := p3,
      CustomActions := (if as = [] then None else Some bs), PipeStdoutScript := p4, PipeStderrScript := p5\<rparr>) h6)"
proof -
  note c = assms(1)
  have long: "svc_walk env ns c ss al ((''LongDescription'', upk_json_serialize_or_null (Arg_string t0)) # ms) d h =
      svc_walk env ns c ss al ms (d\<lparr>LongDescription := p0\<rparr>) h0" if "LongDescription d = None" for d ms
    using member_long [OF c that assms(3), of ns c ss al ms h] assms(4) by simp
  have uuid: "upk_json_serialize_or_null (Arg_string (Some '''')) = JNull"
    by (simp add: upk_json_serialize_or_null.simps)
  have ids: "names_ids ''Provides'' Ids_provides" "names_ids ''Prerequisites'' Ids_prerequisites"
    by (simp_all add: names_ids_def to_lower_def)
  note members = member_package [OF c] member_null [OF c] member_state [OF c]
    int_keys [THEN member_int, OF c] bool_keys [THEN member_bool, OF c]
    array_keys(2-) [THEN member_array, OF c] long member_actions [OF c _ assms(8)]
    member_ids [OF c ids(1)] member_ids [OF c ids(2)]
    member_copied [OF script_keys(1) copied_keys(1) c _ assms(5)]
    member_copied [OF script_keys(2) copied_keys(2) c _ assms(6)]
    member_copied [OF script_keys(3) copied_keys(3) c _ assms(7)]
    member_copied [OF script_keys(4) copied_keys(4) c _ assms(9)]
    member_copied [OF script_keys(5) copied_keys(5) c _ assms(10)]
  show ?thesis
    using assms(2) unfolding fits_def
    by (simp add: svc_members_def svc_members_end_def uuid members ids_of_def map_ids_def upk_svc_desc_clear_def
        read_back_def INT32_MIN_ring del: same_word.simps lookup_key.simps)
qed

section \<open>Strings\<close>

definition ptr_text :: "cheap \<Rightarrow> cptr \<Rightarrow> string option" where
  "ptr_text h p = (case p of None \<Rightarrow> None | Some a \<Rightarrow> strings h a)"

definition allocated :: "cheap \<Rightarrow> cptr \<Rightarrow> bool" where
  "allocated h p \<longleftrightarrow> (case p of None \<Rightarrow> True | Some a \<Rightarrow> a < brk h)"

text \<open>A later heap has new strings and the old ones.\<close>

definition extends :: "cheap \<Rightarrow> cheap \<Rightarrow> bool" where
  "extends h h' \<longleftrightarrow> brk h \<le> brk h' \<and> (\<forall>a<brk h. strings h' a = strings h a)"

lemma extends_refl [simp]: "extends h h"
  by (simp add: extends_def)

lemma extends_trans [trans]: "extends h h1 \<Longrightarrow> extends h1 h2 \<Longrightarrow> extends h h2"
  by (auto simp: extends_def)

lemma extends_text: "extends h h' \<Longrightarrow> allocated h p \<Longrightarrow> ptr_text h' p = ptr_text h p \<and> allocated h' p"
  by (auto simp: extends_def allocated_def ptr_text_def split: option.splits)

text \<open>An empty string is read back as a null pointer.\<close>

definition not_empty :: "string option \<Rightarrow> string option" where
  "not_empty t = (if t = Some '''' then None else t)"

lemma copy_text_spec:
  "copy_text t h = (p, h') \<Longrightarrow> extends h h' \<and> allocated h' p \<and> ptr_text h' p = not_empty t"
  by (auto simp: copy_text_def cstr_new_def extends_def allocated_def ptr_text_def not_empty_def
      split: option.splits if_splits)

definition named_texts :: "cheap \<Rightarrow> upk_cust_actscr list \<Rightarrow> (string \<times> string option) list" where
  "named_texts h as = map (\<lambda>a. (act_name a, ptr_text h (act_script a))) as"

lemma extends_named:
  "extends h h' \<Longrightarrow> \<forall>a\<in>set as. allocated h (act_script a) \<Longrightarrow>
    named_texts h' as = named_texts h as \<and> (\<forall>a\<in>set as. allocated h' (act_script a))"
  by (auto simp: named_texts_def dest: extends_text)

lemma copy_named_spec:
  "\<forall>a\<in>set as. length (fst a) < UPK_MAX_STRING_LEN \<Longrightarrow> copy_named as h = (bs, h') \<Longrightarrow>
    extends h h' \<and> (\<forall>b\<in>set bs. allocated h' (act_script b)) \<and>
    named_texts h' bs = map (\<lambda>(k, s). (k, Some s)) as"
proof (induction as arbitrary: h bs)
  case Nil
  then show ?case by (simp add: named_texts_def)
next
  case (Cons a as)
  obtain k s where a: "a = (k, s)" by (cases a)
  obtain p h1 where new: "cstr_new s h = (p, h1)" by (cases "cstr_new s h")
  obtain bs1 where bs1: "copy_named as h1 = (bs1, h')"
      "bs = \<lparr>act_name = take (UPK_MAX_STRING_LEN - 1) k, act_script = p\<rparr> # bs1"
    using Cons.prems(2) by (auto simp: a new split: prod.splits)
  have p: "extends h h1" "allocated h1 p" "ptr_text h1 p = Some s"
    using new by (auto simp: cstr_new_def extends_def allocated_def ptr_text_def)
  have rest: "extends h1 h'" "\<forall>b\<in>set bs1. allocated h' (act_script b)"
    "named_texts h' bs1 = map (\<lambda>(k, s). (k, Some s)) as"
    using Cons.IH [OF _ bs1(1)] Cons.prems(1) by auto
  with p extends_text [OF rest(1) p(2)] Cons.prems(1) show ?case
    by (auto simp: bs1(2) a named_texts_def intro: extends_trans)
qed

section \<open>Writing\<close>

definition text_ptrs :: "upk_svc_desc \<Rightarrow> cptr list" where
  "text_ptrs d = [LongDescription d, StartScript d, StopScript d, ReloadScript d, PipeStdoutScript d, PipeStderrScript d]"

definition readable :: "cheap \<Rightarrow> cptr \<Rightarrow> bool" where
  "readable h p \<longleftrightarrow> p = None \<or> ptr_text h p \<noteq> None"

lemma script_texts_readable:
  "\<forall>p\<in>set ps. readable h p \<Longrightarrow> script_texts h ps = Inr (map (ptr_text h) ps)"
  by (induction ps) (auto simp: readable_def script_text_def ptr_text_def cstr_read_def split: option.splits)

definition id_text :: "upk_svcid \<Rightarrow> string" where
  "id_text i = (if svcid_pkg i = '''' then svcid_name i else svcid_pkg i @ ''::'' @ svcid_name i)"

definition id_fits :: "upk_svcid \<Rightarrow> bool" where
  "id_fits i \<longleftrightarrow> length (svcid_pkg i) + length (svcid_name i) + 2 < UPK_MAX_STRING_LEN"

lemma svcid_array_texts: "\<forall>i\<in>set is. id_fits i \<Longrightarrow> svcid_array is = Inr (map JString (map id_text is))"
proof (induction "is")
  case (Cons i "is")
  have "upk_concat_svcid (svcid_pkg i) (svcid_name i) = Inr (id_text i)"
  proof (cases "svcid_pkg i = ''''")
    case True
    with Cons.prems show ?thesis by (simp add: upk_concat_svcid_def id_text_def id_fits_def UPK_MAX_STRING_LEN_def)
  next
    case False
    with Cons.prems show ?thesis by (simp add: concat_svcid_fits id_text_def id_fits_def)
  qed
  with Cons show ?case by simp
qed simp

text \<open>What is hypothesised of json-c: a member under a new name goes to the end of the object.\<close>

definition appends :: "json_c \<Rightarrow> bool" where
  "appends jc \<longleftrightarrow> (\<forall>ms k v. k \<notin> fst ` set ms \<longrightarrow> object_add jc ms k v = ms @ [(k, v)])"

lemma add_all_distinct: "appends jc \<Longrightarrow> distinct (map fst kvs) \<Longrightarrow> add_all jc kvs = kvs"
proof (induction kvs rule: rev_induct)
  case (snoc kv kvs)
  then show ?case by (cases kv) (auto simp: add_all_def appends_def)
qed (simp add: add_all_def)

definition actions_of :: "cheap \<Rightarrow> upk_svc_desc \<Rightarrow> (string \<times> string option) list" where
  "actions_of h d = named_texts h (list_or_empty (CustomActions d))"

lemma action_members_texts:
  assumes "appends jc"
  shows "\<forall>a\<in>set as. ptr_text h (act_script a) \<noteq> None \<Longrightarrow>
    distinct (map fst ms @ map act_name as) \<Longrightarrow>
    action_members jc h as ms = Inr (ms @ action_texts (map (\<lambda>(k, t). (k, the t)) (named_texts h as)))"
proof (induction as arbitrary: ms)
  case (Cons a as)
  obtain s where s: "ptr_text h (act_script a) = Some s" using Cons.prems(1) by auto
  then have "cstr_read h (act_script a) = Inr s" by (auto simp: cstr_read_def ptr_text_def split: option.splits)
  moreover have "object_add jc ms (act_name a) (JString s) = ms @ [(act_name a, JString s)]"
    using assms Cons.prems(2) unfolding appends_def by (metis (no_types, lifting) append_Cons_eq_iff append_Nil disjoint_iff distinct_append image_eqI list.set_intros(1) list.set_map list.simps(9))
  ultimately show ?case using Cons.IH [of "ms @ [(act_name a, JString s)]"] Cons.prems
    by (auto simp: action_texts_def named_texts_def s)
qed (simp add: action_texts_def named_texts_def)

section \<open>One description\<close>

text \<open>An identifier with a package comes back with a colon in front of its name: the reader looks for one
  colon where the writer puts two.\<close>

definition id_back :: "upk_svcid \<Rightarrow> upk_svcid" where
  "id_back i = (if svcid_pkg i = '''' then i else i\<lparr>svcid_name := CHR '':'' # svcid_name i\<rparr>)"

definition id_ok :: "upk_svcid \<Rightarrow> bool" where
  "id_ok i \<longleftrightarrow> id_fits i \<and> CHR '':'' \<notin> set (svcid_pkg i) \<and>
     (svcid_pkg i = '''' \<longrightarrow> CHR '':'' \<notin> set (svcid_name i) \<and> \<not> same_word (take 5 (svcid_name i)) ''uuid#'')"

lemma read_id_text: "id_ok i \<Longrightarrow> read_svcid (id_text i) = id_back i"
proof (cases i)
  case (fields name pkg)
  assume ok: "id_ok i"
  show ?thesis
  proof (cases "pkg = ''''")
    case True
    then have plain: "takeWhile (\<lambda>c. c \<noteq> CHR '':'') name = name"
      using ok fields by (auto simp: id_ok_def takeWhile_eq_all_conv)
    show ?thesis using True ok fields
      by (simp add: read_svcid_def id_text_def id_back_def id_ok_def id_fits_def Let_def plain UPK_MAX_STRING_LEN_def)
  next
    case False
    have "takeWhile (\<lambda>c. c \<noteq> CHR '':'') (pkg @ CHR '':'' # CHR '':'' # name) = pkg"
      using ok fields by (auto simp: id_ok_def takeWhile_append)
    with False ok fields show ?thesis
      by (simp add: read_svcid_def id_text_def id_back_def id_ok_def id_fits_def Let_def UPK_MAX_STRING_LEN_def)
  qed
qed

definition ids_back :: "upk_svcid list option \<Rightarrow> upk_svcid list option" where
  "ids_back l = (case l of None \<Rightarrow> None | Some is \<Rightarrow> if is = [] then None else Some (map id_back is))"

lemma read_ids_texts:
  "\<forall>i\<in>set (list_or_empty l). id_ok i \<Longrightarrow> read_ids (map id_text (list_or_empty l)) = ids_back l"
  by (auto simp: read_ids_def ids_back_def list_or_empty_def read_id_text split: option.splits)

text \<open>Descriptions that can be written and are not cut when they are read.\<close>

definition printable :: "cheap \<Rightarrow> upk_svc_desc \<Rightarrow> bool" where
  "printable h svc \<longleftrightarrow> fits svc \<and> length (Package svc) + length (Name svc) + 2 < UPK_MAX_STRING_LEN \<and>
     CHR '':'' \<notin> set (Package svc) \<and> (Package svc = '''' \<longrightarrow> CHR '':'' \<notin> set (Name svc)) \<and>
     (\<forall>p\<in>set (text_ptrs svc). readable h p) \<and>
     (case ptr_text h (LongDescription svc) of None \<Rightarrow> True | Some s \<Rightarrow> length s \<le> 16384) \<and>
     (\<forall>i\<in>set (list_or_empty (Provides svc)) \<union> set (list_or_empty (Prerequisites svc)). id_ok i) \<and>
     (\<forall>a\<in>set (list_or_empty (CustomActions svc)).
        ptr_text h (act_script a) \<noteq> None \<and> length (act_name a) < UPK_MAX_STRING_LEN) \<and>
     distinct (map act_name (list_or_empty (CustomActions svc)))"

text \<open>\<open>d\<close> on the heap \<open>h'\<close> is what is read back of \<open>svc\<close> on the heap \<open>h\<close>.\<close>

definition same_texts :: "cheap \<Rightarrow> upk_svc_desc \<Rightarrow> cheap \<Rightarrow> upk_svc_desc \<Rightarrow> bool" where
  "same_texts h svc h' d \<longleftrightarrow>
     map (ptr_text h') (text_ptrs d) = map (\<lambda>p. not_empty (ptr_text h p)) (text_ptrs svc) \<and>
     actions_of h' d = actions_of h svc"

definition came_back :: "cheap \<Rightarrow> upk_svc_desc \<Rightarrow> cheap \<Rightarrow> upk_svc_desc \<Rightarrow> bool" where
  "came_back h svc h' d \<longleftrightarrow> same_texts h svc h' d \<and>
     (\<exists>p0 p1 p2 p3 p4 p5 as. d = (read_back svc)\<lparr>Provides := ids_back (Provides svc),
        Prerequisites := ids_back (Prerequisites svc), LongDescription := p0, StartScript := p1, StopScript := p2,
        ReloadScript := p3, CustomActions := as, PipeStdoutScript := p4, PipeStderrScript := p5\<rparr>)"

definition owned :: "cheap \<Rightarrow> upk_svc_desc \<Rightarrow> bool" where
  "owned h d \<longleftrightarrow> (\<forall>p\<in>set (text_ptrs d). allocated h p) \<and>
     (\<forall>a\<in>set (list_or_empty (CustomActions d)). allocated h (act_script a))"

lemma extends_texts:
  "extends h h' \<Longrightarrow> \<forall>p\<in>set ps. allocated h p \<Longrightarrow>
    map (ptr_text h') ps = map (ptr_text h) ps \<and> (\<forall>p\<in>set ps. allocated h' p)"
  by (auto dest: extends_text)

lemma came_back_extends:
  assumes "came_back h svc h1 d" and "owned h1 d" and "extends h1 h2"
  shows "came_back h svc h2 d \<and> owned h2 d"
proof -
  have "map (ptr_text h2) (text_ptrs d) = map (ptr_text h1) (text_ptrs d)" "actions_of h2 d = actions_of h1 d"
    and "owned h2 d"
    using assms(2) extends_texts [OF assms(3), of "text_ptrs d"]
      extends_named [OF assms(3), of "list_or_empty (CustomActions d)"]
    by (simp_all add: owned_def actions_of_def)
  then show ?thesis using assms(1) unfolding came_back_def same_texts_def by metis
qed

definition printed_members :: "cheap \<Rightarrow> upk_svc_desc \<Rightarrow> (string \<times> json) list" where
  "printed_members h svc =
     map (\<lambda>(k, arg). (k, upk_json_serialize_or_null arg))
       (svc_members svc (map JString (map id_text (list_or_empty (Provides svc))))
         (map JString (map id_text (list_or_empty (Prerequisites svc))))
         (action_texts (map (\<lambda>(k, t). (k, the t)) (actions_of h svc))) (map (ptr_text h) (text_ptrs svc))) @
     svc_members_end svc"

lemma desc_printed:
  assumes "appends jc" and "printable h svc"
  shows "upk_svc_desc_to_json_obj jc h svc =
    Inr (JObject (printed_members h svc), svc\<lparr>UUID := upk_string_to_uuid (UUID svc) ''''\<rparr>)"
proof -
  have ids: "svcid_array (list_or_empty (Provides svc)) = Inr (map JString (map id_text (list_or_empty (Provides svc))))"
    "svcid_array (list_or_empty (Prerequisites svc)) = Inr (map JString (map id_text (list_or_empty (Prerequisites svc))))"
    using assms(2) by (intro svcid_array_texts; auto simp: printable_def id_ok_def)+
  have texts: "script_texts h (text_ptrs svc) = Inr (map (ptr_text h) (text_ptrs svc))"
    using assms(2) by (intro script_texts_readable) (simp add: printable_def)
  have acts: "action_members jc h (list_or_empty (CustomActions svc)) [] =
      Inr (action_texts (map (\<lambda>(k, t). (k, the t)) (actions_of h svc)))"
    using action_members_texts [OF assms(1), of "list_or_empty (CustomActions svc)" h "[]"] assms(2)
    by (simp add: printable_def actions_of_def)
  have "distinct (map fst (printed_members h svc))"
    by (simp add: printed_members_def svc_members_def svc_members_end_def)
  from add_all_distinct [OF assms(1) this] show ?thesis
    by (simp only: upk_svc_desc_to_json_obj_def text_ptrs_def [symmetric] ids texts acts bind_c_simps
        printed_members_def [symmetric])
qed

lemma desc_read:
  assumes "c_strings (json_lib env)" and "printable h svc"
  shows "\<exists>d h1. svc_walk env ns c ss al (printed_members h svc)
      (upk_svc_desc_clear\<lparr>Package := Package svc, Name := Name svc\<rparr>) h0 =
      Inr (svc_node ss # ns, loading c ss al d h1) \<and> extends h0 h1 \<and> came_back h svc h1 d \<and> owned h1 d"
proof -
  let ?t = "ptr_text h" and ?as = "map (\<lambda>(k, t). (k, the t)) (actions_of h svc)"
  obtain p0 h1 where c0: "copy_text (?t (LongDescription svc)) h0 = (p0, h1)" by fastforce
  obtain p1 h2 where c1: "copy_text (?t (StartScript svc)) h1 = (p1, h2)" by fastforce
  obtain p2 h3 where c2: "copy_text (?t (StopScript svc)) h2 = (p2, h3)" by fastforce
  obtain p3 h4 where c3: "copy_text (?t (ReloadScript svc)) h3 = (p3, h4)" by fastforce
  obtain bs h5 where ca: "copy_named ?as h4 = (bs, h5)" by fastforce
  obtain p4 h6 where c4: "copy_text (?t (PipeStdoutScript svc)) h5 = (p4, h6)" by fastforce
  obtain p5 h7 where c5: "copy_text (?t (PipeStderrScript svc)) h6 = (p5, h7)" by fastforce
  let ?acts = "if ?as = [] then None else Some bs"
  let ?d = "(read_back svc)\<lparr>Provides := ids_back (Provides svc), Prerequisites := ids_back (Prerequisites svc),
    LongDescription := p0, StartScript := p1, StopScript := p2, ReloadScript := p3, CustomActions := ?acts,
    PipeStdoutScript := p4, PipeStderrScript := p5\<rparr>"
  have ids: "read_ids (map id_text (list_or_empty (Provides svc))) = ids_back (Provides svc)"
    "read_ids (map id_text (list_or_empty (Prerequisites svc))) = ids_back (Prerequisites svc)"
    using assms(2) by (simp_all add: printable_def read_ids_texts)
  have "fits svc" "case ?t (LongDescription svc) of None \<Rightarrow> True | Some s \<Rightarrow> length s \<le> 16384"
    using assms(2) by (simp_all add: printable_def)
  from service_walk [OF assms(1) this c0 c1 c2 c3 ca c4 c5]
  have walk: "svc_walk env ns c ss al (printed_members h svc)
      (upk_svc_desc_clear\<lparr>Package := Package svc, Name := Name svc\<rparr>) h0 =
      Inr (svc_node ss # ns, loading c ss al ?d h7)"
    by (simp add: printed_members_def text_ptrs_def ids del: map_map)
  note e = c0 [THEN copy_text_spec] c1 [THEN copy_text_spec] c2 [THEN copy_text_spec] c3 [THEN copy_text_spec]
    c4 [THEN copy_text_spec] c5 [THEN copy_text_spec]
  have texts: "\<forall>a\<in>set (actions_of h svc). length (fst a) < UPK_MAX_STRING_LEN \<and> snd a \<noteq> None"
    using assms(2) by (auto simp: printable_def actions_of_def named_texts_def)
  then have "\<forall>a\<in>set ?as. length (fst a) < UPK_MAX_STRING_LEN" by auto
  note a = copy_named_spec [OF this ca]
  have e6: "extends h6 h7" using e by simp
  have e5: "extends h5 h7" using e e6 by (blast intro: extends_trans)
  have e4: "extends h4 h7" using a e5 by (blast intro: extends_trans)
  have e3: "extends h3 h7" using e e4 by (blast intro: extends_trans)
  have e2: "extends h2 h7" using e e3 by (blast intro: extends_trans)
  have e1: "extends h1 h7" using e e2 by (blast intro: extends_trans)
  have "map (\<lambda>(k, s). (k, Some s)) ?as = actions_of h svc"
    using texts by (auto intro!: map_idI)
  then have acts: "actions_of h7 ?d = actions_of h svc" "\<forall>b\<in>set (list_or_empty ?acts). allocated h7 (act_script b)"
    using a extends_named [OF e5, of bs] by (auto simp: actions_of_def list_or_empty_def named_texts_def)
  have ptrs: "ptr_text h7 p0 = not_empty (?t (LongDescription svc)) \<and> allocated h7 p0"
    "ptr_text h7 p1 = not_empty (?t (StartScript svc)) \<and> allocated h7 p1"
    "ptr_text h7 p2 = not_empty (?t (StopScript svc)) \<and> allocated h7 p2"
    "ptr_text h7 p3 = not_empty (?t (ReloadScript svc)) \<and> allocated h7 p3"
    "ptr_text h7 p4 = not_empty (?t (PipeStdoutScript svc)) \<and> allocated h7 p4"
    "ptr_text h7 p5 = not_empty (?t (PipeStderrScript svc)) \<and> allocated h7 p5"
    using e e1 e2 e3 e4 e6 by (metis extends_text)+
  have "owned h7 ?d" using ptrs acts(2) by (simp add: owned_def text_ptrs_def)
  moreover have same: "same_texts h svc h7 ?d"
    using ptrs acts(1) by (simp add: same_texts_def text_ptrs_def)
  moreover have "came_back h svc h7 ?d"
    unfolding came_back_def
    by (rule conjI [OF same], rule exI [of _ p0], rule exI [of _ p1], rule exI [of _ p2], rule exI [of _ p3],
      rule exI [of _ p4], rule exI [of _ p5], rule exI [of _ ?acts], rule refl)
  moreover have "extends h0 h7" using e e1 by (blast intro: extends_trans)
  ultimately show ?thesis using walk by blast
qed

section \<open>Lists of descriptions\<close>

definition printed_key :: "upk_svc_desc \<Rightarrow> string" where
  "printed_key svc = (if Package svc = '''' then Name svc else Package svc @ ''::'' @ Name svc)"

lemma printed_key:
  assumes "printable h svc"
  shows "upk_svc_id svc = Inr (printed_key svc)"
    and "snd (upk_parse_svc_id (printed_key svc) upk_svc_desc_clear) =
      upk_svc_desc_clear\<lparr>Package := Package svc, Name := Name svc\<rparr>"
proof -
  have "upk_svc_id svc = Inr (printed_key svc) \<and> snd (upk_parse_svc_id (printed_key svc) upk_svc_desc_clear) =
      upk_svc_desc_clear\<lparr>Package := Package svc, Name := Name svc\<rparr>"
  proof (cases "Package svc = ''''")
    case True
    with assms show ?thesis
      by (simp add: printable_def upk_svc_id_def upk_concat_svcid_def printed_key_def upk_parse_svc_id_def
          strstr_no_colons upk_svc_desc_clear_def UPK_MAX_STRING_LEN_def)
  next
    case False
    with assms have "upk_svc_id svc = Inr (printed_key svc)"
      by (simp add: upk_svc_id_def printed_key_def printable_def concat_svcid_fits)
    with False assms show ?thesis
      by (simp add: printable_def printed_key_def upk_parse_svc_id_def strstr_colons UPK_MAX_STRING_LEN_def)
  qed
  then show "upk_svc_id svc = Inr (printed_key svc)" and
    "snd (upk_parse_svc_id (printed_key svc) upk_svc_desc_clear) =
      upk_svc_desc_clear\<lparr>Package := Package svc, Name := Name svc\<rparr>" by simp_all
qed

definition printed_services :: "cheap \<Rightarrow> upk_svc_desc list \<Rightarrow> (string \<times> json) list" where
  "printed_services h ss = map (\<lambda>svc. (printed_key svc, JObject (printed_members h svc))) ss"

lemma svclist_printed:
  assumes "appends jc"
  shows "\<forall>svc\<in>set ss. printable h svc \<Longrightarrow> distinct (map fst ms @ map printed_key ss) \<Longrightarrow>
    svclist_members jc h ss ms = Inr (ms @ printed_services h ss)"
proof (induction ss arbitrary: ms)
  case (Cons svc ss)
  have "printed_key svc \<notin> fst ` set ms" using Cons.prems(2) by auto
  then have "object_add jc ms (printed_key svc) j = ms @ [(printed_key svc, j)]" for j
    using assms by (simp add: appends_def)
  moreover have pr: "printable h svc" using Cons.prems(1) by simp
  ultimately show ?case
    using Cons.IH [of "ms @ [(printed_key svc, JObject (printed_members h svc))]"] Cons.prems
    by (simp add: printed_key(1) [OF pr] desc_printed [OF assms pr] printed_services_def)
qed (simp add: printed_services_def)

definition list_node :: "(conf_data, conf_handler) upk_json_stack_node" where
  "list_node = conf_node D_config (only_objects H_svclist_object)"

definition services_of :: "conf_state \<Rightarrow> upk_svc_desc list" where
  "services_of st = list_or_empty (svclist (conf st))"

lemma list_node_quiet [simp]:
  "call_handler run after_json_obj_pop key v (list_node # ns, st) = Inr (list_node # ns, st)"
  by (simp add: call_handler_def list_node_def conf_node_def only_objects_def)

lemma service_pushed:
  assumes "c_strings (json_lib env)" and "printable h svc"
  shows "upk_json_value (json_lib env) (run_conf env) (Some (printed_key svc)) (JObject ms) (list_node # ns, st) =
    Inr (svc_node (services_of st) # list_node # ns, loading (conf st) (services_of st) (alerts st)
      (upk_svc_desc_clear\<lparr>Package := Package svc, Name := Name svc\<rparr>) (conf_heap st))"
  unfolding list_node_def json_value_conf [OF assms(1)]
  by (simp add: only_objects_def casts upk_svcconf_object_handler_def with_key_def printed_key(2) [OF assms(2)]
      upk_json_stack_push_def svc_node_def loading_def services_of_def list_or_empty_def Let_def)

lemma services_read:
  assumes "c_strings (json_lib env)"
  shows "\<forall>svc\<in>set ss. printable h svc \<Longrightarrow>
    \<exists>st' ds. upk_json_parse_obj (json_lib env) (run_conf env) (printed_services h ss) (list_node # ns, st) =
        Inr (list_node # ns, st') \<and>
      services_of st' = services_of st @ ds \<and> alerts st' = alerts st \<and> extends (conf_heap st) (conf_heap st') \<and>
      list_all2 (\<lambda>svc d. came_back h svc (conf_heap st') d \<and> owned (conf_heap st') d) ss ds"
proof (induction ss arbitrary: st)
  case Nil
  then show ?case by (simp add: printed_services_def)
next
  case (Cons svc ss)
  obtain d h1 where d: "svc_walk env (list_node # ns) (conf st) (services_of st) (alerts st) (printed_members h svc)
      (upk_svc_desc_clear\<lparr>Package := Package svc, Name := Name svc\<rparr>) (conf_heap st) =
      Inr (svc_node (services_of st) # list_node # ns, loading (conf st) (services_of st) (alerts st) d h1)"
    "extends (conf_heap st) h1" "came_back h svc h1 d" "owned h1 d"
    using desc_read [OF assms, of h svc "list_node # ns" "conf st" "services_of st" "alerts st" "conf_heap st"]
      Cons.prems by auto
  let ?st = "loading (conf st) (services_of st) (alerts st) d h1"
  have pr: "printable h svc" using Cons.prems by simp
  have first: "upk_json_parse_node (json_lib env) (run_conf env) (Some (printed_key svc))
      (JObject (printed_members h svc)) (list_node # ns, st) = Inr (list_node # ns, ?st)"
    using d(1) by (simp add: upk_json_parse_node.simps service_pushed [OF assms pr] svc_walk_def
        upk_json_stack_pop_def)
  have st: "services_of ?st = services_of st @ [d]" "alerts ?st = alerts st" "conf_heap ?st = h1"
    by (simp_all add: loading_def services_of_def list_or_empty_def)
  obtain st' ds where rest: "upk_json_parse_obj (json_lib env) (run_conf env) (printed_services h ss) (list_node # ns, ?st) =
        Inr (list_node # ns, st')" "services_of st' = services_of ?st @ ds" "alerts st' = alerts ?st"
      "extends (conf_heap ?st) (conf_heap st')"
      "list_all2 (\<lambda>svc d. came_back h svc (conf_heap st') d \<and> owned (conf_heap st') d) ss ds"
    using Cons.IH [of ?st] Cons.prems by auto
  have "came_back h svc (conf_heap st') d \<and> owned (conf_heap st') d"
    by (rule came_back_extends [OF d(3,4)]) (use rest(4) st(3) in simp)
  with rest(5) have "list_all2 (\<lambda>svc d. came_back h svc (conf_heap st') d \<and> owned (conf_heap st') d) (svc # ss) (d # ds)"
    by simp
  moreover have "extends (conf_heap st) (conf_heap st')"
    using extends_trans [OF d(2)] rest(4) st(3) by simp
  moreover have "services_of st' = services_of st @ d # ds" "alerts st' = alerts st"
    using rest(2,3) st(1,2) by simp_all
  moreover have "upk_json_parse_obj (json_lib env) (run_conf env) (printed_services h (svc # ss)) (list_node # ns, st) =
      Inr (list_node # ns, st')"
    using first rest(1) by (simp add: printed_services_def)
  ultimately show ?case by blast
qed

text \<open>The document begins with an object, which the handlers of the top level expect.\<close>

lemma toplvl_services:
  assumes "c_strings (json_lib env)"
  shows "upk_json_value (json_lib env) (run_conf env) key (JObject ms) (top_stack H_svc_toplvl, st) =
    Inr (list_node # top_stack H_svc_toplvl, st)"
  unfolding top_stack_def json_value_conf [OF assms]
  by (simp add: only_objects_def casts upk_svcconf_toplvl_obj_def upk_json_stack_push_def list_node_def)

lemma svclist_to_json:
  assumes "appends jc" and "\<forall>svc\<in>set ss. printable h svc" and "distinct (map printed_key ss)"
  shows "upk_svclist_to_json_obj jc h (Some ss) = Inr (JObject (printed_services h ss))"
  using svclist_printed [OF assms(1,2), of "[]"] assms(3) by (simp add: upk_svclist_to_json_obj_def)

text \<open>C3: descriptions with different identifiers, written as JSON and read with the handlers of the service
  files, come back in their order, behind the services already there and without a key reported as invalid:
  every field that is written, every script and every action as it was, except that truth values
  become 0 or 1, a stopped service becomes one that is shut down, the unique identifier is lost, empty
  scripts and lists become null pointers, and identifiers with a package come back with a colon before
  their name.  What json-c has to do is parse its own text and append members.\<close>

theorem services_round_trip:
  assumes "c_strings (json_lib env)" and "appends (json_lib env)"
    and "\<forall>svc\<in>set ss. printable h svc" and "distinct (map printed_key ss)"
  shows "\<exists>j. upk_svclist_to_json_obj (json_lib env) h (Some ss) = Inr j \<and>
    (\<forall>text n st. tokener_parse (json_lib env) text = (j, True, n) \<longrightarrow>
      (\<exists>st' ds. upk_svcconf_pack env text st = Inr st' \<and> services_of st' = services_of st @ ds \<and>
        alerts st' = alerts st \<and> list_all2 (\<lambda>svc d. came_back h svc (conf_heap st') d) ss ds))"
proof -
  let ?jc = "json_lib env" and ?run = "run_conf env" and ?ms = "printed_services h ss" and ?t = "top_stack H_svc_toplvl"
  have "\<exists>st' ds. upk_svcconf_pack env t st = Inr st' \<and> services_of st' = services_of st @ ds \<and>
      alerts st' = alerts st \<and> list_all2 (\<lambda>svc d. came_back h svc (conf_heap st') d) ss ds"
    if doc: "tokener_parse ?jc t = (JObject ?ms, True, n)" for t n st
  proof -
    obtain st' ds where walk: "upk_json_parse_obj ?jc ?run ?ms (list_node # ?t, st) = Inr (list_node # ?t, st')"
      and rest: "services_of st' = services_of st @ ds" "alerts st' = alerts st"
        "list_all2 (\<lambda>svc d. came_back h svc (conf_heap st') d \<and> owned (conf_heap st') d) ss ds"
      using services_read [OF assms(1,3), of ?t st] by blast
    have "upk_json_parse_node ?jc ?run None (JObject ?ms) (?t, st) = Inr (?t, st')"
      by (simp add: upk_json_parse_node.simps toplvl_services [OF assms(1)] walk upk_json_stack_pop_def)
    then have "upk_svcconf_pack env t st = Inr st'"
      by (simp add: upk_svcconf_pack_def conf_pack_def upk_json_parse_string_def doc upk_json_stack_push_def
          flip: top_stack_def)
    moreover have "list_all2 (\<lambda>svc d. came_back h svc (conf_heap st') d) ss ds"
      using rest(3) by (rule list_all2_mono) simp
    ultimately show ?thesis using rest(1,2) by blast
  qed
  with svclist_to_json [OF assms(2-4)] show ?thesis by blast
qed

definition web_heap :: cheap where
  "web_heap = \<lparr>strings = [0 \<mapsto> ''run %(EXEC_START)'', 1 \<mapsto> ''reindex''], brk = 2, list_frees = 0\<rparr>"

definition web_service :: upk_svc_desc where
  "web_service = upk_svc_desc_clear\<lparr>Package := ''web'', Name := ''httpd'', StartPriority := 7,
     StartScript := Some 0, InitialState := UPK_STATE_STOPPED, Provides := Some [\<lparr>svcid_name = ''http'', svcid_pkg = ''net''\<rparr>],
     CustomActions := Some [\<lparr>act_name = ''reindex'', act_script = Some 1\<rparr>]\<rparr>"

lemma web_printable: "printable web_heap web_service"
  by (simp add: printable_def web_service_def upk_svc_desc_clear_def fits_def text_ptrs_def readable_def
      ptr_text_def web_heap_def id_ok_def id_fits_def list_or_empty_def UPK_MAX_STRING_LEN_def UPK_MAX_PATH_LEN_def)

lemma services_round_trip_witness:
  "\<exists>st' d. upk_svcconf_pack (sample_env (JObject (printed_services web_heap [web_service]))) ''x'' empty_load = Inr st' \<and>
    services_of st' = [d] \<and> alerts st' = [] \<and> Name d = ''httpd'' \<and> StartPriority d = 7 \<and>
    InitialState d = UPK_STATE_SHUTDOWN \<and> Provides d = Some [\<lparr>svcid_name = '':http'', svcid_pkg = ''net''\<rparr>] \<and>
    ptr_text (conf_heap st') (StartScript d) = Some ''run %(EXEC_START)'' \<and>
    actions_of (conf_heap st') d = [(''reindex'', Some ''reindex'')]"
proof -
  let ?env = "sample_env (JObject (printed_services web_heap [web_service]))"
  have jc: "appends (json_lib ?env)" by (simp add: appends_def sample_env_def sample_json_c_def)
  have one: "\<forall>svc\<in>set [web_service]. printable web_heap svc" "distinct (map printed_key [web_service])"
    using web_printable by simp_all
  have doc: "tokener_parse (json_lib ?env) ''x'' = (JObject (printed_services web_heap [web_service]), True, 0)"
    by (simp add: sample_env_def)
  obtain st' ds where st': "upk_svcconf_pack ?env ''x'' empty_load = Inr st'"
      "services_of st' = services_of empty_load @ ds" "alerts st' = []" "list_all2 (\<lambda>svc d. came_back web_heap svc (conf_heap st') d) [web_service] ds"
    using services_round_trip [OF sample_env_strings jc one] doc
    by (fastforce simp: svclist_to_json [OF jc one] empty_load_def)
  then obtain d where d: "ds = [d]" "came_back web_heap web_service (conf_heap st') d"
    by (auto simp: list_all2_Cons1)
  have "services_of empty_load = []" by (simp add: empty_load_def services_of_def zero_config_def list_or_empty_def)
  then show ?thesis
    using st' d by (auto simp: came_back_def same_texts_def text_ptrs_def read_back_def web_service_def
        upk_svc_desc_clear_def state_back_def ids_back_def id_back_def web_heap_def ptr_text_def not_empty_def
        actions_of_def named_texts_def list_or_empty_def)
qed

end
