(* ===== verification/Ctrl_Main.thy ===== *)
theory Ctrl_Main
  imports Ctrl_Data Ctrl_Statedir Upk_Config_Trip
begin

text \<open>
  The start of the controller: \<open>controller/controller.c\<close>, \<open>main\<close> of \<open>controller/controller_main.c\<close> and
  \<open>ctrl_sock_setup\<close> of \<open>controller/ctrl_eventloop.c\<close>.  The configuration is read from the file system the
  buddies are set up in.  The files SQLite makes, \<open>umask\<close> and descriptors are left out.
\<close>

text \<open>What the start is given: the parser and the user database, the built-in configuration and the name of
  the file, SQLite with \<open>sqlite3_open\<close> and the two schemas (\<open>ctrl_sql.h\<close>), whether the device for random
  numbers opens, what is in memory after fields of one byte and after strings, whether another process has
  the lock, and the mode \<open>open\<close> takes from the stack, where its third argument is missing.\<close>

record ('db, 's) start_env =
  parser :: conf_env
  default_text :: string
  config_file :: string
  sql :: "('db, 's) sqlite"
  sqlite_open :: "string \<Rightarrow> int \<times> 'db"
  audit_schema :: string
  cfg_schema :: string
  device :: bool
  after_byte :: "string \<Rightarrow> u32"
  after_text :: "nat \<Rightarrow> char"
  lock_taken :: bool
  lock_mode :: nat

record 'db controller =
  confs :: load_state
  world :: ctrl
  flockpath :: string
  ctrl_dbh :: "'db store"

definition files_of :: "fs \<Rightarrow> load_files" where
  "files_of fs =
     \<lparr>contents = (\<lambda>s. case stat_file fs s of Some (Regular text _) \<Rightarrow> Some text | _ \<Rightarrow> None),
      names_in = opendir fs\<rparr>"

section \<open>State directory and database\<close>

text \<open>\<open>strncat\<close> with the room that is left, a \<open>size_t\<close> that wraps when the directory fills the buffer.\<close>

definition lock_name :: "string \<Rightarrow> string cres" where
  "lock_name dir =
     (let name = take (UPK_MAX_STRING_LEN - 1) dir in
      if UPK_MAX_STRING_LEN \<le> length dir then Inl Oob_write
      else Inr (name @ take (UPK_MAX_STRING_LEN - 1 - length dir) ''/.lock''))"

text \<open>\<open>open\<close> with \<open>O_CREAT\<close>, for reading.\<close>

definition open_create :: "nat \<Rightarrow> string \<Rightarrow> fs \<Rightarrow> fs option" where
  "open_create mode s fs =
     (case namei fs s of None \<Rightarrow> None
      | Some p \<Rightarrow>
          (case node_at fs p of
             None \<Rightarrow> if can_create fs p then Some (put_node p (Regular '''' mode) fs) else None
           | Some (Regular _ _) \<Rightarrow> Some fs
           | Some _ \<Rightarrow> None))"

text \<open>The message about a missing state directory prints a number as a string.  \<open>flock\<close> waits for the lock;
  \<open>None\<close> is a start that waits for ever, or a \<open>upk_mkdir_p\<close> that does not end.\<close>

definition upk_state_init :: "nat \<Rightarrow> ('db, 's) start_env \<Rightarrow> upk_controller_config \<Rightarrow> fs \<Rightarrow> (string \<times> fs) cres option" where
  "upk_state_init fuel E cfg fs =
     bind_o (map_option Inr (upk_mkdir_p fuel (StateDir cfg) fs)) (\<lambda>(_, fs).
     if stat_file fs (StateDir cfg) \<noteq> Some Dir then Some (Inl Type_confusion)
     else bind_o (Some (lock_name (StateDir cfg))) (\<lambda>path.
       case open_create (lock_mode E) path fs of None \<Rightarrow> Some (Inl Exit_failure)
       | Some fs \<Rightarrow> if lock_taken E then None else Some (Inr (path, fs))))"

definition upk_db_path :: "upk_controller_config \<Rightarrow> fs \<Rightarrow> (string \<times> fs) cres" where
  "upk_db_path cfg fs =
     bind_c (path_buf (StateDir cfg @ ''/db'')) (\<lambda>path.
     let exists = (case lnamei fs path of None \<Rightarrow> False | Some p \<Rightarrow> node_at fs p \<noteq> None);
         (ok, fs) = mkdir path fs in
     if ok \<or> exists then Inr (path, fs) else Inl Exit_failure)"

definition run_sql :: "('db, 's) sqlite \<Rightarrow> string \<Rightarrow> 'db \<Rightarrow> 'db cres" where
  "run_sql q stmt db =
     (case sqlite_exec q stmt db of (rc, db) \<Rightarrow> if rc \<noteq> SQLITE_OK then Inl Exit_failure else Inr db)"

definition upk_ctrl_attach_db :: "('db, 's) sqlite \<Rightarrow> string \<Rightarrow> string \<Rightarrow> 'db \<Rightarrow> 'db cres" where
  "upk_ctrl_attach_db q db_path db_name =
     run_sql q (take (UPK_MAX_STRING_LEN - 1)
       (''ATTACH '' @ [CHR 0x22] @ db_path @ ''/'' @ db_name @ ''.sqlite3'' @ [CHR 0x22] @ '' AS '' @
        [CHR 0x22] @ db_name @ [CHR 0x22] @ '';''))"

definition upk_ctrl_init_db :: "('db, 's) start_env \<Rightarrow> string \<Rightarrow> 'db cres" where
  "upk_ctrl_init_db E db_path =
     bind_c (path_buf (db_path @ ''/upkeeper.sqlite3'')) (\<lambda>path.
     case sqlite_open E path of (rc, db) \<Rightarrow>
       if rc \<noteq> 0 then Inl Exit_failure
       else bind_c (upk_ctrl_attach_db (sql E) db_path ''upk_cfg'' db) (\<lambda>db.
         bind_c (upk_ctrl_attach_db (sql E) db_path ''upk_audit'' db) (\<lambda>db.
         bind_c (run_sql (sql E) (audit_schema E) db) (run_sql (sql E) (cfg_schema E)))))"

section \<open>Initialization\<close>

text \<open>The end of \<open>upk_ctrl_init\<close>: the services are read, finished into the runtime configuration, and then
  those of the file configuration are put into the store.\<close>

definition load_services ::
    "('db, 's) start_env \<Rightarrow> load_files \<Rightarrow> load_state \<Rightarrow> 'db store \<Rightarrow> (load_state \<times> 'db store) cres option" where
  "load_services E fs s st =
     bind_o (Some (upk_load_runtime_services (after_text E) (parser E) fs s)) (\<lambda>s.
     case svclist (file_conf s) of None \<Rightarrow> Some (Inl Null_deref)
     | Some svcs \<Rightarrow>
         bind_o (insert_services (sql E) (device E) (load_heap s) (after_byte E) svcs st) (\<lambda>(svcs, st).
         Some (Inr (s\<lparr>file_conf := (file_conf s)\<lparr>svclist := Some svcs\<rparr>\<rparr>, st))))"

definition upk_ctrl_init ::
    "nat \<Rightarrow> ('db, 's) start_env \<Rightarrow> 'db store \<Rightarrow> load_state \<Rightarrow> ctrl \<Rightarrow> 'db controller cres option" where
  "upk_ctrl_init fuel E st s w =
     bind_o (Some (upk_ctrl_load_config (parser E) (files_of (files w)) (default_text E) (config_file E) s)) (\<lambda>s.
     bind_o (upk_state_init fuel E (runtime_conf s) (files w)) (\<lambda>(lock, fs).
     bind_o (Some (upk_db_path (runtime_conf s) fs)) (\<lambda>(db_path, fs).
     bind_o (Some (upk_ctrl_init_db E db_path)) (\<lambda>db.
     bind_o (load_services E (files_of fs) s (st\<lparr>dbh := db\<rparr>)) (\<lambda>(s, st).
     Some (Inr \<lparr>confs = s, world = w\<lparr>files := fs\<rparr>, flockpath = lock, ctrl_dbh = st\<rparr>))))))"

section \<open>Main\<close>

fun create_all :: "upk_controller_config \<Rightarrow> cheap \<Rightarrow> upk_svc_desc list \<Rightarrow> ctrl \<Rightarrow> ctrl cres" where
  "create_all cfg h [] w = Inr w"
| "create_all cfg h (svc # svcs) w = bind_c (create_buddy cfg h svc w) (create_all cfg h svcs)"

text \<open>Whether the socket is bound, and the files then.\<close>

definition ctrl_sock_setup :: "upk_controller_config \<Rightarrow> fs \<Rightarrow> bool \<times> fs" where
  "ctrl_sock_setup cfg fs =
     make_node Socket (take (SUN_PATH_LEN - 1) (controller_socket cfg)) (snd (unlink (controller_socket cfg) fs))"

text \<open>\<open>upk_ctrl_exit\<close>, which \<open>atexit\<close> runs: the configuration is freed, whether \<open>main\<close> has freed it or not,
  the lock file goes, and the descriptor that is closed is that of a global variable that was never set,
  the standard input.\<close>

definition upk_ctrl_exit :: "bool \<Rightarrow> 'db controller \<Rightarrow> 'db controller cres" where
  "upk_ctrl_exit freed c =
     (let s = confs c in
      bind_c (upk_ctrl_free_config (\<not> freed) (default_conf s) (file_conf s) (runtime_conf s) (load_heap s)) (\<lambda>h.
      Inr (c\<lparr>confs := s\<lparr>load_heap := h\<rparr>,
             world := (world c)\<lparr>files := snd (unlink (flockpath c) (files (world c)))\<rparr>\<rparr>)))"

text \<open>What becomes of the process: the event loop begins, or \<open>main\<close> returns zero and the process ends after
  the exit handler.\<close>

datatype 'a started = Event_loop 'a | Ended 'a

definition controller_main ::
    "nat \<Rightarrow> ('db, 's) start_env \<Rightarrow> 'db store \<Rightarrow> load_state \<Rightarrow> ctrl \<Rightarrow> 'db controller started cres option" where
  "controller_main fuel E st s w =
     bind_o (upk_ctrl_init fuel E st s w) (\<lambda>c.
     Some (let run = runtime_conf (confs c) in
       case svclist run of None \<Rightarrow> Inl Null_deref
       | Some svcs \<Rightarrow>
           bind_c (create_all run (load_heap (confs c)) svcs (world c)) (\<lambda>w.
           let (ok, fs) = ctrl_sock_setup run (files w); c = c\<lparr>world := w\<lparr>files := fs\<rparr>\<rparr> in
           if ok then Inr (Event_loop c)
           else
             bind_c (upk_ctrl_free_config True (default_conf (confs c)) (file_conf (confs c)) (runtime_conf (confs c))
               (load_heap (confs c))) (\<lambda>h.
             bind_c (upk_ctrl_exit True (c\<lparr>confs := (confs c)\<lparr>load_heap := h\<rparr>\<rparr>)) (\<lambda>c. Inr (Ended c))))))"

section \<open>Where the start ends\<close>

lemma bind_o_Inr_iff: "bind_o m f = Some (Inr y) \<longleftrightarrow> (\<exists>x. m = Some (Inr x) \<and> f x = Some (Inr y))"
  by (auto simp: bind_o_def split: option.splits sum.splits)

lemma load_services_list:
  "load_services E fs s st = Some (Inr (s', st')) \<Longrightarrow> svclist (file_conf s') \<noteq> None"
  by (auto simp: load_services_def bind_o_Inr_iff split: option.splits)

lemma init_list:
  assumes "upk_ctrl_init fuel E st s w = Some (Inr c)"
  shows "svclist (file_conf (confs c)) \<noteq> None"
  using assms by (auto simp: upk_ctrl_init_def bind_o_Inr_iff dest!: load_services_list)

text \<open>The faults of freeing, and the one that a second run of it does not get around.\<close>

abbreviation free_faults :: "fault set" where
  "free_faults \<equiv> {Double_free, Use_after_free}"

lemma free_strings_faults: "faults_in free_faults (free_strings ps h)"
  by (induction ps arbitrary: h) (auto simp: cstr_free_def intro!: faults_in_bind split: option.split)

lemma desc_free_faults: "faults_in free_faults (upk_svc_desc_free live svc h)"
  unfolding upk_svc_desc_free_def
  by (intro faults_in_bind free_strings_faults) (auto simp: list_free_def)

lemma services_free_faults: "faults_in free_faults (free_services live svcs h)"
  by (induction svcs arbitrary: h) (auto intro!: faults_in_bind desc_free_faults)

lemma conf_free_faults: "faults_in free_faults (upk_ctrlconf_free live cfg h)"
  unfolding upk_ctrlconf_free_def upk_svclist_free_def
  by (intro faults_in_bind desc_free_faults)
    (auto simp: list_free_def intro!: faults_in_bind services_free_faults split: option.split)

lemma config_free_faults: "faults_in free_faults (upk_ctrl_free_config live d f r h)"
  unfolding upk_ctrl_free_config_def by (intro faults_in_bind conf_free_faults)

lemma exit_again:
  assumes "svclist (file_conf (confs c)) \<noteq> None"
  shows "\<exists>e\<in>free_faults. upk_ctrl_exit True c = Inl e"
proof -
  let ?s = "confs c"
  have "upk_ctrlconf_free False (file_conf ?s) h = Inl Use_after_free" for h
    using assms by (auto simp: upk_ctrlconf_free_def upk_svclist_free_def)
  then show ?thesis
    using conf_free_faults [of False "default_conf ?s" "load_heap ?s"]
    by (cases "upk_ctrlconf_free False (default_conf ?s) (load_heap ?s)")
      (auto simp: upk_ctrl_exit_def upk_ctrl_free_config_def Let_def)
qed

text \<open>When the socket cannot be bound, \<open>main\<close> frees what it has, and the exit handler frees it again.\<close>

lemma freed_twice:
  assumes "svclist (file_conf (confs c)) \<noteq> None"
  shows "\<exists>e\<in>free_faults.
    bind_c (upk_ctrl_free_config True (default_conf (confs c)) (file_conf (confs c)) (runtime_conf (confs c))
      (load_heap (confs c))) (\<lambda>h.
    bind_c (upk_ctrl_exit True (c\<lparr>confs := (confs c)\<lparr>load_heap := h\<rparr>\<rparr>)) (\<lambda>c. Inr (Ended c))) = Inl e"
proof (cases "upk_ctrl_free_config True (default_conf (confs c)) (file_conf (confs c)) (runtime_conf (confs c))
    (load_heap (confs c))")
  case (Inl e)
  then show ?thesis
    using config_free_faults [of True "default_conf (confs c)" "file_conf (confs c)" "runtime_conf (confs c)"
        "load_heap (confs c)"] by simp
next
  case (Inr h)
  obtain e where "e \<in> free_faults" "upk_ctrl_exit True (c\<lparr>confs := (confs c)\<lparr>load_heap := h\<rparr>\<rparr>) = Inl e"
    using exit_again [of "c\<lparr>confs := (confs c)\<lparr>load_heap := h\<rparr>\<rparr>"] assms by (auto simp del: insert_iff)
  with Inr show ?thesis by (intro bexI [of _ e]) simp_all
qed

lemma main_after_init:
  assumes "upk_ctrl_init fuel E st s w = Some (Inr c)" and "svclist (runtime_conf (confs c)) = Some svcs"
    and "create_all (runtime_conf (confs c)) (load_heap (confs c)) svcs (world c) = Inr w'"
    and "ctrl_sock_setup (runtime_conf (confs c)) (files w') = (ok, fs)"
  shows "if ok then controller_main fuel E st s w = Some (Inr (Event_loop (c\<lparr>world := w'\<lparr>files := fs\<rparr>\<rparr>)))
    else \<exists>e\<in>free_faults. controller_main fuel E st s w = Some (Inl e)"
proof (cases ok)
  case False
  obtain e where e: "e \<in> free_faults" "bind_c (upk_ctrl_free_config True (default_conf (confs c)) (file_conf (confs c))
      (runtime_conf (confs c)) (load_heap (confs c))) (\<lambda>h.
    bind_c (upk_ctrl_exit True (c\<lparr>world := w'\<lparr>files := fs\<rparr>, confs := (confs c)\<lparr>load_heap := h\<rparr>\<rparr>)) (\<lambda>c. Inr (Ended c))) = Inl e"
    using freed_twice [of "c\<lparr>world := w'\<lparr>files := fs\<rparr>\<rparr>"] init_list [OF assms(1)] by auto
  then have "controller_main fuel E st s w = Some (Inl e)"
    using False by (simp add: controller_main_def assms Let_def)
  with e(1) False show ?thesis by auto
qed (simp add: controller_main_def assms Let_def)

text \<open>C18: where the start of the controller ends, once its initialisation is through: it faults without a
  runtime list of services, and with what setting up the buddies faults with.  Otherwise, if its socket can be
  bound, it is in its event loop with the buddies that were started and the new node of the socket among the
  files; if not, \<open>main\<close> frees the configuration and returns, and the process dies in a \<open>free\<close> or a read of freed
  memory, at the latest when the exit handler frees the list of services again.\<close>

theorem main_outcome:
  "case upk_ctrl_init fuel E st s w of
     None \<Rightarrow> controller_main fuel E st s w = None
   | Some (Inl e) \<Rightarrow> controller_main fuel E st s w = Some (Inl e)
   | Some (Inr c) \<Rightarrow>
      (let run = runtime_conf (confs c); sock = take (SUN_PATH_LEN - 1) (controller_socket run) in
       case svclist run of None \<Rightarrow> controller_main fuel E st s w = Some (Inl Null_deref)
       | Some svcs \<Rightarrow>
          (case create_all run (load_heap (confs c)) svcs (world c) of
             Inl e \<Rightarrow> controller_main fuel E st s w = Some (Inl e)
           | Inr w' \<Rightarrow>
              (let fs = snd (unlink (controller_socket run) (files w')) in
               case lnamei fs sock of
                 Some p \<Rightarrow>
                   if can_create fs p then
                     controller_main fuel E st s w =
                       Some (Inr (Event_loop (c\<lparr>world := w'\<lparr>files := put_node p Socket fs\<rparr>\<rparr>)))
                   else \<exists>e\<in>{Double_free, Use_after_free}. controller_main fuel E st s w = Some (Inl e)
               | None \<Rightarrow> \<exists>e\<in>{Double_free, Use_after_free}. controller_main fuel E st s w = Some (Inl e))))"
proof (cases "upk_ctrl_init fuel E st s w")
  case (Some r)
  show ?thesis
  proof (cases r)
    case (Inr c)
    with Some have init: "upk_ctrl_init fuel E st s w = Some (Inr c)" by simp
    show ?thesis
    proof (cases "svclist (runtime_conf (confs c))")
      case (Some svcs)
      show ?thesis
      proof (cases "create_all (runtime_conf (confs c)) (load_heap (confs c)) svcs (world c)")
        case (Inr w')
        from main_after_init [OF init Some this prod.collapse [symmetric]] show ?thesis
          unfolding init Some Inr Let_def ctrl_sock_setup_def make_node_def option.case sum.case
          by (cases "lnamei (snd (unlink (controller_socket (runtime_conf (confs c))) (files w')))
              (take (SUN_PATH_LEN - 1) (controller_socket (runtime_conf (confs c))))") (simp_all split: if_splits)
      qed (simp add: controller_main_def init Some)
    qed (simp add: controller_main_def init)
  qed (simp add: Some controller_main_def)
qed (simp add: controller_main_def)

section \<open>Identifiers\<close>

lemma overlay_svcconf_uuid:
  "upk_overlay_svcconf_values dest high h = Inr (d, h') \<Longrightarrow> UUID d = overlay_uuid (UUID high) (UUID dest)"
  by (auto simp: upk_overlay_svcconf_values_def bind_c_Inr_iff overlay_values_def)

text \<open>The identifier a description is finished with.\<close>

definition configured_uuid :: "upk_svc_desc \<Rightarrow> upk_svc_desc \<Rightarrow> upk_uuid" where
  "configured_uuid defaults svc = overlay_uuid (UUID svc) (overlay_uuid (UUID defaults) zero_uuid)"

lemma finalize_uuid:
  assumes "upk_finalize_svc_desc junk defaults upk_svc_desc_clear (Some svc) h = Inr (d, h')"
  shows "UUID d = configured_uuid defaults svc"
  using assms
  by (auto simp: upk_finalize_svc_desc_def bind_c_Inr_iff configured_uuid_def upk_svc_desc_clear_def
      dest!: overlay_svcconf_uuid)

lemma finalize_services_uuid:
  "finalize_services junk defaults svcs h = Inr (ds, h') \<Longrightarrow> map UUID ds = map (configured_uuid defaults) svcs"
  by (induction svcs arbitrary: ds h h') (auto simp: bind_c_Inr_iff dest!: finalize_uuid)

lemma load_service_files_runtime:
  "load_service_files env fl dir names cfg s = Inr (cfg', s') \<Longrightarrow> runtime_conf s' = runtime_conf s"
  by (induction names arbitrary: cfg s) (auto simp: bind_c_Inr_iff Let_def pack_into_def split: if_splits)

lemma runtime_services_uuid:
  assumes "upk_load_runtime_services junk env fl s = Inr s'"
    and "svclist (runtime_conf s) = None" and "svclist (runtime_conf s') = Some run"
  shows "map UUID run = map (configured_uuid (ServiceDefaults (runtime_conf s))) (list_or_empty (svclist (file_conf s')))"
  using assms
  by (auto simp: upk_load_runtime_services_def bind_c_Inr_iff Let_def
      dest!: finalize_services_uuid load_service_files_runtime split: option.splits if_splits)

text \<open>C17: the identifier the store has for a service, or gives it, does not reach its buddy.  The services are
  copied into the runtime configuration, from which the buddies are started, before the store is asked;
  the store's identifiers are written into the file configuration.  So a service is started with the
  identifier of its file or of the defaults, which is zero when neither has one.\<close>

theorem identity_stays_behind:
  assumes "load_services E fs s st = Some (Inr (s', st'))"
    and "svclist (runtime_conf s) = None" and "svclist (runtime_conf s') = Some run"
  shows "\<exists>s1 before after. upk_load_runtime_services (after_text E) (parser E) fs s = Inr s1 \<and>
    svclist (file_conf s1) = Some before \<and> svclist (file_conf s') = Some after \<and>
    insert_services (sql E) (device E) (load_heap s') (after_byte E) before st = Some (Inr (after, st')) \<and>
    map UUID run = map (configured_uuid (ServiceDefaults (runtime_conf s))) before"
  using assms
  by (auto simp: load_services_def bind_o_Inr_iff list_or_empty_def dest!: runtime_services_uuid split: option.splits)

section \<open>Running buddies\<close>

lemma create_all_append:
  "create_all cfg h (before @ after) w = bind_c (create_all cfg h before w) (create_all cfg h after)"
  by (induction before arbitrary: w) (auto simp: bind_c_def split: sum.split)

lemma none_started:
  assumes "st_is_sock w"
    and "\<forall>s\<in>set svcs. \<exists>p. buddy_sock_path cfg s = Inr p \<and> stat_file (files w) p \<in> {None, Some Socket}"
  shows "create_all cfg h svcs w = Inr w"
  using assms(2)
proof (induction svcs)
  case (Cons s svcs)
  then obtain p where "buddy_sock_path cfg s = Inr p" "stat_file (files w) p \<in> {None, Some Socket}" by auto
  moreover have "w\<lparr>st_is_sock := True\<rparr> = w" using assms(1) by simp
  ultimately have "create_buddy cfg h s w = Inr w" using assms(1) by (auto simp: create_buddy_def)
  then show ?case using Cons by simp
qed simp

text \<open>C19: the controller starts no buddy for the services that come after the first one whose buddy it finds
  running: the answer of \<open>stat\<close> for that one is kept for all that have no socket.\<close>

theorem running_hides_rest:
  assumes "create_all cfg h before w = Inr w1"
    and "buddy_sock_path cfg svc = Inr path" and "stat_file (files w1) path = Some Socket"
    and "\<forall>s\<in>set after. \<exists>p. buddy_sock_path cfg s = Inr p \<and> stat_file (files w1) p \<in> {None, Some Socket}"
  shows "create_all cfg h (before @ svc # after) w = Inr (w1\<lparr>st_is_sock := True\<rparr>)"
  using assms none_started [of "w1\<lparr>st_is_sock := True\<rparr>" after cfg h]
  by (simp add: create_all_append create_buddy_def)

lemma running_hides_rest_witness:
  "create_all sample_ctrl_cfg sample_heap [sample_svc\<lparr>Name := ''a''\<rparr>, sample_svc\<lparr>Name := ''b''\<rparr>] sample_ctrl =
     Inr (sample_ctrl\<lparr>st_is_sock := True\<rparr>)"
proof -
  have "stat_file (files sample_ctrl) ''/r/a/buddy.sock'' = Some Socket"
    "stat_file (files sample_ctrl) ''/r/b/buddy.sock'' = None"
    by (simp_all add: sample_ctrl_def stat_file_def namei_def node_at_def MAXSYMLINKS_def)
  then show ?thesis
    using running_hides_rest [of sample_ctrl_cfg sample_heap "[]" sample_ctrl sample_ctrl "sample_svc\<lparr>Name := ''a''\<rparr>"
        "''/r/a/buddy.sock''" "[sample_svc\<lparr>Name := ''b''\<rparr>]"] sample_ctrl_paths
    by simp
qed

text \<open>A directory with one file, which describes the service \<open>a\<close> of the store and says nothing else of it.\<close>

definition one_service_env :: "((string \<times> string \<times> string) list, sample_stmt) start_env" where
  "one_service_env =
     \<lparr>parser = sample_env (JObject [(printed_key (named ''a''), JObject [])]), default_text = '''', config_file = '''',
      sql = sample_sqlite, sqlite_open = (\<lambda>_. (0, dbh sample_store)), audit_schema = '''', cfg_schema = '''',
      device = True, after_byte = (\<lambda>_. 0), after_text = (\<lambda>_. CHR 0x00), lock_taken = False, lock_mode = 0\<rparr>"

definition one_service_files :: load_files where
  "one_service_files = \<lparr>contents = (\<lambda>_. Some ''x''), names_in = (\<lambda>_. Some [''a.conf''])\<rparr>"

definition one_service_start :: load_state where
  "one_service_start = program_start\<lparr>runtime_conf := (runtime_conf program_start)\<lparr>SvcConfigPath := ''/c''\<rparr>\<rparr>"

lemma one_service_pack:
  "upk_svcconf_pack (parser one_service_env) ''x'' st =
    Inr (loading (conf st) (services_of st) (alerts st) (named ''a'') (conf_heap st))"
proof -
  let ?env = "parser one_service_env" and ?t = "top_stack H_svc_toplvl" and ?key = "printed_key (named ''a'')"
  have env: "c_strings (json_lib ?env)" by (simp add: one_service_env_def)
  have pr: "printable h (named ''a'')" for h
    by (simp add: printable_def named_def upk_svc_desc_clear_def fits_def text_ptrs_def readable_def ptr_text_def
        list_or_empty_def UPK_MAX_STRING_LEN_def UPK_MAX_PATH_LEN_def)
  have same: "upk_svc_desc_clear\<lparr>Package := Package (named ''a''), Name := Name (named ''a'')\<rparr> = named ''a''"
    by (simp add: named_def upk_svc_desc_clear_def)
  let ?st = "loading (conf st) (services_of st) (alerts st) (named ''a'') (conf_heap st)"
  have "upk_json_parse_node (json_lib ?env) (run_conf ?env) (Some ?key) (JObject []) (list_node # ?t, st) =
      Inr (list_node # ?t, ?st)"
    by (simp add: upk_json_parse_node.simps service_pushed [OF env pr, unfolded same] upk_json_stack_pop_def)
  then have "upk_json_parse_node (json_lib ?env) (run_conf ?env) None (JObject [(?key, JObject [])]) (?t, st) =
      Inr (?t, ?st)"
    by (simp add: upk_json_parse_node.simps toplvl_services [OF env] upk_json_stack_pop_def)
  moreover have "tokener_parse (json_lib ?env) ''x'' = (JObject [(?key, JObject [])], True, 0)"
    by (simp add: one_service_env_def sample_env_def)
  ultimately show ?thesis
    by (simp add: upk_svcconf_pack_def conf_pack_def upk_json_parse_string_def upk_json_stack_push_def
        flip: top_stack_def)
qed

lemma one_service_loaded:
  "\<exists>s1 r. upk_load_runtime_services (after_text one_service_env) (parser one_service_env) one_service_files one_service_start =
      Inr s1 \<and> svclist (file_conf s1) = Some [named ''a''] \<and> svclist (runtime_conf s1) = Some [r]"
proof -
  let ?env = "parser one_service_env" and ?h = "load_heap one_service_start"
  have "file_chunks ''x'' = [''x'']" by (simp add: file_chunks_def UPK_MAX_STRING_LEN_def fgets_chunks.simps c_string_def)
  then have loaded: "upk_config_loadfile (Some ''x'') = Inr ''x''"
    by (simp add: upk_config_loadfile_def load_chunk_def Let_def)
  have "conf_file ''a.conf''" by (simp add: conf_file_def)
  then have load: "load_service_files ?env one_service_files ''/c'' [''a.conf''] cfg s =
      Inr (cfg\<lparr>svclist := Some (list_or_empty (svclist cfg) @ [named ''a''])\<rparr>, s)" for cfg s
    by (simp add: one_service_files_def loaded pack_into_def one_service_pack loading_def services_of_def
        UPK_MAX_PATH_LEN_def)
  have "\<exists>d. upk_finalize_svc_desc (after_text one_service_env) upk_svc_desc_clear upk_svc_desc_clear (Some (named ''a'')) ?h =
      Inr (d, ?h)"
    by (simp add: upk_finalize_svc_desc_def upk_overlay_svcconf_values_def overlay_script_def overlay_actions_def
        named_def upk_svc_desc_clear_def overlay_values_def replace_at_def)
  then obtain d where "upk_finalize_svc_desc (after_text one_service_env) upk_svc_desc_clear upk_svc_desc_clear
      (Some (named ''a'')) ?h = Inr (d, ?h)" by blast
  moreover have "names_in one_service_files ''/c'' = Some [''a.conf'']" by (simp add: one_service_files_def)
  moreover have "SvcConfigPath (runtime_conf one_service_start) = ''/c''"
    "ServiceDefaults (runtime_conf one_service_start) = upk_svc_desc_clear"
    "svclist (file_conf one_service_start) = None"
    by (simp_all add: one_service_start_def program_start_def zero_config_def Let_def)
  ultimately show ?thesis
    by (simp add: upk_load_runtime_services_def load Let_def list_or_empty_def UPK_MAX_PATH_LEN_def del: load_service_files.simps)
qed

lemma identity_stays_behind_witness:
  "\<exists>s' st' a r. load_services one_service_env one_service_files one_service_start sample_store = Some (Inr (s', st')) \<and>
     svclist (file_conf s') = Some [a] \<and> UUID a = upk_string_to_uuid zero_uuid ''00000000-0000-4000-8000-000000000001'' \<and>
     svclist (runtime_conf s') = Some [r] \<and> UUID r = zero_uuid"
proof -
  let ?E = one_service_env and ?a = "(named ''a'')\<lparr>UUID := upk_string_to_uuid zero_uuid ''00000000-0000-4000-8000-000000000001''\<rparr>"
  have E: "sql ?E = sample_sqlite" "device ?E" "after_byte ?E = (\<lambda>_. 0)" by (simp_all add: one_service_env_def)
  obtain s1 r where s1: "upk_load_runtime_services (after_text ?E) (parser ?E) one_service_files one_service_start = Inr s1"
    "svclist (file_conf s1) = Some [named ''a'']" "svclist (runtime_conf s1) = Some [r]"
    using one_service_loaded by blast
  obtain st1 where "upk_db_insert_cfg sample_sqlite True (load_heap s1) (\<lambda>_. 0) (named ''a'') sample_store = Some (Inr (False, ?a, st1))"
    using sample_known by blast
  then have "insert_services (sql ?E) (device ?E) (load_heap s1) (after_byte ?E) [named ''a''] sample_store = Some (Inr ([?a], st1))"
    by (simp add: E)
  then have load: "load_services ?E one_service_files one_service_start sample_store =
      Some (Inr (s1\<lparr>file_conf := (file_conf s1)\<lparr>svclist := Some [?a]\<rparr>\<rparr>, st1))"
    by (simp add: load_services_def s1)
  have "svclist (runtime_conf one_service_start) = None" "ServiceDefaults (runtime_conf one_service_start) = upk_svc_desc_clear"
    by (simp_all add: one_service_start_def program_start_def zero_config_def Let_def)
  moreover have "configured_uuid upk_svc_desc_clear (named ''a'') = zero_uuid"
    by (simp add: configured_uuid_def upk_svc_desc_clear_def)
  ultimately have "UUID r = zero_uuid"
    using identity_stays_behind [OF load] s1 by auto
  with load s1(3) show ?thesis by auto
qed

end
