(* ===== verification/Spec2Isabelle.thy ===== *)
theory Spec2Isabelle
  imports Buddy_Main Buddy_Safety Ctrl_Client Ctrl_Main
begin

text \<open>
  A verification development for upkeeper, a framework that starts services and keeps them running.

  The program has three parts.  A buddy (\<open>controller/buddy.c\<close>) supervises one service: it starts it through
  the scripts of its directory, restarts it when it dies, and keeps a ring of the latest events, which it
  sends to the controller.  The controller (\<open>controller/ctrl_eventloop.c\<close>, \<open>ctrl_buddy.c\<close>) reads the
  configuration (\<open>libupkeeper/upkeeper/upk_config.c\<close>), sets up the directories of the buddies, starts
  them, sends them commands and collects their events, and serves the requests of clients.  The library
  \<open>libupkeeper/upkeeper\<close> holds what controller and clients share: the packets of the protocol, connections
  on non-blocking sockets, the list macros, identifiers and string utilities.

  The theories, from the library to the processes.

  \<open>Upk_Prelude\<close>: machine integers, C strings, the faults of C code as the left side of a sum type.

  \<open>Upk_Crc32\<close> (\<open>upk_crc32.c\<close>): the table and the table-driven checksum, equal to the bitwise division
  by the polynomial; a change of up to four neighbouring bytes changes it.

  \<open>Upk_Wire\<close>, \<open>Upk_Messages\<close>, \<open>Upk_Serializer\<close>, \<open>Upk_Packet\<close> (\<open>upk_protocol.h\<close>,
  \<open>upk_v0_protocol_structs.h\<close>, \<open>upk_v0_protocol_serializer.c\<close>, \<open>upk_protocol_serializer.c\<close>): the fetch and
  put macros over a cursor, the messages, one serializer and one deserializer per message, the dispatch
  tables, and packets with header and checksum.  The locales \<open>wire_field\<close> and \<open>message_codec\<close> state that
  reading what was written gives it back and leaves the rest of the buffer; each field, each message and
  each dispatcher is an interpretation, and the round trip of a packet rests on them.  The error lemmas
  say which faults a packet of a peer can cause.

  \<open>Upk_Create\<close> (\<open>upk_protocol.c\<close>, \<open>upk_v0_protocol.c\<close>): the constructors of packets; \<open>created\<close> is the set
  of packets they return, and every one of them is in the domain of the round trip, service information
  excepted when its caller leaves bytes behind the name of the last action.

  \<open>Upk_List\<close> (\<open>upk_types.h\<close>): the list macros on a heap of nodes, with a freed node gone from the heap.  The
  locale \<open>ustack\<close> is the contract of the uses as a stack; a walk that unlinks nodes is described by
  \<open>survivors\<close>.  The walks have fuel, one unit per node visited: any fuel above the length of the list is
  enough, which is a premise of the lemmas and proved to give a result.

  \<open>Upk_Network\<close> (\<open>upk_network.c\<close>): the connection with its read and write buffers.  The system calls are
  read from lists of outcomes in the connection, so that every way a stream may be cut is a value; the
  callbacks are a parameter.  What is freed with a connection is kept as a set of addresses.  The end to end property connects constructor, queue, write, read and
  deserializer; the error properties show when a connection is closed, goes deaf or loses a packet.

  \<open>Upk_Dispatch\<close>, \<open>Upk_Client\<close> (\<open>upk_network.c\<close>, \<open>upk_client_net.c\<close>): a round of the dispatcher, with the
  answers of \<open>fcntl\<close> and \<open>select\<close> as a record \<open>poll\<close>, the wait for a message over a list of rounds with the
  clock after each (its result is \<open>None\<close> when these rounds do not end it), and the requests of the client
  library, which are sent one at a time.  A walk over one connection needs two units of fuel.

  \<open>Upk_Util\<close>, \<open>Upk_Uuid\<close> (\<open>upk_util.c\<close>, \<open>uuid.c\<close>): strings and identifiers.

  \<open>Upk_Config\<close> (\<open>upk_config.h\<close>, \<open>upk_config.c\<close>): descriptions of services whose strings are addresses on a
  heap, so that a string shared or freed twice is visible, and whose lists are values, the blocks of which
  are counted when they are freed: clearing, overlaying, finishing, freeing.

  \<open>Upk_Json\<close> (\<open>upk_json.c\<close>): the walk over a document that calls the handlers on top of a stack, with the
  handlers as a datatype of function pointers and their code as a parameter (locale \<open>walk_invariant\<close>: what
  every handler keeps, the walk keeps), the printer as such handlers, the removal of escaped slashes, the
  position of an error.  json-c is a record of functions: its tokener, its way to escape a string, to
  format a double and to add a member.  What is hypothesised of it is that its strings have no null
  character and, for the round trip, that a member under a new name goes to the end.

  \<open>Upk_Config_Json\<close>, \<open>Upk_Config_Read\<close>, \<open>Upk_Config_Trip\<close> (\<open>upk_config.c\<close>): the handlers that read the
  configuration and descriptions, the JSON made of descriptions, the loading of the configuration and of
  the service files.  Their lemmas say which files overrun the buffer, what a section under an unknown
  name does, which settings the program runs with, and member by member what a description written as
  JSON is read back as.

  \<open>Upk_Files\<close> (\<open>upk_util.c\<close>): a tree of directories, files and symbolic links with the system calls the
  code uses, \<open>upk_rm_rf\<close> and \<open>upk_mkdir_p\<close>.  Symbolic links are followed at most \<open>MAXSYMLINKS\<close> times, as
  the kernel does; \<open>dirname\<close> is that of the GNU library.

  \<open>Buddy_Ring\<close>, \<open>Buddy\<close>, \<open>Buddy_Loop\<close>, \<open>Buddy_Safety\<close> (\<open>buddy.c\<close>, \<open>ctrl_protocol.h\<close>): the ring with the
  abstract queue it implements (locale \<open>event_log\<close>), the actions and commands, the flush and the event
  loop, the step relation \<open>buddy_step\<close> with signals between any two turns, and the invariants of the
  reachable states (locale \<open>core_invariant\<close>, interpreted for the ring, the signal mask and the blocked
  child signal).  The flush has fuel, one unit per turn of its loop, and is given the size of the ring: in
  every reachable state that is enough, and the turn of the event loop returns.

  \<open>Ctrl_Buddy\<close>, \<open>Ctrl_Statedir\<close>, \<open>Ctrl_Events\<close> (\<open>ctrl_buddy.c\<close>, \<open>ctrl_eventloop.c\<close>): the controller's side
  of the conversation, composed with the buddy's for the status request; the directory of a buddy and
  where its links lead; the handlers of requests, the choice of the version and the queue of signals,
  whose loop needs one unit of fuel more than there are signals queued.

  \<open>Buddy_Main\<close> (\<open>buddy_main.c\<close>, \<open>buddy_init\<close> of \<open>buddy.c\<close>): the options of a buddy, with \<open>getopt_long\<close>
  over its table, its paths, log files and socket, and whether it comes to listen where the controller,
  which wrote its command line, looks for it.

  \<open>Ctrl_Client\<close>: a client and the controller together, from the text of an action to what the client is
  told of it.

  \<open>Ctrl_Data\<close> (\<open>ctrl_data.c\<close>): the store.  SQLite is a record of functions over a state of the database
  and one of a statement; \<open>finds\<close> says that a query runs and what it finds, and is all the properties need.
  The loop that draws identifiers runs over the draws it is given, \<open>None\<close> when these do not end it.

  \<open>Ctrl_Main\<close> (\<open>controller.c\<close>, \<open>controller_main.c\<close>): the start of the controller.  Configuration, store and
  buddies come together here: the state directory and its lock, the database, the services, a buddy for
  each, and the socket, up to the event loop or the exit handler after a failed start.  \<open>None\<close> is a start
  that waits for ever.

  What the kernel, the clock and a peer do is input of the definitions: lists of outcomes, records of what
  a file or a process is.  Output (signals sent, bytes written, commands run) is a trace in the state.

  Not modelled: the programs of the clients, which parse options, call one request of the library and
  print; the descriptors, groups and signal actions a process sets up; \<open>deps/\<close>, which is SQLite itself; the macros for double-linked lists, which have no user.
\<close>

end
